(* ===== verification/Prelude.thy ===== *)
theory Prelude
  imports Main "HOL-Library.Char_ord" "HOL-Library.List_Lexorder" "HOL-Library.Option_ord"
    "HOL-Library.Product_Lexorder"
begin

text \<open>
  What the component theories share: the collections of simplification rules, the model
  of Rust text, time and identifiers, the model of SQL statements over a table held as a
  list of rows, and the interfaces (locales) for invariants of step relations and of
  guarded table updates.
\<close>

section \<open>Rule collections\<close>

named_theorems text_defs \<open>definitions of the text primitives\<close>
named_theorems sql_simps \<open>rewrite rules for the SQL statements of the model\<close>
named_theorems queue_defs \<open>definitions of the queue operations\<close>
named_theorems ledger_defs \<open>definitions of the input ledger operations\<close>
named_theorems loop_defs \<open>definitions of the loop automation operations\<close>
named_theorems collab_defs \<open>definitions of the collaboration service operations\<close>

section \<open>Identifiers, time, results\<close>

text \<open>
  A UUID is only ever compared for equality by the code, so it is an opaque number.  A
  fresh UUID and the current time are arguments of the operation that draws them.  A
  \<open>DateTime<Utc>\<close> is a number of seconds on the UTC time line and a \<open>Duration\<close> a
  difference of two of them.
\<close>

type_synonym uuid = nat
type_synonym datetime = int
type_synonym duration = int

text \<open>A failed database call: the code never looks inside a \<open>sqlx::Error\<close>.\<close>

datatype db_error = DbError

text \<open>The operator \<open>?\<close> on \<open>Result\<close>: go on with the value, or return the error.\<close>

definition bind_err :: "'e + 'a \<Rightarrow> ('a \<Rightarrow> 'e + 'b) \<Rightarrow> 'e + 'b" where
  "bind_err x f = (case x of Inl e \<Rightarrow> Inl e | Inr v \<Rightarrow> f v)"

definition ok_or :: "'a option \<Rightarrow> 'e \<Rightarrow> 'e + 'a" where
  "ok_or x e = (case x of None \<Rightarrow> Inl e | Some v \<Rightarrow> Inr v)"

definition return_if :: "bool \<Rightarrow> 'e \<Rightarrow> 'e + unit" where
  "return_if b e = (if b then Inl e else Inr ())"

lemma bind_err_simps [simp]: "bind_err (Inl e) f = Inl e" "bind_err (Inr v) f = f v"
  by (simp_all add: bind_err_def)

lemma bind_err_Inr_iff: "bind_err x f = Inr y \<longleftrightarrow> (\<exists>v. x = Inr v \<and> f v = Inr y)"
  by (cases x) simp_all

lemma ok_or_Inr_iff: "ok_or x e = Inr v \<longleftrightarrow> x = Some v"
  by (cases x) (simp_all add: ok_or_def)

lemma return_if_Inr_iff: "return_if b e = Inr u \<longleftrightarrow> \<not> b"
  by (simp add: return_if_def)

lemmas result_iffs = bind_err_Inr_iff ok_or_Inr_iff return_if_Inr_iff

section \<open>Rust text\<close>

text \<open>
  A \<open>String\<close> is the list of its characters.  HOL's characters are the code points
  U+0000 to U+00FF; on text over them the functions below are exact.  Rust's
  \<open>len()\<close> counts bytes of the UTF-8 encoding.
\<close>

definition code_point :: "char \<Rightarrow> nat" where
  [text_defs]: "code_point c = of_char c"

definition utf8_width :: "char \<Rightarrow> nat" where
  [text_defs]: "utf8_width c = (if code_point c < 128 then 1 else 2)"

definition str_len :: "string \<Rightarrow> nat" where
  "str_len s = sum_list (map utf8_width s)"

definition is_whitespace :: "char \<Rightarrow> bool" where
  [text_defs]: "is_whitespace c =
    (let n = code_point c in (9 \<le> n \<and> n \<le> 13) \<or> n = 32 \<or> n = 133 \<or> n = 160)"

definition is_ascii_digit :: "char \<Rightarrow> bool" where
  [text_defs]: "is_ascii_digit c = (48 \<le> code_point c \<and> code_point c \<le> 57)"

definition trim_start_matches :: "(char \<Rightarrow> bool) \<Rightarrow> string \<Rightarrow> string" where
  "trim_start_matches p s = dropWhile p s"

definition trim_end_matches :: "(char \<Rightarrow> bool) \<Rightarrow> string \<Rightarrow> string" where
  "trim_end_matches p s = rev (dropWhile p (rev s))"

definition trim :: "string \<Rightarrow> string" where
  "trim s = trim_end_matches is_whitespace (trim_start_matches is_whitespace s)"

text \<open>\<open>str::to_lowercase\<close>: the capital letters of ASCII and of the Latin-1 supplement.\<close>

definition lowercase_char :: "char \<Rightarrow> char" where
  [text_defs]: "lowercase_char c =
    (let n = code_point c in
     if (65 \<le> n \<and> n \<le> 90) \<or> (192 \<le> n \<and> n \<le> 222 \<and> n \<noteq> 215) then char_of (n + 32) else c)"

definition to_lowercase :: "string \<Rightarrow> string" where
  "to_lowercase s = map lowercase_char s"

fun starts_with :: "string \<Rightarrow> string \<Rightarrow> bool" where
  "starts_with s [] = True"
| "starts_with [] (p # ps) = False"
| "starts_with (c # s) (p # ps) = (c = p \<and> starts_with s ps)"

definition strip_prefix :: "string \<Rightarrow> string \<Rightarrow> string option" where
  "strip_prefix s p = (if starts_with s p then Some (drop (length p) s) else None)"

text \<open>\<open>str::find\<close>: the index of the first occurrence; \<open>str::contains\<close>.\<close>

fun find_from :: "nat \<Rightarrow> string \<Rightarrow> string \<Rightarrow> nat option" where
  "find_from i [] p = (if p = [] then Some i else None)"
| "find_from i (c # s) p = (if starts_with (c # s) p then Some i else find_from (Suc i) s p)"

definition find_str :: "string \<Rightarrow> string \<Rightarrow> nat option" where
  "find_str s p = find_from 0 s p"

text \<open>\<open>str::split(c)\<close> at one character; \<open>join\<close> with a separator.\<close>

fun split_char :: "char \<Rightarrow> string \<Rightarrow> string list" where
  "split_char c [] = [[]]"
| "split_char c (x # s) =
     (if x = c then [] # split_char c s
      else (case split_char c s of [] \<Rightarrow> [[x]] | p # ps \<Rightarrow> (x # p) # ps))"

fun join_str :: "string \<Rightarrow> string list \<Rightarrow> string" where
  "join_str sep [] = []"
| "join_str sep [s] = s"
| "join_str sep (s # t # ss) = s @ sep @ join_str sep (t # ss)"

definition contains :: "string \<Rightarrow> string \<Rightarrow> bool" where
  "contains s p = (find_str s p \<noteq> None)"

lemma str_len_Nil [simp]: "str_len [] = 0"
  by (simp add: str_len_def)

lemma str_len_append [simp]: "str_len (s @ t) = str_len s + str_len t"
  by (simp add: str_len_def)

lemma str_len_Cons: "str_len (c # s) = utf8_width c + str_len s"
  by (simp add: str_len_def)

lemma utf8_width_pos: "0 < utf8_width c"
  by (simp add: utf8_width_def)

lemma str_len_0_iff [simp]: "str_len s = 0 \<longleftrightarrow> s = []"
  by (cases s) (simp_all add: str_len_Cons utf8_width_def)

lemma starts_with_iff: "starts_with s p \<longleftrightarrow> (\<exists>r. s = p @ r)"
  by (induction s p rule: starts_with.induct) auto

lemma strip_prefix_Some_iff: "strip_prefix s p = Some r \<longleftrightarrow> s = p @ r"
  by (auto simp: strip_prefix_def starts_with_iff)

lemma find_from_Some:
  "find_from i s p = Some k \<Longrightarrow> i \<le> k \<and> k - i \<le> length s \<and> starts_with (drop (k - i) s) p"
proof (induction i s p rule: find_from.induct)
  case (1 i p)
  then show ?case by (simp split: if_splits)
next
  case (2 i c s p)
  show ?case
  proof (cases "starts_with (c # s) p")
    case True
    with "2.prems" show ?thesis by simp
  next
    case False
    with "2.prems" "2.IH" have "Suc i \<le> k \<and> k - Suc i \<le> length s
        \<and> starts_with (drop (k - Suc i) s) p" by simp
    moreover from this have "k - i = Suc (k - Suc i)" by linarith
    ultimately show ?thesis by simp
  qed
qed

lemma find_from_None:
  "find_from i s p = None \<Longrightarrow> \<not> starts_with (drop k s) p \<or> length s < k"
proof (induction i s p arbitrary: k rule: find_from.induct)
  case (1 i p)
  then show ?case by (cases p) simp_all
next
  case (2 i c s p)
  then show ?case by (cases k) (auto split: if_splits)
qed

lemma contains_iff: "contains s p \<longleftrightarrow> (\<exists>a b. s = a @ p @ b)"
proof
  assume "contains s p"
  then obtain k where "find_from 0 s p = Some k"
    by (auto simp: contains_def find_str_def)
  then have "starts_with (drop k s) p"
    using find_from_Some [of 0 s p k] by simp
  then obtain r where "drop k s = p @ r"
    by (auto simp: starts_with_iff)
  then have "s = take k s @ p @ r"
    by (metis append_take_drop_id)
  then show "\<exists>a b. s = a @ p @ b" by blast
next
  assume "\<exists>a b. s = a @ p @ b"
  then obtain a b where s: "s = a @ p @ b" by blast
  then have "starts_with (drop (length a) s) p" and "length a \<le> length s"
    by (auto simp: starts_with_iff)
  with find_from_None [of 0 s p "length a"] show "contains s p"
    by (auto simp: contains_def find_str_def)
qed

section \<open>Lists\<close>

lemma distinct_set_singleton:
  assumes "distinct xs" and "set xs = {x}"
  shows "xs = [x]"
proof -
  have "length xs = 1" using assms distinct_card [of xs] by simp
  then obtain y where "xs = [y]" by (auto simp: length_Suc_conv)
  with assms(2) show ?thesis by simp
qed

lemma distinct_sort_map: "distinct (map g (sort_key f xs)) \<longleftrightarrow> distinct (map g xs)"
proof -
  have "length (sort_key f xs) = length xs" "set (sort_key f xs) = set xs" by simp_all
  then show ?thesis by (metis card_distinct distinct_card length_map list.set_map)
qed

section \<open>SQL statements over a table\<close>

text \<open>
  A table is the list of its rows in insertion order.  \<open>UPDATE t SET f WHERE p\<close> changes
  every matching row in place; the number of rows affected is the number of matches.
\<close>

definition update_where :: "('r \<Rightarrow> bool) \<Rightarrow> ('r \<Rightarrow> 'r) \<Rightarrow> 'r list \<Rightarrow> 'r list" where
  "update_where p f rows = map (\<lambda>r. if p r then f r else r) rows"

definition rows_affected :: "('r \<Rightarrow> bool) \<Rightarrow> 'r list \<Rightarrow> nat" where
  "rows_affected p rows = length (filter p rows)"

definition delete_where :: "('r \<Rightarrow> bool) \<Rightarrow> 'r list \<Rightarrow> 'r list" where
  "delete_where p rows = filter (\<lambda>r. \<not> p r) rows"

text \<open>\<open>SELECT ... WHERE p\<close> with \<open>fetch_optional\<close>: the first row in table order.\<close>

definition select_one :: "('r \<Rightarrow> bool) \<Rightarrow> 'r list \<Rightarrow> 'r option" where
  "select_one p rows = find p rows"

text \<open>\<open>ORDER BY k ASC\<close> and \<open>ORDER BY k DESC\<close>, and \<open>LIMIT 1\<close> after either.\<close>

definition order_by :: "('r \<Rightarrow> 'k::linorder) \<Rightarrow> 'r list \<Rightarrow> 'r list" where
  "order_by key rows = sort_key key rows"

definition order_by_desc :: "('r \<Rightarrow> int) \<Rightarrow> 'r list \<Rightarrow> 'r list" where
  "order_by_desc key rows = sort_key (\<lambda>r. - key r) rows"

fun limit_one :: "'r list \<Rightarrow> 'r option" where
  "limit_one [] = None"
| "limit_one (r # rs) = Some r"

lemma limit_one_Some: "limit_one rs = Some r \<Longrightarrow> r \<in> set rs"
  by (cases rs) auto

lemma limit_one_None [simp]: "limit_one rs = None \<longleftrightarrow> rs = []"
  by (cases rs) auto

lemma set_order_by [simp]: "set (order_by key rows) = set rows"
  by (simp add: order_by_def)

lemma set_order_by_desc [simp]: "set (order_by_desc key rows) = set rows"
  by (simp add: order_by_desc_def)

lemma order_by_eq_Nil [simp]: "order_by key rows = [] \<longleftrightarrow> rows = []"
  by (metis set_empty set_order_by)

lemma order_by_desc_eq_Nil [simp]: "order_by_desc key rows = [] \<longleftrightarrow> rows = []"
  by (metis set_empty set_order_by_desc)

lemma select_one_Some: "select_one p rows = Some r \<Longrightarrow> r \<in> set rows \<and> p r"
  unfolding select_one_def by (metis find_Some_iff nth_mem)

lemma select_one_None: "select_one p rows = None \<longleftrightarrow> (\<forall>r\<in>set rows. \<not> p r)"
  by (auto simp: select_one_def find_None_iff)

lemma rows_affected_pos [sql_simps]: "0 < rows_affected p rows \<longleftrightarrow> (\<exists>r\<in>set rows. p r)"
  by (induction rows) (auto simp: rows_affected_def)

lemma rows_affected_0 [sql_simps]: "rows_affected p rows = 0 \<longleftrightarrow> (\<forall>r\<in>set rows. \<not> p r)"
  by (auto simp: rows_affected_def filter_empty_conv)

lemma length_update_where [simp]: "length (update_where p f rows) = length rows"
  by (simp add: update_where_def)

lemma set_update_where: "set (update_where p f rows) = (\<lambda>r. if p r then f r else r) ` set rows"
  by (simp add: update_where_def)

lemma bex_update_where:
  "(\<exists>a\<in>set (update_where p f rows). P a) \<longleftrightarrow> (\<exists>a\<in>set rows. P (if p a then f a else a))"
  unfolding set_update_where by blast

lemma ball_update_where:
  "(\<forall>a\<in>set (update_where p f rows). P a) \<longleftrightarrow> (\<forall>a\<in>set rows. P (if p a then f a else a))"
  unfolding set_update_where by blast

lemma in_update_whereE:
  assumes "r \<in> set (update_where p f rows)"
  obtains (same) "r \<in> set rows" "\<not> p r" | (changed) q where "q \<in> set rows" "p q" "r = f q"
  using assms by (auto simp: set_update_where split: if_splits)

lemma update_where_none: "\<forall>r\<in>set rows. \<not> p r \<Longrightarrow> update_where p f rows = rows"
  by (induction rows) (auto simp: update_where_def)

lemma map_key_update_where:
  "(\<And>r. p r \<Longrightarrow> key (f r) = key r) \<Longrightarrow> map key (update_where p f rows) = map key rows"
  by (simp add: update_where_def)

lemma select_one_update_where:
  "(\<And>r. P (if q r then f r else r) = P r) \<Longrightarrow>
     select_one P (update_where q f rows) = map_option (\<lambda>r. if q r then f r else r) (select_one P rows)"
  by (induction rows) (auto simp: select_one_def update_where_def)

lemma select_one_append: "select_one P rows = Some r \<Longrightarrow> select_one P (rows @ more) = Some r"
  by (induction rows) (auto simp: select_one_def split: if_splits)

lemma select_one_snoc:
  "select_one P rows = None \<Longrightarrow> select_one P (rows @ [x]) = (if P x then Some x else None)"
  by (induction rows) (auto simp: select_one_def split: if_splits)

text \<open>A unique key: at most one row matches it.\<close>

lemma distinct_key_eq:
  "distinct (map key rows) \<Longrightarrow> r \<in> set rows \<Longrightarrow> q \<in> set rows \<Longrightarrow> key r = key q \<Longrightarrow> r = q"
  by (simp add: distinct_map inj_on_def)

lemma select_one_key:
  assumes "distinct (map key rows)" and "r \<in> set rows"
  shows "select_one (\<lambda>q. key q = key r) rows = Some r"
proof (cases "select_one (\<lambda>q. key q = key r) rows")
  case None
  with assms(2) show ?thesis by (auto simp: select_one_None)
next
  case (Some q)
  with assms distinct_key_eq [of key rows q r] show ?thesis
    by (auto dest: select_one_Some)
qed

section \<open>Invariants of step relations\<close>

text \<open>
  A component whose operations change a state is a step relation.  A provider shows that
  every step keeps an invariant; the client obtains it for every state reached.
\<close>

locale invariant_system =
  fixes step :: "'s \<Rightarrow> 's \<Rightarrow> bool" and inv :: "'s \<Rightarrow> bool"
  assumes step_inv: "inv s \<Longrightarrow> step s t \<Longrightarrow> inv t"
begin

lemma reach_inv: "step\<^sup>*\<^sup>* s t \<Longrightarrow> inv s \<Longrightarrow> inv t"
  by (induction rule: rtranclp_induct) (auto intro: step_inv)

end

text \<open>Beside the invariant, a preorder on states that every step respects.\<close>

locale monotone_system = invariant_system +
  fixes le :: "'a \<Rightarrow> 'a \<Rightarrow> bool"
  assumes le_refl: "le s s"
    and le_trans: "le s t \<Longrightarrow> le t u \<Longrightarrow> le s u"
    and step_le: "inv s \<Longrightarrow> step s t \<Longrightarrow> le s t"
begin

lemma reach_le: "step\<^sup>*\<^sup>* s t \<Longrightarrow> inv s \<Longrightarrow> le s t"
proof (induction rule: rtranclp_induct)
  case base
  show ?case by (rule le_refl)
next
  case (step t u)
  then show ?case by (blast intro: le_trans step_le reach_inv)
qed

end

end
