(* ===== verification/Fragment.thy ===== *)
theory Fragment
  imports Prelude "HOL-Library.Word"
begin

unbundle bit_operations_syntax

text \<open>
  Data-channel fragmentation (\<^verbatim>\<open>crates/relay-webrtc/src/fragment.rs\<close>): a serialized
  message is split into chunks of at most 60 KiB, each behind a one-byte SaltyRTC header;
  the receiver's \<^verbatim>\<open>Defragmenter\<close> puts the message together again.
\<close>

section \<open>Definitions\<close>

type_synonym byte = "8 word"

definition CHUNK_PAYLOAD_SIZE :: nat where
  "CHUNK_PAYLOAD_SIZE = 60 * 1024"

definition BITFIELD_MORE :: byte where
  "BITFIELD_MORE = 6"

definition BITFIELD_END :: byte where
  "BITFIELD_END = 7"

text \<open>\<open>slice::chunks(n)\<close>; it panics for 0, and the code only passes a positive constant.\<close>

function chunks :: "nat \<Rightarrow> 'a list \<Rightarrow> 'a list list" where
  "chunks n xs = (if xs = [] \<or> n = 0 then [] else take n xs # chunks n (drop n xs))"
  by pat_completeness auto
termination chunks
  by (relation "measure (\<lambda>(n, xs). length xs)") auto

declare chunks.simps [simp del]

text \<open>
  The header of piece \<open>i\<close> out of pieces with last index \<open>last_idx\<close>; the payload size is an
  argument so that concrete runs stay small: the code's value is \<open>CHUNK_PAYLOAD_SIZE\<close>.
\<close>

definition frame :: "nat \<Rightarrow> nat \<Rightarrow> byte list \<Rightarrow> byte list" where
  "frame last_idx i payload = (if i = last_idx then BITFIELD_END else BITFIELD_MORE) # payload"

definition fragment_with :: "nat \<Rightarrow> byte list \<Rightarrow> byte list list" where
  "fragment_with n data =
     (if length data \<le> n then [BITFIELD_END # data]
      else
        let pieces = chunks n data;
            last_idx = length pieces - 1
        in map (\<lambda>(i, payload). frame last_idx i payload) (enumerate 0 pieces))"

definition fragment :: "byte list \<Rightarrow> byte list list" where
  "fragment data = fragment_with CHUNK_PAYLOAD_SIZE data"

record defragmenter =
  buffer :: "byte list"

definition defragmenter_new :: defragmenter where
  "defragmenter_new = \<lparr>buffer = []\<rparr>"

definition process :: "defragmenter \<Rightarrow> byte list \<Rightarrow> byte list option \<times> defragmenter" where
  "process d data =
     (case data of
        [] \<Rightarrow> (None, d)
      | header # payload \<Rightarrow>
          let is_end = (header AND 1 \<noteq> 0) in
          if buffer d = [] \<and> is_end then (Some payload, d)
          else
            let buf = buffer d @ payload in
            if is_end then (Some buf, d\<lparr>buffer := []\<rparr>)
            else (None, d\<lparr>buffer := buf\<rparr>))"

text \<open>Feeding a sequence of chunks in order: the completed messages and the final state.\<close>

fun process_all :: "defragmenter \<Rightarrow> byte list list \<Rightarrow> byte list list \<times> defragmenter" where
  "process_all d [] = ([], d)"
| "process_all d (c # cs) =
     (let (out, d') = process d c; (outs, d'') = process_all d' cs
      in ((case out of None \<Rightarrow> [] | Some m \<Rightarrow> [m]) @ outs, d''))"

section \<open>The channel interface\<close>

text \<open>
  A codec turns a message into the packets that carry it; a decoder with a rest state
  consumes exactly the packets of one message and yields it.  Whatever is sent in order
  then arrives in order.
\<close>

locale ordered_channel =
  fixes enc :: "'m \<Rightarrow> 'p list"
    and dec_all :: "'d \<Rightarrow> 'p list \<Rightarrow> 'm list \<times> 'd"
    and rest :: 'd
  assumes dec_nil: "dec_all d [] = ([], d)"
    and dec_append: "dec_all d (ps @ qs) =
          (let (ms, d') = dec_all d ps; (ns, d'') = dec_all d' qs in (ms @ ns, d''))"
    and dec_enc: "dec_all rest (enc m) = ([m], rest)"
begin

lemma in_order_delivery: "dec_all rest (concat (map enc ms)) = (ms, rest)"
proof (induction ms)
  case Nil
  show ?case by (simp add: dec_nil)
next
  case (Cons m ms)
  then show ?case by (simp add: dec_append [of rest "enc m"] dec_enc)
qed

lemma enc_inj:
  assumes "enc m = enc n"
  shows "m = n"
proof -
  have "([m], rest) = ([n], rest)"
    unfolding dec_enc [of m, symmetric] dec_enc [of n, symmetric] assms ..
  then show ?thesis by simp
qed

end

section \<open>Chunking\<close>

lemma chunks_Nil [simp]: "chunks n [] = []"
  by (simp add: chunks.simps)

lemma chunks_step: "xs \<noteq> [] \<Longrightarrow> 0 < n \<Longrightarrow> chunks n xs = take n xs # chunks n (drop n xs)"
  by (subst chunks.simps) simp

lemma concat_chunks: "0 < n \<Longrightarrow> concat (chunks n xs) = xs"
proof (induction n xs rule: chunks.induct)
  case (1 n xs)
  then show ?case by (cases "xs = []") (simp_all add: chunks_step)
qed

lemma chunks_eq_Nil_iff: "0 < n \<Longrightarrow> chunks n xs = [] \<longleftrightarrow> xs = []"
  by (cases "xs = []") (simp_all add: chunks_step)

lemma chunks_bounds: "0 < n \<Longrightarrow> p \<in> set (chunks n xs) \<Longrightarrow> p \<noteq> [] \<and> length p \<le> n"
proof (induction n xs rule: chunks.induct)
  case (1 n xs)
  show ?case
  proof (cases "xs = []")
    case True
    with "1.prems" show ?thesis by simp
  next
    case False
    with 1 show ?thesis by (auto simp: chunks_step)
  qed
qed

lemma header_bits [simp]: "BITFIELD_END AND 1 \<noteq> 0" "BITFIELD_MORE AND 1 = 0"
  by (simp_all add: BITFIELD_END_def BITFIELD_MORE_def)

lemma process_more [simp]: "process d (BITFIELD_MORE # p) = (None, d\<lparr>buffer := buffer d @ p\<rparr>)"
  by (simp add: process_def)

lemma process_end [simp]:
  "process d (BITFIELD_END # p) = (Some (buffer d @ p), d\<lparr>buffer := []\<rparr>)"
  by (cases d) (simp add: process_def)

text \<open>Framing as recursion over the pieces: every piece but the last is marked as unfinished.\<close>

fun frames :: "byte list list \<Rightarrow> byte list list" where
  "frames [] = []"
| "frames [p] = [BITFIELD_END # p]"
| "frames (p # ps) = (BITFIELD_MORE # p) # frames ps"

lemma map_frame_enumerate:
  "ps \<noteq> [] \<Longrightarrow> map (\<lambda>(i, p). frame (k + length ps - 1) i p) (enumerate k ps) = frames ps"
proof (induction ps arbitrary: k rule: frames.induct)
  case (3 p q ps)
  from "3.IH" [of "Suc k"] show ?case by (simp add: frame_def)
qed (simp_all add: frame_def)

lemma process_all_frames:
  "ps \<noteq> [] \<Longrightarrow> process_all d (frames ps) = ([buffer d @ concat ps], d\<lparr>buffer := []\<rparr>)"
  by (induction ps arbitrary: d rule: frames.induct) simp_all

lemma fragment_with_frames:
  assumes "0 < n"
  shows "\<exists>ps. ps \<noteq> [] \<and> concat ps = data \<and> fragment_with n data = frames ps
      \<and> (\<forall>p\<in>set ps. length p \<le> n)"
proof (cases "length data \<le> n")
  case True
  then have "fragment_with n data = frames [data]" by (simp add: fragment_with_def)
  with True show ?thesis by (intro exI [of _ "[data]"]) simp
next
  case False
  with assms have ne: "chunks n data \<noteq> []" by (auto simp: chunks_eq_Nil_iff)
  with False have "fragment_with n data = frames (chunks n data)"
    using map_frame_enumerate [of "chunks n data" 0] by (simp add: fragment_with_def)
  with assms ne show ?thesis
    by (intro exI [of _ "chunks n data"]) (simp add: concat_chunks chunks_bounds)
qed

lemma process_all_append:
  "process_all d (ps @ qs) =
     (let (ms, d') = process_all d ps; (ns, d'') = process_all d' qs in (ms @ ns, d''))"
  by (induction ps arbitrary: d) (auto simp: Let_def split: prod.splits)

lemma process_all_fragment_with:
  assumes "0 < n"
  shows "process_all defragmenter_new (fragment_with n m) = ([m], defragmenter_new)"
proof -
  from fragment_with_frames [OF assms, of m] obtain ps
    where "ps \<noteq> []" "concat ps = m" "fragment_with n m = frames ps" by blast
  then show ?thesis by (simp add: process_all_frames defragmenter_new_def)
qed

lemma chunk_size_pos: "0 < CHUNK_PAYLOAD_SIZE"
  by (simp add: CHUNK_PAYLOAD_SIZE_def)

interpretation data_channel: ordered_channel fragment process_all defragmenter_new
  by unfold_locales
    (simp_all add: process_all_append fragment_def process_all_fragment_with chunk_size_pos)

section \<open>Properties\<close>

text \<open>
  C36. Messages sent one after the other over the ordered data channel are delivered by the
  receiver exactly as sent: same messages, same order, and the receive buffer is empty
  again afterwards.
\<close>

theorem fragment_roundtrip:
  "process_all defragmenter_new (concat (map fragment ms)) = (ms, defragmenter_new)"
  by (rule data_channel.in_order_delivery)

lemma frames_bounds:
  "c \<in> set (frames ps) \<Longrightarrow> \<exists>h p. p \<in> set ps \<and> c = h # p \<and> (h = BITFIELD_END \<or> h = BITFIELD_MORE)"
  by (induction ps rule: frames.induct) auto

text \<open>
  No chunk exceeds the SCTP message limit of 65536 bytes: every chunk is a header with the
  reliable/ordered mode bits and at most 60 KiB of payload.
\<close>

theorem fragment_chunk_bounds:
  assumes "c \<in> set (fragment data)"
  shows "c \<noteq> [] \<and> hd c AND 0b11111110 = 0b110 \<and> length c \<le> 1 + 60 * 1024 \<and> length c \<le> 65536"
proof -
  obtain ps where "fragment data = frames ps" and *: "\<forall>p\<in>set ps. length p \<le> CHUNK_PAYLOAD_SIZE"
    using fragment_with_frames [OF chunk_size_pos, of data] by (auto simp: fragment_def)
  then obtain h p where "p \<in> set ps" "c = h # p" "h = BITFIELD_END \<or> h = BITFIELD_MORE"
    using assms frames_bounds [of c ps] by auto
  moreover from * \<open>p \<in> set ps\<close> have "length p \<le> 61440"
    by (simp add: CHUNK_PAYLOAD_SIZE_def)
  ultimately show ?thesis
    by (auto simp: BITFIELD_END_def BITFIELD_MORE_def)
qed

theorem fragment_chunk_bounds_witness:
  "[7, 1, 2, 3] \<noteq> ([] :: byte list) \<and> hd [7, 1, 2, 3] AND 0b11111110 = (0b110 :: byte)
   \<and> length [7, 1, 2, 3 :: byte] \<le> 1 + 60 * 1024 \<and> length [7, 1, 2, 3 :: byte] \<le> 65536"
proof -
  have "[7, 1, 2, 3] \<in> set (fragment [1, 2, 3])"
    by (simp add: fragment_def fragment_with_def CHUNK_PAYLOAD_SIZE_def BITFIELD_END_def)
  from fragment_chunk_bounds [OF this] show ?thesis .
qed

end
