(* ===== verification/SpawnReservation.thy ===== *)
theory SpawnReservation
  imports Prelude
begin

text \<open>
  The spawn reservation of a workspace
  (\<^verbatim>\<open>crates/db/src/models/workspace_spawn_reservation.rs\<close>): a short lease with a fencing
  token, which keeps the executor and the CLI from spawning an agent into the same worktree
  at once.
\<close>

section \<open>Definitions\<close>

datatype spawn_reservation_holder = HolderExecutor | HolderCli

record workspace_spawn_reservation =
  rv_workspace_id :: uuid
  rv_holder :: spawn_reservation_holder
  rv_fence :: string
  rv_created_at :: datetime
  rv_expires_at :: datetime

type_synonym reservation_table = "workspace_spawn_reservation list"

definition DEFAULT_TTL :: duration where
  "DEFAULT_TTL = 15"

text \<open>\<open>INSERT OR IGNORE\<close>: the workspace is the primary key.\<close>

definition insert_or_ignore ::
  "reservation_table \<Rightarrow> workspace_spawn_reservation \<Rightarrow> nat \<times> reservation_table" where
  "insert_or_ignore rows r =
     (if \<exists>q\<in>set rows. rv_workspace_id q = rv_workspace_id r then (0, rows) else (1, rows @ [r]))"

definition acquire_at ::
  "reservation_table \<Rightarrow> string \<Rightarrow> uuid \<Rightarrow> spawn_reservation_holder \<Rightarrow> datetime \<Rightarrow> duration
     \<Rightarrow> workspace_spawn_reservation option \<times> reservation_table" where
  "acquire_at rows fence wid holder now ttl =
     (let rows1 = delete_where (\<lambda>r. rv_workspace_id r = wid \<and> rv_expires_at r \<le> now) rows;
          r = \<lparr>rv_workspace_id = wid, rv_holder = holder, rv_fence = fence,
               rv_created_at = now, rv_expires_at = now + ttl\<rparr>;
          (inserted, rows2) = insert_or_ignore rows1 r
      in if inserted = 0 then (None, rows2) else (Some r, rows2))"

definition acquire ::
  "reservation_table \<Rightarrow> string \<Rightarrow> uuid \<Rightarrow> spawn_reservation_holder \<Rightarrow> datetime
     \<Rightarrow> workspace_spawn_reservation option \<times> reservation_table" where
  "acquire rows fence wid holder now = acquire_at rows fence wid holder now DEFAULT_TTL"

definition release :: "reservation_table \<Rightarrow> uuid \<Rightarrow> string \<Rightarrow> bool \<times> reservation_table" where
  "release rows wid fence =
     (let p = (\<lambda>r. rv_workspace_id r = wid \<and> rv_fence r = fence)
      in (0 < rows_affected p rows, delete_where p rows))"

definition find_reservation :: "reservation_table \<Rightarrow> uuid \<Rightarrow> workspace_spawn_reservation option" where
  "find_reservation rows wid = select_one (\<lambda>r. rv_workspace_id r = wid) rows"

text \<open>Any operation of any process.\<close>

inductive reservation_step :: "reservation_table \<Rightarrow> reservation_table \<Rightarrow> bool" where
  step_acquire: "reservation_step rows (snd (acquire_at rows fence wid holder now ttl))"
| step_release: "reservation_step rows (snd (release rows wid fence))"

text \<open>
  The operations of everybody else while a reservation \<open>r\<close> is live: acquisitions before it
  expires, and releases that do not present its workspace and fence.
\<close>

inductive rival_step ::
  "workspace_spawn_reservation \<Rightarrow> reservation_table \<Rightarrow> reservation_table \<Rightarrow> bool"
  for r :: workspace_spawn_reservation where
  rival_acquire: "now < rv_expires_at r \<Longrightarrow>
     rival_step r rows (snd (acquire_at rows fence wid holder now ttl))"
| rival_release: "\<not> (wid = rv_workspace_id r \<and> fence = rv_fence r) \<Longrightarrow>
     rival_step r rows (snd (release rows wid fence))"

definition reservation_inv :: "reservation_table \<Rightarrow> bool" where
  "reservation_inv rows = distinct (map rv_workspace_id rows)"

section \<open>Lemmas\<close>

lemma reservation_inv_delete: "reservation_inv rows \<Longrightarrow> reservation_inv (delete_where p rows)"
  by (simp add: reservation_inv_def delete_where_def distinct_map_filter)

lemma reservation_inv_insert:
  "reservation_inv rows \<Longrightarrow> reservation_inv (snd (insert_or_ignore rows r))"
  by (force simp: reservation_inv_def insert_or_ignore_def)

lemma snd_acquire_at:
  "snd (acquire_at rows fence wid holder now ttl) =
     snd (insert_or_ignore (delete_where (\<lambda>r. rv_workspace_id r = wid \<and> rv_expires_at r \<le> now) rows)
       \<lparr>rv_workspace_id = wid, rv_holder = holder, rv_fence = fence,
        rv_created_at = now, rv_expires_at = now + ttl\<rparr>)"
  by (simp add: acquire_at_def Let_def split: prod.splits)

interpretation reservation_machine: invariant_system reservation_step reservation_inv
proof
  fix rows rows' assume "reservation_inv rows" and "reservation_step rows rows'"
  from this(2,1) show "reservation_inv rows'"
    by cases (simp_all add: snd_acquire_at release_def Let_def reservation_inv_insert
        reservation_inv_delete)
qed

interpretation rival_machine: invariant_system "rival_step r" "\<lambda>rows. r \<in> set rows" for r
proof
  fix rows rows' assume "r \<in> set rows" and "rival_step r rows rows'"
  from this(2,1) show "r \<in> set rows'"
    by cases (auto simp: snd_acquire_at release_def Let_def insert_or_ignore_def delete_where_def)
qed

lemma acquire_blocked:
  assumes "r \<in> set rows" and "now < rv_expires_at r"
  shows "fst (acquire_at rows fence (rv_workspace_id r) holder now ttl) = None"
  using assms by (force simp: acquire_at_def insert_or_ignore_def delete_where_def Let_def)

lemma acquire_granted:
  "acquire_at rows fence wid holder now ttl = (Some r, rows') \<Longrightarrow>
     rv_workspace_id r = wid \<and> rv_fence r = fence \<and> rv_expires_at r = now + ttl \<and> r \<in> set rows'"
  by (auto simp: acquire_at_def insert_or_ignore_def Let_def split: if_splits)

section \<open>Properties\<close>

text \<open>
  C30. Mutual exclusion: after a reservation is granted, whatever the other processes do before
  it expires (acquire, expire other workspaces, release with any token but its own), nobody
  else obtains the workspace before the expiry time.
\<close>

theorem reservation_mutual_exclusion:
  assumes "acquire_at rows fence wid holder now ttl = (Some r, rows1)"
    and "(rival_step r)\<^sup>*\<^sup>* rows1 rows2" and "now' < now + ttl"
  shows "fst (acquire_at rows2 fence' wid holder' now' ttl') = None"
proof -
  note r = acquire_granted [OF assms(1)]
  with assms(2) have "r \<in> set rows2" using rival_machine.reach_inv by blast
  with r assms(3) acquire_blocked [of r rows2] show ?thesis by simp
qed

theorem reservation_mutual_exclusion_witness:
  "fst (acquire_at (snd (acquire_at [] ''a'' 1 HolderExecutor 100 15)) ''b'' 1 HolderCli 114 15) = None"
proof -
  have "fst (acquire_at [] ''a'' 1 HolderExecutor 100 15) \<noteq> None"
    by (simp add: acquire_at_def insert_or_ignore_def delete_where_def Let_def)
  then obtain r where "acquire_at [] ''a'' 1 HolderExecutor 100 15
      = (Some r, snd (acquire_at [] ''a'' 1 HolderExecutor 100 15))"
    by (metis option.exhaust prod.collapse)
  from reservation_mutual_exclusion [OF this rtranclp.rtrancl_refl] show ?thesis by simp
qed

text \<open>
  Progress: a workspace is free again once its reservation has expired or its holder has
  released it, so the next request is granted; a release with a stale fence changes nothing.
\<close>

theorem reservation_progress:
  assumes "reservation_step\<^sup>*\<^sup>* [] rows" and "r \<in> set rows"
  shows "(rv_expires_at r \<le> now \<longrightarrow>
        fst (acquire_at rows fence' (rv_workspace_id r) holder now ttl) \<noteq> None)
    \<and> fst (release rows (rv_workspace_id r) (rv_fence r))
    \<and> fst (acquire_at (snd (release rows (rv_workspace_id r) (rv_fence r))) fence'
        (rv_workspace_id r) holder now ttl) \<noteq> None
    \<and> (stale \<noteq> rv_fence r \<longrightarrow> release rows (rv_workspace_id r) stale = (False, rows))"
proof -
  have "reservation_inv rows"
    using reservation_machine.reach_inv [OF assms(1)] by (simp add: reservation_inv_def)
  then have uniq: "q = r" if "q \<in> set rows" "rv_workspace_id q = rv_workspace_id r" for q
    using that assms(2) by (auto simp: reservation_inv_def intro: distinct_key_eq)
  have "release rows (rv_workspace_id r) stale = (False, rows)" if "stale \<noteq> rv_fence r"
    using that uniq by (auto simp: release_def Let_def rows_affected_pos delete_where_def
        intro!: filter_True)
  moreover have "fst (release rows (rv_workspace_id r) (rv_fence r))"
    using assms(2) by (auto simp: release_def Let_def rows_affected_pos)
  moreover have "fst (acquire_at (snd (release rows (rv_workspace_id r) (rv_fence r))) fence'
      (rv_workspace_id r) holder now ttl) \<noteq> None"
    using uniq by (auto simp: release_def Let_def acquire_at_def insert_or_ignore_def delete_where_def)
  moreover have "fst (acquire_at rows fence' (rv_workspace_id r) holder now ttl) \<noteq> None"
    if "rv_expires_at r \<le> now"
    using that uniq by (auto simp: Let_def acquire_at_def insert_or_ignore_def delete_where_def)
  ultimately show ?thesis by blast
qed

theorem reservation_progress_witness:
  "fst (acquire_at (snd (acquire_at [] ''a'' 1 HolderExecutor 100 15)) ''b'' 1 HolderCli 115 15) \<noteq> None"
proof -
  let ?rows = "snd (acquire_at [] ''a'' 1 HolderExecutor 100 15)"
  let ?r = "\<lparr>rv_workspace_id = 1, rv_holder = HolderExecutor, rv_fence = ''a'',
             rv_created_at = 100, rv_expires_at = 115\<rparr>"
  have "reservation_step\<^sup>*\<^sup>* [] ?rows"
    by (rule r_into_rtranclp) (rule step_acquire)
  moreover have "?r \<in> set ?rows"
    by (simp add: acquire_at_def insert_or_ignore_def delete_where_def Let_def)
  ultimately show ?thesis
    using reservation_progress [of ?rows ?r 115] by simp
qed

end
