(* ===== verification/Sessions.thy ===== *)
theory Sessions
  imports Prelude
begin

text \<open>
  Sessions and execution processes, as far as the queue, the loop supervisor and the
  collaboration service read and write them: the parked prompt of a session
  (\<^verbatim>\<open>crates/db/src/models/session.rs\<close>) and the running and finished writers of a session
  (\<^verbatim>\<open>crates/db/src/models/execution_process.rs\<close>).
\<close>

section \<open>Execution processes\<close>

datatype run_reason = SetupScript | CleanupScript | ArchiveScript | CodingAgent | DevServer

datatype execution_process_status = EpRunning | EpCompleted | EpFailed | EpKilled

text \<open>The columns of \<^verbatim>\<open>execution_processes\<close> that are read here.\<close>

record execution_process =
  ep_id :: uuid
  ep_session_id :: uuid
  ep_run_reason :: run_reason
  ep_status :: execution_process_status
  ep_dropped :: bool
  ep_created_at :: datetime
  ep_completed_at :: "datetime option"

definition is_active_writer :: "execution_process \<Rightarrow> bool" where
  "is_active_writer p = (ep_run_reason p = CodingAgent \<and> ep_status p = EpRunning)"

definition writer_released_after :: "execution_process \<Rightarrow> datetime \<Rightarrow> bool" where
  "writer_released_after p after =
     (ep_run_reason p = CodingAgent
      \<and> (case ep_completed_at p of None \<Rightarrow> False | Some completed_at \<Rightarrow> completed_at \<ge> after))"

definition find_by_session_id :: "execution_process list \<Rightarrow> uuid \<Rightarrow> bool \<Rightarrow> execution_process list" where
  "find_by_session_id eps sid show_soft_deleted =
     order_by ep_created_at (filter (\<lambda>p. ep_session_id p = sid \<and> (show_soft_deleted \<or> \<not> ep_dropped p)) eps)"

definition has_running_coding_agent_for_session :: "execution_process list \<Rightarrow> uuid \<Rightarrow> bool" where
  "has_running_coding_agent_for_session eps sid =
     (\<exists>p\<in>set (filter (\<lambda>p. ep_session_id p = sid \<and> ep_status p = EpRunning) eps). is_active_writer p)"

definition has_abnormal_coding_agent_completion_after ::
  "execution_process list \<Rightarrow> uuid \<Rightarrow> datetime \<Rightarrow> bool" where
  "has_abnormal_coding_agent_completion_after eps sid after =
     (\<exists>p\<in>set (find_by_session_id eps sid True).
        writer_released_after p after \<and> ep_status p \<in> {EpFailed, EpKilled})"

section \<open>Sessions\<close>

record session_row =
  ss_id :: uuid
  ss_workspace_id :: uuid
  ss_executor :: "string option"
  ss_agent_working_dir :: "string option"
  ss_created_at :: datetime
  ss_pending_cli_prompt :: "string option"

type_synonym session_table = "session_row list"

definition find_session :: "session_table \<Rightarrow> uuid \<Rightarrow> session_row option" where
  "find_session ss i = select_one (\<lambda>s. ss_id s = i) ss"

text \<open>
  \<open>PathBuf::join\<close> on Unix: an absolute second path replaces the first.  \<open>effective_working_dir\<close>
  asks the file system, through \<open>path_exists\<close>, for the configured subdirectory.
\<close>

definition path_join :: "string \<Rightarrow> string \<Rightarrow> string" where
  "path_join base rel =
     (if starts_with rel ''/'' then rel
      else if base = [] \<or> last base = CHR ''/'' then base @ rel
      else base @ ''/'' @ rel)"

definition effective_working_dir :: "(string \<Rightarrow> bool) \<Rightarrow> session_row \<Rightarrow> string \<Rightarrow> string option" where
  "effective_working_dir path_exists s container_ref =
     (if container_ref = [] then None
      else case ss_agent_working_dir s of
        None \<Rightarrow> Some container_ref
      | Some rel \<Rightarrow>
          if rel \<noteq> [] \<and> path_exists (path_join container_ref rel) then Some (path_join container_ref rel)
          else Some container_ref)"

text \<open>
  The most recently used session of a workspace: by its latest execution that is neither a
  development server nor dropped, or else by its own creation.
\<close>

definition last_used :: "execution_process list \<Rightarrow> uuid \<Rightarrow> datetime option" where
  "last_used eps sid =
     (let times = map ep_created_at (filter (\<lambda>p. ep_session_id p = sid
            \<and> ep_run_reason p \<noteq> DevServer \<and> \<not> ep_dropped p) eps)
      in if times = [] then None else Some (Max (set times)))"

definition find_latest_by_workspace_id ::
  "session_table \<Rightarrow> execution_process list \<Rightarrow> uuid \<Rightarrow> session_row option" where
  "find_latest_by_workspace_id ss eps w =
     limit_one (order_by_desc (\<lambda>s. case last_used eps (ss_id s) of Some t \<Rightarrow> t | None \<Rightarrow> ss_created_at s)
       (filter (\<lambda>s. ss_workspace_id s = w) ss))"

definition set_pending_cli_prompt :: "session_table \<Rightarrow> uuid \<Rightarrow> string \<Rightarrow> session_table" where
  "set_pending_cli_prompt ss sid prompt =
     update_where (\<lambda>s. ss_id s = sid) (\<lambda>s. s\<lparr>ss_pending_cli_prompt := Some prompt\<rparr>) ss"

definition set_pending_cli_prompt_if_empty :: "session_table \<Rightarrow> uuid \<Rightarrow> string \<Rightarrow> bool \<times> session_table" where
  "set_pending_cli_prompt_if_empty ss sid prompt =
     (let p = (\<lambda>s. ss_id s = sid \<and> ss_pending_cli_prompt s = None)
      in (rows_affected p ss > 0, update_where p (\<lambda>s. s\<lparr>ss_pending_cli_prompt := Some prompt\<rparr>) ss))"

definition peek_pending_cli_prompt_for_workspace :: "session_table \<Rightarrow> uuid \<Rightarrow> (uuid \<times> string) option" where
  "peek_pending_cli_prompt_for_workspace ss w =
     map_option (\<lambda>s. (ss_id s, the (ss_pending_cli_prompt s)))
       (limit_one (order_by_desc ss_created_at
         (filter (\<lambda>s. ss_workspace_id s = w \<and> ss_pending_cli_prompt s \<noteq> None) ss)))"

definition peek_pending_cli_prompt :: "session_table \<Rightarrow> uuid \<Rightarrow> string option" where
  "peek_pending_cli_prompt ss sid =
     (case select_one (\<lambda>s. ss_id s = sid) ss of None \<Rightarrow> None | Some s \<Rightarrow> ss_pending_cli_prompt s)"

definition clear_pending_cli_prompt :: "session_table \<Rightarrow> uuid \<Rightarrow> string \<Rightarrow> bool \<times> session_table" where
  "clear_pending_cli_prompt ss sid delivered =
     (let p = (\<lambda>s. ss_id s = sid \<and> ss_pending_cli_prompt s = Some delivered)
      in (rows_affected p ss > 0, update_where p (\<lambda>s. s\<lparr>ss_pending_cli_prompt := None\<rparr>) ss))"

section \<open>Parked prompts\<close>

text \<open>A prompt once parked stays as it is.\<close>

definition prompts_kept :: "session_table \<Rightarrow> session_table \<Rightarrow> bool" where
  "prompts_kept ss ss' = (\<forall>s\<in>set ss. ss_pending_cli_prompt s \<noteq> None \<longrightarrow> s \<in> set ss')"

lemma prompts_kept_refl: "prompts_kept ss ss"
  by (simp add: prompts_kept_def)

lemma prompts_kept_trans: "prompts_kept a b \<Longrightarrow> prompts_kept b c \<Longrightarrow> prompts_kept a c"
  by (auto simp: prompts_kept_def)

lemma park_if_empty_keeps: "prompts_kept ss (snd (set_pending_cli_prompt_if_empty ss sid p))"
  by (auto simp: prompts_kept_def set_pending_cli_prompt_if_empty_def Let_def set_update_where)

lemma peek_None_iff:
  "peek_pending_cli_prompt_for_workspace ss w = None \<longleftrightarrow>
     (\<forall>s\<in>set ss. ss_workspace_id s = w \<longrightarrow> ss_pending_cli_prompt s = None)"
  by (auto simp: peek_pending_cli_prompt_for_workspace_def filter_empty_conv)

lemma peek_Some:
  "peek_pending_cli_prompt_for_workspace ss w = Some (i, p) \<Longrightarrow>
     \<exists>s\<in>set ss. ss_id s = i \<and> ss_workspace_id s = w \<and> ss_pending_cli_prompt s = Some p"
  by (auto simp: peek_pending_cli_prompt_for_workspace_def dest!: limit_one_Some)

lemma find_latest_Some:
  "find_latest_by_workspace_id ss eps w = Some s \<Longrightarrow> s \<in> set ss \<and> ss_workspace_id s = w"
  by (auto simp: find_latest_by_workspace_id_def dest!: limit_one_Some)

lemma find_latest_None:
  "find_latest_by_workspace_id ss eps w = None \<longleftrightarrow> (\<forall>s\<in>set ss. ss_workspace_id s \<noteq> w)"
  by (auto simp: find_latest_by_workspace_id_def filter_empty_conv)

end
