(* ===== verification/QueuedMessage.thy ===== *)
theory QueuedMessage
  imports Sessions
begin

text \<open>
  The durable single-slot collaboration queue: the table \<^verbatim>\<open>session_queued_messages\<close> with the
  statements of \<^verbatim>\<open>crates/db/src/models/session_queued_message.rs\<close>, and the service of
  \<^verbatim>\<open>crates/services/src/services/queued_message.rs\<close> over it.  Every operation takes the
  table and returns the new one; the SQL clock \<open>datetime('now','subsec')\<close> is the argument
  \<open>now\<close>, and a fresh UUID is an argument too.
\<close>

section \<open>Rows\<close>

definition PASTED_REQUEUE_FAILURE_REASON :: string where
  "PASTED_REQUEUE_FAILURE_REASON = ''CLI submission was not acknowledged; queued for retry''"

definition ABNORMAL_EXECUTOR_QUEUE_HOLD :: string where
  "ABNORMAL_EXECUTOR_QUEUE_HOLD =
     ''previous agent failed or was killed; confirm Send again to run this message''"

datatype queued_message_source = Ui | Recovery

datatype queued_message_state =
  Queued | Pasting | Pasted | Imported | Failed | Consumed | Cancelled

record session_queued_message =
  qm_id :: uuid
  qm_session_id :: uuid
  qm_prompt :: string
  qm_executor_config :: "string option"
  qm_source :: queued_message_source
  qm_state :: queued_message_state
  qm_failure_reason :: "string option"
  qm_claude_session_id :: "string option"
  qm_executor_claim_owner :: "string option"
  qm_paste_claim_owner :: "string option"
  qm_dispatch_context :: "string option"
  qm_pasted_at :: "datetime option"
  qm_acked_at :: "datetime option"
  qm_created_at :: datetime
  qm_updated_at :: datetime

type_synonym queue_table = "session_queued_message list"

datatype store_queued_message_result =
    Stored session_queued_message
  | Conflict session_queued_message

datatype cancel_queued_message_result =
    CancelEmpty
  | CancelCancelled session_queued_message
  | CancelConflict session_queued_message

record queue_reconciliation =
  qr_imported :: nat
  qr_requeued_pasting :: nat
  qr_requeued_pasted :: nat

section \<open>Queries\<close>

definition was_requeued_from_pasted :: "session_queued_message \<Rightarrow> bool" where
  "was_requeued_from_pasted r =
     (qm_state r = Queued \<and> qm_pasted_at r \<noteq> None
      \<and> qm_failure_reason r = Some PASTED_REQUEUE_FAILURE_REASON)"

definition find_by_id :: "queue_table \<Rightarrow> uuid \<Rightarrow> session_queued_message option" where
  "find_by_id rows i = select_one (\<lambda>r. qm_id r = i) rows"

definition active_state :: "queued_message_state \<Rightarrow> bool" where
  "active_state st = (st \<in> {Queued, Pasting, Pasted})"

definition find_active :: "queue_table \<Rightarrow> uuid \<Rightarrow> session_queued_message option" where
  "find_active rows sid =
     limit_one (order_by_desc qm_created_at
       (filter (\<lambda>r. qm_session_id r = sid \<and> active_state (qm_state r)) rows))"

definition list_active :: "queue_table \<Rightarrow> queue_table" where
  "list_active rows = order_by qm_created_at (filter (\<lambda>r. active_state (qm_state r)) rows)"

section \<open>Statements\<close>

text \<open>
  The \<open>INSERT\<close> fails where the primary key or the unique index over the active rows of a
  session would be violated.
\<close>

definition insert_row :: "queue_table \<Rightarrow> session_queued_message \<Rightarrow> db_error + queue_table" where
  "insert_row rows r =
     (if \<exists>q\<in>set rows. qm_id q = qm_id r then Inl DbError
      else if active_state (qm_state r)
           \<and> (\<exists>q\<in>set rows. qm_session_id q = qm_session_id r \<and> active_state (qm_state q))
        then Inl DbError
      else Inr (rows @ [r]))"

text \<open>The queued row of a session, which \<open>store\<close> may replace and \<open>cancel_queued\<close> cancels.\<close>

definition queued_slot :: "uuid \<Rightarrow> session_queued_message \<Rightarrow> bool" where
  "queued_slot sid r = (qm_session_id r = sid \<and> qm_state r = Queued)"

definition replace_set ::
  "datetime \<Rightarrow> string \<Rightarrow> string option \<Rightarrow> queued_message_source \<Rightarrow> string option
     \<Rightarrow> session_queued_message \<Rightarrow> session_queued_message" where
  "replace_set now prompt executor_config source dispatch_context r =
     r\<lparr>qm_prompt := prompt, qm_executor_config := executor_config, qm_source := source,
       qm_failure_reason := None, qm_claude_session_id := None,
       qm_executor_claim_owner := None, qm_paste_claim_owner := None,
       qm_dispatch_context := dispatch_context, qm_pasted_at := None, qm_acked_at := None,
       qm_updated_at := now\<rparr>"

definition new_row ::
  "uuid \<Rightarrow> datetime \<Rightarrow> uuid \<Rightarrow> string \<Rightarrow> string option \<Rightarrow> string option \<Rightarrow> queued_message_source
     \<Rightarrow> session_queued_message" where
  "new_row i now sid prompt executor_config dispatch_context source =
     \<lparr>qm_id = i, qm_session_id = sid, qm_prompt = prompt, qm_executor_config = executor_config,
      qm_source = source, qm_state = Queued, qm_failure_reason = None,
      qm_claude_session_id = None, qm_executor_claim_owner = None, qm_paste_claim_owner = None,
      qm_dispatch_context = dispatch_context, qm_pasted_at = None, qm_acked_at = None,
      qm_created_at = now, qm_updated_at = now\<rparr>"

definition store_with_context ::
  "queue_table \<Rightarrow> uuid \<Rightarrow> datetime \<Rightarrow> uuid \<Rightarrow> string \<Rightarrow> string option \<Rightarrow> string option
     \<Rightarrow> queued_message_source \<Rightarrow> bool \<Rightarrow> db_error + (store_queued_message_result \<times> queue_table)" where
  "store_with_context rows fresh now sid prompt executor_config dispatch_context source replace =
     (let f = replace_set now prompt executor_config source dispatch_context
      in case (if replace then select_one (queued_slot sid) rows else None) of
           Some r \<Rightarrow> Inr (Stored (f r), update_where (queued_slot sid) f rows)
         | None \<Rightarrow>
             (case find_active rows sid of
                Some existing \<Rightarrow> Inr (Conflict existing, rows)
              | None \<Rightarrow>
                  (let row = new_row fresh now sid prompt executor_config dispatch_context source
                   in case insert_row rows row of
                        Inl e \<Rightarrow> Inl e
                      | Inr rows' \<Rightarrow>
                          (case find_by_id rows' fresh of
                             Some stored \<Rightarrow> Inr (Stored stored, rows')
                           | None \<Rightarrow> Inl DbError))))"

definition store ::
  "queue_table \<Rightarrow> uuid \<Rightarrow> datetime \<Rightarrow> uuid \<Rightarrow> string \<Rightarrow> string option
     \<Rightarrow> queued_message_source \<Rightarrow> bool \<Rightarrow> db_error + (store_queued_message_result \<times> queue_table)" where
  "store rows fresh now sid prompt executor_config source replace =
     store_with_context rows fresh now sid prompt executor_config None source replace"

text \<open>
  Every other statement is an \<open>UPDATE\<close> with a guard (its \<open>WHERE\<close> clause) and an assignment
  (its \<open>SET\<close> clause), named separately.
\<close>

definition queued_row :: "uuid \<Rightarrow> session_queued_message \<Rightarrow> bool" where
  "queued_row i r = (qm_id r = i \<and> qm_state r = Queued)"

definition claim_set ::
  "datetime \<Rightarrow> string option \<Rightarrow> string option \<Rightarrow> string option
     \<Rightarrow> session_queued_message \<Rightarrow> session_queued_message" where
  "claim_set now claude_session_id executor_claim_owner paste_claim_owner r =
     r\<lparr>qm_state := Pasting, qm_claude_session_id := claude_session_id,
       qm_executor_claim_owner := executor_claim_owner,
       qm_paste_claim_owner := paste_claim_owner, qm_pasted_at := None,
       qm_failure_reason := None, qm_updated_at := now\<rparr>"

definition claim ::
  "queue_table \<Rightarrow> datetime \<Rightarrow> uuid \<Rightarrow> string option \<Rightarrow> string option \<Rightarrow> string option
     \<Rightarrow> session_queued_message option \<times> queue_table" where
  "claim rows now i claude_session_id executor_claim_owner paste_claim_owner =
     (let rows' = update_where (queued_row i)
                    (claim_set now claude_session_id executor_claim_owner paste_claim_owner) rows
      in if rows_affected (queued_row i) rows = 0 then (None, rows')
         else (find_by_id rows' i, rows'))"

definition claim_for_paste ::
  "queue_table \<Rightarrow> datetime \<Rightarrow> uuid \<Rightarrow> string option \<Rightarrow> string
     \<Rightarrow> session_queued_message option \<times> queue_table" where
  "claim_for_paste rows now i claude_session_id owner =
     claim rows now i claude_session_id None (Some owner)"

definition claim_for_executor ::
  "queue_table \<Rightarrow> datetime \<Rightarrow> uuid \<Rightarrow> string \<Rightarrow> session_queued_message option \<times> queue_table" where
  "claim_for_executor rows now i owner = claim rows now i None (Some owner) None"

definition paste_claimed :: "uuid \<Rightarrow> string \<Rightarrow> session_queued_message \<Rightarrow> bool" where
  "paste_claimed i owner r =
     (qm_id r = i \<and> qm_state r = Pasting \<and> qm_executor_claim_owner r = None
      \<and> qm_paste_claim_owner r = Some owner)"

definition pasted_set :: "datetime \<Rightarrow> session_queued_message \<Rightarrow> session_queued_message" where
  "pasted_set now r =
     r\<lparr>qm_state := Pasted, qm_paste_claim_owner := None, qm_pasted_at := Some now,
       qm_updated_at := now\<rparr>"

definition mark_pasted :: "queue_table \<Rightarrow> datetime \<Rightarrow> uuid \<Rightarrow> string \<Rightarrow> bool \<times> queue_table" where
  "mark_pasted rows now i owner =
     (0 < rows_affected (paste_claimed i owner) rows,
      update_where (paste_claimed i owner) (pasted_set now) rows)"

definition in_delivery :: "uuid \<Rightarrow> session_queued_message \<Rightarrow> bool" where
  "in_delivery i r = (qm_id r = i \<and> qm_state r \<in> {Pasting, Pasted})"

definition requeue_set ::
  "datetime \<Rightarrow> string option \<Rightarrow> session_queued_message \<Rightarrow> session_queued_message" where
  "requeue_set now failure_reason r =
     r\<lparr>qm_state := Queued, qm_failure_reason := failure_reason,
       qm_executor_claim_owner := None, qm_paste_claim_owner := None,
       qm_claude_session_id := (if qm_state r = Pasted then qm_claude_session_id r else None),
       qm_pasted_at := (if qm_state r = Pasted then qm_pasted_at r else None),
       qm_acked_at := None, qm_updated_at := now\<rparr>"

definition requeue :: "queue_table \<Rightarrow> datetime \<Rightarrow> uuid \<Rightarrow> string option \<Rightarrow> bool \<times> queue_table" where
  "requeue rows now i failure_reason =
     (0 < rows_affected (in_delivery i) rows,
      update_where (in_delivery i) (requeue_set now failure_reason) rows)"

definition requeue_pasted :: "queue_table \<Rightarrow> datetime \<Rightarrow> uuid \<Rightarrow> bool \<times> queue_table" where
  "requeue_pasted rows now i = requeue rows now i (Some PASTED_REQUEUE_FAILURE_REASON)"

definition failure_set ::
  "datetime \<Rightarrow> string \<Rightarrow> session_queued_message \<Rightarrow> session_queued_message" where
  "failure_set now reason r = r\<lparr>qm_failure_reason := Some reason, qm_updated_at := now\<rparr>"

definition set_failure_reason :: "queue_table \<Rightarrow> datetime \<Rightarrow> uuid \<Rightarrow> string \<Rightarrow> bool \<times> queue_table" where
  "set_failure_reason rows now i reason =
     (0 < rows_affected (queued_row i) rows,
      update_where (queued_row i) (failure_set now reason) rows)"

definition executor_claimed :: "uuid \<Rightarrow> string \<Rightarrow> session_queued_message \<Rightarrow> bool" where
  "executor_claimed i owner r =
     (qm_id r = i \<and> qm_state r = Pasting \<and> qm_executor_claim_owner r = Some owner)"

definition consumed_set :: "datetime \<Rightarrow> session_queued_message \<Rightarrow> session_queued_message" where
  "consumed_set now r = r\<lparr>qm_state := Consumed, qm_updated_at := now\<rparr>"

definition mark_consumed :: "queue_table \<Rightarrow> datetime \<Rightarrow> uuid \<Rightarrow> string \<Rightarrow> bool \<times> queue_table" where
  "mark_consumed rows now i owner =
     (0 < rows_affected (executor_claimed i owner) rows,
      update_where (executor_claimed i owner) (consumed_set now) rows)"

definition cancelled_set :: "datetime \<Rightarrow> session_queued_message \<Rightarrow> session_queued_message" where
  "cancelled_set now r = r\<lparr>qm_state := Cancelled, qm_updated_at := now\<rparr>"

definition cancel_queued ::
  "queue_table \<Rightarrow> datetime \<Rightarrow> uuid \<Rightarrow> cancel_queued_message_result \<times> queue_table" where
  "cancel_queued rows now sid =
     (let rows' = update_where (queued_slot sid) (cancelled_set now) rows
      in case select_one (queued_slot sid) rows of
           Some r \<Rightarrow> (CancelCancelled (cancelled_set now r), rows')
         | None \<Rightarrow>
             (case find_active rows' sid of
                Some active \<Rightarrow> (CancelConflict active, rows')
              | None \<Rightarrow> (CancelEmpty, rows')))"

section \<open>Reconciliation\<close>

text \<open>
  \<open>bound i\<close>: some native transcript record acknowledges the queued message \<open>i\<close>.
  \<open>procs\<close>: the execution processes.
\<close>

definition ack_evidence :: "(uuid \<Rightarrow> bool) \<Rightarrow> session_queued_message \<Rightarrow> bool" where
  "ack_evidence bound r =
     ((qm_state r \<in> {Pasting, Pasted}
       \<or> (qm_state r = Queued \<and> qm_failure_reason r = Some PASTED_REQUEUE_FAILURE_REASON
          \<and> qm_pasted_at r \<noteq> None))
      \<and> bound (qm_id r))"

definition import_set :: "datetime \<Rightarrow> session_queued_message \<Rightarrow> session_queued_message" where
  "import_set db_now r =
     r\<lparr>qm_state := Imported,
       qm_acked_at := (case qm_acked_at r of None \<Rightarrow> Some db_now | Some t \<Rightarrow> Some t),
       qm_updated_at := db_now\<rparr>"

text \<open>An owner that is not the active one: \<open>$2 IS NULL OR owner != $2\<close> for a non-null owner.\<close>

definition foreign_owner :: "string option \<Rightarrow> string option \<Rightarrow> bool" where
  "foreign_owner active own =
     (case own of None \<Rightarrow> False | Some w \<Rightarrow> (case active of None \<Rightarrow> True | Some a \<Rightarrow> w \<noteq> a))"

definition abandoned_claim ::
  "datetime \<Rightarrow> string option \<Rightarrow> string option \<Rightarrow> session_queued_message \<Rightarrow> bool" where
  "abandoned_claim pasting_cutoff active_exec active_paste r =
     (qm_state r = Pasting
      \<and> ((qm_executor_claim_owner r = None \<and> qm_paste_claim_owner r = None
           \<and> qm_updated_at r \<le> pasting_cutoff)
         \<or> foreign_owner active_exec (qm_executor_claim_owner r)
         \<or> foreign_owner active_paste (qm_paste_claim_owner r)))"

definition abnormal_completion ::
  "execution_process list \<Rightarrow> datetime \<Rightarrow> session_queued_message \<Rightarrow> bool" where
  "abnormal_completion procs now r =
     (\<exists>p\<in>set procs. ep_session_id p = qm_session_id r \<and> ep_run_reason p = CodingAgent
        \<and> ep_status p \<in> {EpFailed, EpKilled}
        \<and> (case ep_completed_at p of None \<Rightarrow> False
            | Some t \<Rightarrow> min (qm_updated_at r) now \<le> t))"

definition requeue_pasting_set ::
  "execution_process list \<Rightarrow> datetime \<Rightarrow> datetime \<Rightarrow> string option \<Rightarrow> session_queued_message
     \<Rightarrow> session_queued_message" where
  "requeue_pasting_set procs db_now now active_exec r =
     r\<lparr>qm_state := Queued,
       qm_failure_reason := Some
         (if foreign_owner active_exec (qm_executor_claim_owner r) \<and> abnormal_completion procs now r
          then ABNORMAL_EXECUTOR_QUEUE_HOLD
          else if qm_pasted_at r \<noteq> None then PASTED_REQUEUE_FAILURE_REASON
          else ''delivery interrupted; queued for retry''),
       qm_claude_session_id := (if qm_pasted_at r \<noteq> None then qm_claude_session_id r else None),
       qm_executor_claim_owner := None, qm_paste_claim_owner := None,
       qm_updated_at := db_now\<rparr>"

definition unacked_paste :: "datetime \<Rightarrow> session_queued_message \<Rightarrow> bool" where
  "unacked_paste pasted_cutoff r =
     (qm_state r = Pasted
      \<and> (case qm_pasted_at r of None \<Rightarrow> False | Some t \<Rightarrow> t \<le> pasted_cutoff))"

definition requeue_pasted_set :: "datetime \<Rightarrow> session_queued_message \<Rightarrow> session_queued_message" where
  "requeue_pasted_set db_now r =
     r\<lparr>qm_state := Queued, qm_failure_reason := Some PASTED_REQUEUE_FAILURE_REASON,
       qm_updated_at := db_now\<rparr>"

definition reconcile ::
  "queue_table \<Rightarrow> (uuid \<Rightarrow> bool) \<Rightarrow> execution_process list \<Rightarrow> datetime \<Rightarrow> datetime \<Rightarrow> duration
     \<Rightarrow> duration \<Rightarrow> string option \<Rightarrow> string option \<Rightarrow> queue_reconciliation \<times> queue_table" where
  "reconcile rows bound procs db_now now pasting_grace paste_ack_timeout active_exec active_paste =
     (let p1 = ack_evidence bound;
          rows1 = update_where p1 (import_set db_now) rows;
          p2 = abandoned_claim (now - pasting_grace) active_exec active_paste;
          rows2 = update_where p2 (requeue_pasting_set procs db_now now active_exec) rows1;
          p3 = unacked_paste (now - paste_ack_timeout);
          rows3 = update_where p3 (requeue_pasted_set db_now) rows2
      in (\<lparr>qr_imported = rows_affected p1 rows, qr_requeued_pasting = rows_affected p2 rows1,
           qr_requeued_pasted = rows_affected p3 rows2\<rparr>, rows3))"

section \<open>The service\<close>

text \<open>
  \<open>parse_config\<close> is \<open>serde_json::from_str\<close> at the type \<open>ExecutorConfig\<close> (\<open>None\<close>: a parse
  error); the model is polymorphic in the configuration.
\<close>

datatype queued_message_error =
    QmDatabase db_error
  | MissingExecutorConfig uuid
  | InvalidExecutorConfig uuid
  | ExecutorClaimLost uuid

record 'c queued_message =
  m_id :: uuid
  m_session_id :: uuid
  m_message :: string
  m_executor_config :: 'c
  m_source :: queued_message_source
  m_state :: queued_message_state
  m_failure_reason :: "string option"
  m_claude_session_id :: "string option"
  m_pasted_at :: "datetime option"
  m_acked_at :: "datetime option"
  m_queued_at :: datetime
  m_updated_at :: datetime

definition try_from ::
  "(string \<Rightarrow> 'c option) \<Rightarrow> session_queued_message \<Rightarrow> queued_message_error + 'c queued_message" where
  "try_from parse_config row =
     (case qm_executor_config row of
        None \<Rightarrow> Inl (MissingExecutorConfig (qm_id row))
      | Some raw_config \<Rightarrow>
          (case parse_config raw_config of
             None \<Rightarrow> Inl (InvalidExecutorConfig (qm_id row))
           | Some config \<Rightarrow>
               Inr \<lparr>m_id = qm_id row, m_session_id = qm_session_id row, m_message = qm_prompt row,
                    m_executor_config = config, m_source = qm_source row,
                    m_state = qm_state row, m_failure_reason = qm_failure_reason row,
                    m_claude_session_id = qm_claude_session_id row,
                    m_pasted_at = qm_pasted_at row, m_acked_at = qm_acked_at row,
                    m_queued_at = qm_created_at row, m_updated_at = qm_updated_at row\<rparr>))"

datatype 'c queue_status =
    StatusEmpty
  | StatusQueued "'c queued_message"
  | StatusPasting "'c queued_message"
  | StatusPasted "'c queued_message"

definition from_message :: "'c queued_message \<Rightarrow> 'c queue_status" where
  "from_message message =
     (case m_state message of
        Queued \<Rightarrow> StatusQueued message
      | Pasting \<Rightarrow> StatusPasting message
      | Pasted \<Rightarrow> StatusPasted message
      | Imported \<Rightarrow> StatusEmpty
      | Failed \<Rightarrow> StatusEmpty
      | Consumed \<Rightarrow> StatusEmpty
      | Cancelled \<Rightarrow> StatusEmpty)"

definition get_queued ::
  "(string \<Rightarrow> 'c option) \<Rightarrow> queue_table \<Rightarrow> uuid \<Rightarrow> queued_message_error + 'c queued_message option" where
  "get_queued parse_config rows sid =
     (case find_active rows sid of
        None \<Rightarrow> Inr None
      | Some row \<Rightarrow> (case try_from parse_config row of Inl e \<Rightarrow> Inl e | Inr m \<Rightarrow> Inr (Some m)))"

definition take_queued ::
  "(string \<Rightarrow> 'c option) \<Rightarrow> queue_table \<Rightarrow> datetime \<Rightarrow> uuid
     \<Rightarrow> (queued_message_error + 'c queued_message option) \<times> queue_table" where
  "take_queued parse_config rows now sid =
     (case find_active rows sid of
        None \<Rightarrow> (Inr None, rows)
      | Some row \<Rightarrow>
          if qm_state row \<noteq> Queued then (Inr None, rows)
          else
            (case claim_for_executor rows now (qm_id row) ''queued-message-service'' of
               (None, rows1) \<Rightarrow> (Inr None, rows1)
             | (Some _, rows1) \<Rightarrow>
                 (case mark_consumed rows1 now (qm_id row) ''queued-message-service'' of
                    (False, rows2) \<Rightarrow> (Inl (ExecutorClaimLost (qm_id row)), rows2)
                  | (True, rows2) \<Rightarrow>
                      (case try_from parse_config row of
                         Inl e \<Rightarrow> (Inl e, rows2)
                       | Inr m \<Rightarrow> (Inr (Some m), rows2)))))"

definition has_queued :: "queue_table \<Rightarrow> uuid \<Rightarrow> bool" where
  "has_queued rows sid = (find_active rows sid \<noteq> None)"

definition get_status ::
  "(string \<Rightarrow> 'c option) \<Rightarrow> queue_table \<Rightarrow> uuid \<Rightarrow> queued_message_error + 'c queue_status" where
  "get_status parse_config rows sid =
     (case get_queued parse_config rows sid of
        Inl e \<Rightarrow> Inl e
      | Inr None \<Rightarrow> Inr StatusEmpty
      | Inr (Some message) \<Rightarrow> Inr (from_message message))"

section \<open>The queue as a state machine\<close>

inductive queue_step :: "queue_table \<Rightarrow> queue_table \<Rightarrow> bool" where
  step_store: "store_with_context rows fresh now sid prompt cfg ctx src replace = Inr (res, rows')
     \<Longrightarrow> queue_step rows rows'"
| step_claim_paste: "queue_step rows (snd (claim_for_paste rows now i sid owner))"
| step_claim_executor: "queue_step rows (snd (claim_for_executor rows now i owner))"
| step_mark_pasted: "queue_step rows (snd (mark_pasted rows now i owner))"
| step_requeue: "queue_step rows (snd (requeue rows now i reason))"
| step_failure: "queue_step rows (snd (set_failure_reason rows now i why))"
| step_consumed: "queue_step rows (snd (mark_consumed rows now i owner))"
| step_cancel: "queue_step rows (snd (cancel_queued rows now sid))"
| step_reconcile: "queue_step rows
     (snd (reconcile rows bound procs db_now now grace timeout active_exec active_paste))"

text \<open>
  What holds of a row by its state: claims are exclusive and exist only while a delivery is
  in progress, a pasted row knows when it was pasted, an imported one when it was acknowledged.
\<close>

fun row_ok :: "session_queued_message \<Rightarrow> bool" where
  "row_ok r = (case qm_state r of
       Queued \<Rightarrow> qm_executor_claim_owner r = None \<and> qm_paste_claim_owner r = None
     | Pasting \<Rightarrow> (qm_executor_claim_owner r = None) \<noteq> (qm_paste_claim_owner r = None)
                  \<and> qm_pasted_at r = None
     | Pasted \<Rightarrow> qm_executor_claim_owner r = None \<and> qm_paste_claim_owner r = None
                 \<and> qm_pasted_at r \<noteq> None
     | Imported \<Rightarrow> qm_acked_at r \<noteq> None
     | Consumed \<Rightarrow> qm_executor_claim_owner r \<noteq> None \<and> qm_paste_claim_owner r = None
     | Failed \<Rightarrow> False
     | Cancelled \<Rightarrow> qm_executor_claim_owner r = None \<and> qm_paste_claim_owner r = None)"

declare row_ok.simps [simp del]

definition active_rows :: "queue_table \<Rightarrow> queue_table" where
  "active_rows rows = filter (\<lambda>r. active_state (qm_state r)) rows"

definition queue_inv :: "queue_table \<Rightarrow> bool" where
  "queue_inv rows =
     (distinct (map qm_id rows) \<and> distinct (map qm_session_id (active_rows rows))
      \<and> (\<forall>r\<in>set rows. row_ok r))"

text \<open>
  Every row survives with its identity and its session, and a row in a terminal state does
  not change at all.
\<close>

definition queue_le :: "queue_table \<Rightarrow> queue_table \<Rightarrow> bool" where
  "queue_le rows rows' =
     (\<forall>r\<in>set rows. \<exists>r'\<in>set rows'. qm_id r' = qm_id r \<and> qm_session_id r' = qm_session_id r
        \<and> (\<not> active_state (qm_state r) \<longrightarrow> r' = r))"

section \<open>The contract of a statement\<close>

text \<open>
  All the statements of the queue share a contract: they touch active rows only, keep a
  row's identity and session, and leave the row well formed.  The invariant and the
  preservation of the other rows follow for every one of them.
\<close>

locale queue_statement =
  fixes p :: "session_queued_message \<Rightarrow> bool"
    and f :: "session_queued_message \<Rightarrow> session_queued_message"
  assumes only_active: "p r \<Longrightarrow> active_state (qm_state r)"
    and keeps_id: "qm_id (f r) = qm_id r"
    and keeps_session: "qm_session_id (f r) = qm_session_id r"
    and keeps_ok: "p r \<Longrightarrow> row_ok r \<Longrightarrow> row_ok (f r)"
begin

lemma active_sessions_subset:
  "set (map qm_session_id (active_rows (update_where p f rows)))
     \<subseteq> set (map qm_session_id (active_rows rows))"
  using only_active keeps_session by (fastforce simp: active_rows_def update_where_def)

lemma distinct_active_sessions:
  "distinct (map qm_session_id (active_rows rows))
     \<Longrightarrow> distinct (map qm_session_id (active_rows (update_where p f rows)))"
proof (induction rows)
  case Nil
  then show ?case by (simp add: active_rows_def update_where_def)
next
  case (Cons r rows)
  have "set (map qm_session_id (active_rows (update_where p f rows)))
      \<subseteq> set (map qm_session_id (active_rows rows))"
    by (rule active_sessions_subset)
  with Cons show ?case
    by (auto simp: active_rows_def update_where_def keeps_session only_active split: if_splits)
qed

lemma keeps_inv: "queue_inv rows \<Longrightarrow> queue_inv (update_where p f rows)"
  using distinct_active_sessions [of rows]
  by (auto simp: queue_inv_def map_key_update_where keeps_id keeps_ok elim!: in_update_whereE)

lemma keeps_rows: "queue_le rows (update_where p f rows)"
  unfolding queue_le_def
proof
  fix r assume r: "r \<in> set rows"
  let ?r = "if p r then f r else r"
  have "?r \<in> set (update_where p f rows)" using r by (auto simp: set_update_where)
  moreover have "qm_id ?r = qm_id r \<and> qm_session_id ?r = qm_session_id r
      \<and> (\<not> active_state (qm_state r) \<longrightarrow> ?r = r)"
    using only_active [of r] by (auto simp: keeps_id keeps_session)
  ultimately show "\<exists>r'\<in>set (update_where p f rows). qm_id r' = qm_id r
      \<and> qm_session_id r' = qm_session_id r \<and> (\<not> active_state (qm_state r) \<longrightarrow> r' = r)"
    by blast
qed

end

lemmas guard_defs = queued_slot_def queued_row_def paste_claimed_def in_delivery_def
  executor_claimed_def ack_evidence_def abandoned_claim_def unacked_paste_def active_state_def

lemmas set_defs = replace_set_def claim_set_def pasted_set_def requeue_set_def failure_set_def
  consumed_set_def cancelled_set_def import_set_def requeue_pasting_set_def requeue_pasted_set_def

interpretation replace_stmt: queue_statement "queued_slot sid" "replace_set now prompt cfg src ctx"
  for sid now prompt cfg src ctx
  by unfold_locales (auto simp: guard_defs set_defs row_ok.simps)

interpretation claim_paste_stmt: queue_statement "queued_row i" "claim_set now sid None (Some owner)"
  for i now sid owner
  by unfold_locales (auto simp: guard_defs set_defs row_ok.simps)

interpretation claim_executor_stmt: queue_statement "queued_row i" "claim_set now sid (Some owner) None"
  for i now sid owner
  by unfold_locales (auto simp: guard_defs set_defs row_ok.simps)

interpretation pasted_stmt: queue_statement "paste_claimed i owner" "pasted_set now" for i owner now
  by unfold_locales (auto simp: guard_defs set_defs row_ok.simps)

interpretation requeue_stmt: queue_statement "in_delivery i" "requeue_set now reason" for i now reason
  by unfold_locales (auto simp: guard_defs set_defs row_ok.simps)

interpretation failure_stmt: queue_statement "queued_row i" "failure_set now why" for i now why
  by unfold_locales (auto simp: guard_defs set_defs row_ok.simps)

interpretation consumed_stmt: queue_statement "executor_claimed i owner" "consumed_set now"
  for i owner now
  by unfold_locales (auto simp: guard_defs set_defs row_ok.simps)

interpretation cancel_stmt: queue_statement "queued_slot sid" "cancelled_set now" for sid now
  by unfold_locales (auto simp: guard_defs set_defs row_ok.simps)

interpretation import_stmt: queue_statement "ack_evidence bound" "import_set now" for bound now
  by unfold_locales (auto simp: guard_defs set_defs row_ok.simps split: option.splits)

interpretation recover_stmt: queue_statement "abandoned_claim cutoff active_exec active_paste"
    "requeue_pasting_set procs db_now now active_exec"
  for cutoff active_exec active_paste procs db_now now
  by unfold_locales (auto simp: guard_defs set_defs row_ok.simps)

interpretation timeout_stmt: queue_statement "unacked_paste cutoff" "requeue_pasted_set now"
  for cutoff now
  by unfold_locales (auto simp: guard_defs set_defs row_ok.simps)

lemmas statement_inv = replace_stmt.keeps_inv claim_paste_stmt.keeps_inv claim_executor_stmt.keeps_inv
  pasted_stmt.keeps_inv requeue_stmt.keeps_inv failure_stmt.keeps_inv consumed_stmt.keeps_inv
  cancel_stmt.keeps_inv import_stmt.keeps_inv recover_stmt.keeps_inv timeout_stmt.keeps_inv

lemmas statement_rows = replace_stmt.keeps_rows claim_paste_stmt.keeps_rows
  claim_executor_stmt.keeps_rows pasted_stmt.keeps_rows requeue_stmt.keeps_rows
  failure_stmt.keeps_rows consumed_stmt.keeps_rows cancel_stmt.keeps_rows
  import_stmt.keeps_rows recover_stmt.keeps_rows timeout_stmt.keeps_rows

lemmas queue_op_defs = claim_for_paste_def claim_for_executor_def claim_def mark_pasted_def
  requeue_def set_failure_reason_def mark_consumed_def cancel_queued_def reconcile_def Let_def

section \<open>Insertion and the slot\<close>

lemma insert_row_inv:
  "queue_inv rows \<Longrightarrow> row_ok r \<Longrightarrow> insert_row rows r = Inr rows' \<Longrightarrow> queue_inv rows'"
  by (fastforce simp: insert_row_def queue_inv_def active_rows_def split: if_splits)

lemma insert_row_le: "insert_row rows r = Inr rows' \<Longrightarrow> queue_le rows rows'"
  by (auto simp: insert_row_def queue_le_def split: if_splits)

lemma row_ok_new_row: "row_ok (new_row i now sid prompt cfg ctx src)"
  by (simp add: new_row_def row_ok.simps)

lemma queue_le_refl: "queue_le rows rows"
  by (auto simp: queue_le_def)

lemma queue_le_trans: "queue_le rows rows' \<Longrightarrow> queue_le rows' rows'' \<Longrightarrow> queue_le rows rows''"
  unfolding queue_le_def by metis

lemma store_inv_le:
  assumes "store_with_context rows fresh now sid prompt cfg ctx src replace = Inr (res, rows')"
    and "queue_inv rows"
  shows "queue_inv rows' \<and> queue_le rows rows'"
  using assms
  by (auto simp: store_with_context_def Let_def split: option.splits sum.splits if_splits
      intro: statement_inv statement_rows insert_row_inv insert_row_le row_ok_new_row queue_le_refl)

lemma reconcile_inv_le:
  assumes "queue_inv rows"
  shows "queue_inv (snd (reconcile rows bound procs db_now now grace timeout ae ap))
    \<and> queue_le rows (snd (reconcile rows bound procs db_now now grace timeout ae ap))"
proof
  show "queue_inv (snd (reconcile rows bound procs db_now now grace timeout ae ap))"
    using assms by (simp add: reconcile_def Let_def statement_inv)
  show "queue_le rows (snd (reconcile rows bound procs db_now now grace timeout ae ap))"
    unfolding reconcile_def Let_def snd_conv
    by (rule queue_le_trans, rule import_stmt.keeps_rows, rule queue_le_trans,
        rule recover_stmt.keeps_rows, rule timeout_stmt.keeps_rows)
qed

lemma queue_step_inv_le: "queue_step rows rows' \<Longrightarrow> queue_inv rows \<Longrightarrow> queue_inv rows' \<and> queue_le rows rows'"
proof (induction rule: queue_step.induct)
  case (step_store rows fresh now sid prompt cfg ctx src replace res rows')
  then show ?case by (rule store_inv_le)
next
  case (step_reconcile rows bound procs db_now now grace timeout ae ap)
  then show ?case by (rule reconcile_inv_le)
qed (auto simp: queue_op_defs split: option.splits intro: statement_inv statement_rows)

interpretation queue_machine: monotone_system queue_step queue_inv queue_le
  by unfold_locales (auto dest: queue_step_inv_le intro: queue_le_refl queue_le_trans)

lemma queue_inv_empty: "queue_inv []"
  by (simp add: queue_inv_def active_rows_def)

lemma reachable_queue_inv: "queue_step\<^sup>*\<^sup>* [] rows \<Longrightarrow> queue_inv rows"
  using queue_machine.reach_inv queue_inv_empty by blast

lemma active_unique:
  assumes "queue_inv rows" and "r \<in> set rows" and "q \<in> set rows"
    and "active_state (qm_state r)" and "active_state (qm_state q)"
    and "qm_session_id r = qm_session_id q"
  shows "r = q"
proof -
  from assms(1) have "distinct (map qm_session_id (active_rows rows))"
    by (simp add: queue_inv_def)
  with assms show ?thesis
    by (auto intro: distinct_key_eq [of qm_session_id "active_rows rows"] simp: active_rows_def)
qed

lemma find_active_Some:
  "find_active rows sid = Some r \<Longrightarrow> r \<in> set rows \<and> qm_session_id r = sid \<and> active_state (qm_state r)"
  unfolding find_active_def by (drule limit_one_Some) simp

lemma find_active_None:
  "find_active rows sid = None \<longleftrightarrow> (\<forall>r\<in>set rows. qm_session_id r = sid \<longrightarrow> \<not> active_state (qm_state r))"
  by (auto simp: find_active_def filter_empty_conv)

lemma find_active_eq:
  assumes "queue_inv rows" and "r \<in> set rows" and "active_state (qm_state r)"
  shows "find_active rows (qm_session_id r) = Some r"
proof (cases "find_active rows (qm_session_id r)")
  case None
  with assms show ?thesis by (auto simp: find_active_None)
next
  case (Some q)
  then have "q \<in> set rows" "qm_session_id q = qm_session_id r" "active_state (qm_state q)"
    by (auto dest: find_active_Some)
  with assms Some active_unique [of rows q r] show ?thesis by simp
qed

lemma find_by_id_eq:
  assumes "queue_inv rows" and "r \<in> set rows"
  shows "find_by_id rows (qm_id r) = Some r"
  using assms select_one_key [of qm_id rows r] by (simp add: find_by_id_def queue_inv_def)

section \<open>Properties\<close>

text \<open>
  C10. Single slot: in every state the queue can reach from the empty table, through any
  sequence of stores, claims, acknowledgements, requeues, cancellations and
  reconciliations, a session has at most one active message, and \<open>find_active\<close> finds it.
\<close>

theorem queue_single_slot:
  assumes "queue_step\<^sup>*\<^sup>* [] rows" and "r \<in> set rows" and "active_state (qm_state r)"
  shows "find_active rows (qm_session_id r) = Some r
    \<and> filter (\<lambda>q. qm_session_id q = qm_session_id r \<and> active_state (qm_state q)) rows = [r]"
proof -
  from assms(1) have inv: "queue_inv rows" by (rule reachable_queue_inv)
  let ?P = "\<lambda>q. qm_session_id q = qm_session_id r \<and> active_state (qm_state q)"
  have "distinct (filter ?P rows)" using inv by (auto simp: queue_inv_def distinct_map)
  moreover have "set (filter ?P rows) = {r}"
    using assms(2,3) active_unique [OF inv _ assms(2) _ assms(3)] by auto
  ultimately have "filter ?P rows = [r]" by (rule distinct_set_singleton)
  with find_active_eq [OF inv assms(2,3)] show ?thesis by simp
qed

definition queue_example :: queue_table where
  "queue_example = [new_row 1 100 7 ''fix the build'' (Some ''cfg'') None Ui]"

lemma queue_example_store:
  "store_with_context [] 1 100 7 ''fix the build'' (Some ''cfg'') None Ui False
     = Inr (Stored (new_row 1 100 7 ''fix the build'' (Some ''cfg'') None Ui), queue_example)"
  by (simp add: store_with_context_def find_active_def insert_row_def find_by_id_def select_one_def
      queue_example_def new_row_def order_by_desc_def Let_def)

lemma queue_example_reachable: "queue_step\<^sup>*\<^sup>* [] queue_example"
  using step_store [OF queue_example_store] by blast

theorem queue_single_slot_witness:
  "find_active queue_example 7 = Some (hd queue_example)
   \<and> filter (\<lambda>q. qm_session_id q = 7 \<and> active_state (qm_state q)) queue_example
       = [hd queue_example]"
  using queue_single_slot [OF queue_example_reachable, of "hd queue_example"]
  by (simp add: queue_example_def new_row_def active_state_def)



lemma no_queued_row_after_claim:
  "\<forall>q\<in>set (update_where (queued_row i) (claim_set now sid eo po) rows). \<not> queued_row i q"
  by (auto simp: queued_row_def claim_set_def elim: in_update_whereE)

lemma claim_none: "\<forall>q\<in>set rows. \<not> queued_row i q \<Longrightarrow> claim rows now i sid eo po = (None, rows)"
  by (simp add: claim_def Let_def rows_affected_0 update_where_none)

lemma claim_some:
  assumes "queue_inv rows" and "claim rows now i sid eo po = (Some r, rows')"
  shows "qm_id r = i \<and> qm_state r = Pasting \<and> qm_executor_claim_owner r = eo
    \<and> qm_paste_claim_owner r = po \<and> qm_claude_session_id r = sid
    \<and> (\<forall>q\<in>set rows'. \<not> queued_row i q) \<and> r \<in> set rows'"
proof -
  from assms(2) have rows': "rows' = update_where (queued_row i) (claim_set now sid eo po) rows"
    and found: "find_by_id rows' i = Some r" and hit: "rows_affected (queued_row i) rows \<noteq> 0"
    by (auto simp: claim_def Let_def split: if_splits)
  from hit obtain q where q: "q \<in> set rows" "queued_row i q" by (auto simp: rows_affected_0)
  have "distinct (map qm_id rows')"
    using assms(1) unfolding rows'
    by (subst map_key_update_where) (auto simp: queue_inv_def claim_set_def)
  moreover have "claim_set now sid eo po q \<in> set rows'"
    using q by (auto simp: rows' set_update_where)
  moreover have "r \<in> set rows'" "qm_id r = i"
    using found by (auto simp: find_by_id_def dest: select_one_Some)
  ultimately have "r = claim_set now sid eo po q"
    using q distinct_key_eq [of qm_id rows' r "claim_set now sid eo po q"]
    by (auto simp: queued_row_def claim_set_def)
  with q \<open>r \<in> set rows'\<close> no_queued_row_after_claim [of i now sid eo po rows] show ?thesis
    by (simp add: rows' queued_row_def claim_set_def)
qed

lemma claim_excludes:
  assumes "queue_inv rows" and "claim rows now i sid eo po = (Some r, rows')"
    and "(eo = None) \<noteq> (po = None)"
  shows "qm_state r = Pasting \<and> qm_executor_claim_owner r = eo \<and> qm_paste_claim_owner r = po
    \<and> claim rows' now' i sid' eo' po' = (None, rows')
    \<and> (eo = None \<longrightarrow> \<not> fst (mark_consumed rows' now' i other))
    \<and> (po = None \<longrightarrow> \<not> fst (mark_pasted rows' now' i other))"
proof -
  note r = claim_some [OF assms(1,2)]
  have "queue_inv rows'"
    using assms statement_inv by (auto simp: claim_def Let_def split: if_splits)
  then have uniq: "q = r" if "q \<in> set rows'" "qm_id q = i" for q
    using r that by (auto simp: queue_inv_def intro: distinct_key_eq [of qm_id rows'])
  have "\<not> fst (mark_consumed rows' now' i other)" if "eo = None"
    using r that by (auto simp: mark_consumed_def rows_affected_0 executor_claimed_def dest!: uniq)
  moreover have "\<not> fst (mark_pasted rows' now' i other)" if "po = None"
    using r that by (auto simp: mark_pasted_def rows_affected_0 paste_claimed_def dest!: uniq)
  moreover have "claim rows' now' i sid' eo' po' = (None, rows')"
    using r by (intro claim_none) simp
  ultimately show ?thesis using r by simp
qed

text \<open>
  Exclusive delivery: once a terminal paste has claimed a message, neither the executor nor
  another paste can claim it, and it cannot be marked consumed; and the same with the roles
  of paste and executor exchanged.
\<close>

theorem claim_exclusive:
  assumes "queue_step\<^sup>*\<^sup>* [] rows"
  shows "(claim_for_paste rows now i sid owner = (Some r, rows') \<longrightarrow>
      qm_state r = Pasting \<and> qm_paste_claim_owner r = Some owner
      \<and> claim_for_executor rows' now' i other = (None, rows')
      \<and> claim_for_paste rows' now' i sid' other = (None, rows')
      \<and> \<not> fst (mark_consumed rows' now' i other))
    \<and> (claim_for_executor rows now i owner = (Some r, rows') \<longrightarrow>
      qm_state r = Pasting \<and> qm_executor_claim_owner r = Some owner
      \<and> claim_for_executor rows' now' i other = (None, rows')
      \<and> claim_for_paste rows' now' i sid' other = (None, rows')
      \<and> \<not> fst (mark_pasted rows' now' i other))"
  using claim_excludes [OF reachable_queue_inv [OF assms], of now i sid None "Some owner" r rows']
    claim_excludes [OF reachable_queue_inv [OF assms], of now i None "Some owner" None r rows']
  by (simp add: claim_for_paste_def claim_for_executor_def)

theorem claim_exclusive_witness:
  "claim_for_executor (snd (claim_for_paste queue_example 110 1 None ''me'')) 120 1 ''you''
     = (None, snd (claim_for_paste queue_example 110 1 None ''me''))"
proof -
  have "fst (claim_for_paste queue_example 110 1 None ''me'') \<noteq> None"
    by (simp add: claim_for_paste_def claim_def queue_example_def new_row_def queued_row_def
        rows_affected_def update_where_def find_by_id_def select_one_def claim_set_def Let_def)
  then obtain r where "claim_for_paste queue_example 110 1 None ''me''
      = (Some r, snd (claim_for_paste queue_example 110 1 None ''me''))"
    by (metis option.exhaust prod.collapse)
  with claim_exclusive [OF queue_example_reachable] show ?thesis by blast
qed

section \<open>Reconciliation, row by row\<close>

text \<open>
  The specification of a reconciliation: what happens to one row, in order of precedence.
  Acknowledgement comes first, then abandoned claims, then pastes that timed out.
\<close>

definition reconcile_row ::
  "(uuid \<Rightarrow> bool) \<Rightarrow> execution_process list \<Rightarrow> datetime \<Rightarrow> datetime \<Rightarrow> duration \<Rightarrow> duration
     \<Rightarrow> string option \<Rightarrow> string option \<Rightarrow> session_queued_message \<Rightarrow> session_queued_message" where
  "reconcile_row bound procs db_now now grace timeout ae ap r =
     (if ack_evidence bound r then import_set db_now r
      else if abandoned_claim (now - grace) ae ap r then requeue_pasting_set procs db_now now ae r
      else if unacked_paste (now - timeout) r then requeue_pasted_set db_now r
      else r)"

lemma reconcile_refines_rows_aux:
  "snd (reconcile rows bound procs db_now now grace timeout ae ap)
     = map (reconcile_row bound procs db_now now grace timeout ae ap) rows"
proof -
  have "\<not> abandoned_claim c ae ap (import_set db_now r)" "\<not> unacked_paste c (import_set db_now r)"
    "\<not> unacked_paste c (requeue_pasting_set procs db_now now ae r)" for c r
    by (simp_all add: abandoned_claim_def unacked_paste_def import_set_def requeue_pasting_set_def)
  then show ?thesis
    by (simp add: reconcile_def Let_def update_where_def reconcile_row_def)
qed


lemma reconcile_row_settled:
  "\<not> ack_evidence bound (reconcile_row bound procs db_now now grace timeout ae ap r)
   \<and> \<not> abandoned_claim (now - grace) ae ap (reconcile_row bound procs db_now now grace timeout ae ap r)
   \<and> \<not> unacked_paste (now - timeout) (reconcile_row bound procs db_now now grace timeout ae ap r)"
  by (auto simp: reconcile_row_def guard_defs set_defs split: if_splits)

lemma reconcile_row_id:
  "\<not> ack_evidence bound r \<Longrightarrow> \<not> abandoned_claim (now - grace) ae ap r
     \<Longrightarrow> \<not> unacked_paste (now - timeout) r
     \<Longrightarrow> reconcile_row bound procs db_now now grace timeout ae ap r = r"
  by (simp add: reconcile_row_def)

lemma reconcile_settled_table:
  assumes "rows' = snd (reconcile rows bound procs db_now now grace timeout ae ap)"
    and "r \<in> set rows'"
  shows "\<not> ack_evidence bound r \<and> \<not> abandoned_claim (now - grace) ae ap r
    \<and> \<not> unacked_paste (now - timeout) r"
  using assms reconcile_row_settled by (auto simp: reconcile_refines_rows_aux)

text \<open>
  One reconciliation is enough: afterwards no acknowledged delivery is left unimported, no
  claim of a dead process is left standing and no paste is overdue, so running it again with
  the same evidence and clock changes nothing and reports nothing.
\<close>

theorem reconcile_idempotent:
  assumes "rows' = snd (reconcile rows bound procs db_now now grace timeout ae ap)"
  shows "reconcile rows' bound procs db_now' now grace timeout ae ap
    = (\<lparr>qr_imported = 0, qr_requeued_pasting = 0, qr_requeued_pasted = 0\<rparr>, rows')"
proof -
  note settled = reconcile_settled_table [OF assms]
  then have u1: "update_where (ack_evidence bound) f rows' = rows'"
    and u2: "update_where (abandoned_claim (now - grace) ae ap) f rows' = rows'"
    and u3: "update_where (unacked_paste (now - timeout)) f rows' = rows'" for f
    by (simp_all add: update_where_none)
  from settled have "rows_affected (ack_evidence bound) rows' = 0"
    "rows_affected (abandoned_claim (now - grace) ae ap) rows' = 0"
    "rows_affected (unacked_paste (now - timeout)) rows' = 0"
    by (simp_all add: rows_affected_0)
  then show ?thesis by (simp add: reconcile_def Let_def u1 u2 u3)
qed

theorem reconcile_idempotent_witness:
  "reconcile (snd (reconcile queue_example (\<lambda>_. False) [] 300 300 5 900 None None))
     (\<lambda>_. False) [] 301 300 5 900 None None
   = (\<lparr>qr_imported = 0, qr_requeued_pasting = 0, qr_requeued_pasted = 0\<rparr>,
      snd (reconcile queue_example (\<lambda>_. False) [] 300 300 5 900 None None))"
  by (rule reconcile_idempotent) (rule refl)

text \<open>
  A reconciliation never steals a delivery in progress: a message claimed by this process,
  for the executor or for a paste, and not acknowledged, is left exactly as it is.
\<close>

theorem reconcile_keeps_live_claims:
  assumes "queue_step\<^sup>*\<^sup>* [] rows" and "r \<in> set rows" and "qm_state r = Pasting"
    and "\<not> bound (qm_id r)"
    and "qm_executor_claim_owner r = Some exec_owner \<or> qm_paste_claim_owner r = Some paste_owner"
  shows "r \<in> set (snd (reconcile rows bound procs db_now now grace timeout
    (Some exec_owner) (Some paste_owner)))"
proof -
  from assms(1,2) have "row_ok r" by (auto dest: reachable_queue_inv simp: queue_inv_def)
  with assms(3-5) have "reconcile_row bound procs db_now now grace timeout
      (Some exec_owner) (Some paste_owner) r = r"
    by (intro reconcile_row_id) (auto simp: row_ok.simps guard_defs foreign_owner_def)
  with assms(2) show ?thesis
    by (auto simp: reconcile_refines_rows_aux image_iff intro!: bexI [of _ r])
qed

definition claimed_example :: queue_table where
  "claimed_example = snd (claim_for_executor queue_example 110 1 ''server-1'')"

lemma claimed_example_reachable: "queue_step\<^sup>*\<^sup>* [] claimed_example"
proof -
  have "queue_step queue_example claimed_example"
    unfolding claimed_example_def by (rule step_claim_executor)
  with queue_example_reachable show ?thesis by (rule rtranclp.rtrancl_into_rtrancl)
qed

lemma claimed_example_eq:
  "claimed_example = [claim_set 110 None (Some ''server-1'') None
     (new_row 1 100 7 ''fix the build'' (Some ''cfg'') None Ui)]"
  by (simp add: claimed_example_def claim_for_executor_def claim_def queue_example_def Let_def
      update_where_def queued_row_def new_row_def)

theorem reconcile_keeps_live_claims_witness:
  "hd claimed_example \<in> set (snd (reconcile claimed_example (\<lambda>_. False) [] 9000 9000 5 900
     (Some ''server-1'') (Some ''paste-1'')))"
  by (rule reconcile_keeps_live_claims [OF claimed_example_reachable])
    (simp_all add: claimed_example_eq claim_set_def new_row_def)

text \<open>
  Abandoned executor claims: a message claimed by an executor of another process is put back
  in the queue without any claim, and it is held for an explicit resend if a coding agent of
  its session failed or was killed no earlier than the claim (or than this tick).
\<close>

theorem reconcile_abandoned_executor:
  assumes "queue_step\<^sup>*\<^sup>* [] rows" and "r \<in> set rows" and "qm_state r = Pasting"
    and "\<not> bound (qm_id r)" and "qm_executor_claim_owner r = Some dead" and "dead \<noteq> exec_owner"
  shows "\<exists>r'. r' \<in> set (snd (reconcile rows bound procs db_now now grace timeout
        (Some exec_owner) paste_owner))
      \<and> qm_id r' = qm_id r \<and> qm_prompt r' = qm_prompt r \<and> qm_state r' = Queued
      \<and> qm_executor_claim_owner r' = None \<and> qm_paste_claim_owner r' = None
      \<and> qm_failure_reason r' = Some (if abnormal_completion procs now r
          then ABNORMAL_EXECUTOR_QUEUE_HOLD else ''delivery interrupted; queued for retry'')"
proof -
  let ?r = "reconcile_row bound procs db_now now grace timeout (Some exec_owner) paste_owner r"
  from assms(1,2) have "row_ok r" by (auto dest: reachable_queue_inv simp: queue_inv_def)
  with assms(3-6) have "?r = requeue_pasting_set procs db_now now (Some exec_owner) r"
      and "qm_pasted_at r = None" and "foreign_owner (Some exec_owner) (qm_executor_claim_owner r)"
    by (auto simp: reconcile_row_def guard_defs foreign_owner_def row_ok.simps)
  moreover have "?r \<in> set (snd (reconcile rows bound procs db_now now grace timeout
        (Some exec_owner) paste_owner))"
    using assms(2) by (auto simp: reconcile_refines_rows_aux)
  ultimately show ?thesis
    by (intro exI [of _ ?r]) (auto simp: requeue_pasting_set_def)
qed

theorem reconcile_abandoned_executor_witness:
  "\<exists>r'. r' \<in> set (snd (reconcile claimed_example (\<lambda>_. False)
          [\<lparr>ep_id = 5, ep_session_id = 7, ep_run_reason = CodingAgent, ep_status = EpKilled,
            ep_dropped = False, ep_created_at = 100, ep_completed_at = Some 150\<rparr>] 300 300 5 900 (Some ''server-2'') None))
      \<and> qm_id r' = 1 \<and> qm_prompt r' = ''fix the build'' \<and> qm_state r' = Queued
      \<and> qm_executor_claim_owner r' = None \<and> qm_paste_claim_owner r' = None
      \<and> qm_failure_reason r' = Some ABNORMAL_EXECUTOR_QUEUE_HOLD"
  using reconcile_abandoned_executor [OF claimed_example_reachable, of "hd claimed_example"
      "\<lambda>_. False" "''server-1''" "''server-2''"
      "[\<lparr>ep_id = 5, ep_session_id = 7, ep_run_reason = CodingAgent, ep_status = EpKilled,
         ep_dropped = False, ep_created_at = 100, ep_completed_at = Some 150\<rparr>]" 300 300 5 900 None]
  by (simp add: claimed_example_eq claim_set_def new_row_def abnormal_completion_def)

lemma find_by_id_snoc:
  "\<forall>q\<in>set rows. qm_id q \<noteq> qm_id r \<Longrightarrow> find_by_id (rows @ [r]) (qm_id r) = Some r"
  by (induction rows) (auto simp: find_by_id_def select_one_def)

lemma insert_row_ok:
  assumes "find_active rows (qm_session_id r) = None" and "\<forall>q\<in>set rows. qm_id q \<noteq> qm_id r"
  shows "insert_row rows r = Inr (rows @ [r])"
  using assms by (auto simp: insert_row_def find_active_None)

text \<open>
  Storing always succeeds with a fresh id.  Either the message is now the session's active
  one, queued with the text, configuration, context and source given and no delivery history,
  or nothing changed and the answer names the active message that holds the slot (with
  \<open>replace\<close>, only one whose delivery has started).
\<close>

theorem store_outcome:
  assumes "queue_step\<^sup>*\<^sup>* [] rows" and "fresh \<notin> qm_id ` set rows"
  shows "\<exists>res rows'. store_with_context rows fresh now sid prompt cfg ctx src replace
      = Inr (res, rows')
    \<and> (case res of
         Stored r \<Rightarrow> find_active rows' sid = Some r \<and> qm_state r = Queued \<and> qm_prompt r = prompt
           \<and> qm_executor_config r = cfg \<and> qm_dispatch_context r = ctx \<and> qm_source r = src
           \<and> qm_failure_reason r = None \<and> qm_pasted_at r = None
       | Conflict r \<Rightarrow> rows' = rows \<and> find_active rows sid = Some r
           \<and> (if replace then qm_state r \<in> {Pasting, Pasted} else active_state (qm_state r)))"
proof -
  have inv: "queue_inv rows" using assms(1) by (rule reachable_queue_inv)
  let ?f = "replace_set now prompt cfg src ctx"
  consider (replaced) r where "replace" "select_one (queued_slot sid) rows = Some r"
    | (conflict) r where "(if replace then select_one (queued_slot sid) rows else None) = None"
        "find_active rows sid = Some r"
    | (fresh) "(if replace then select_one (queued_slot sid) rows else None) = None"
        "find_active rows sid = None"
    by (cases "if replace then select_one (queued_slot sid) rows else None";
        cases "find_active rows sid") (auto split: if_splits)
  then show ?thesis
  proof cases
    case replaced
    then have r: "r \<in> set rows" "queued_slot sid r" by (auto dest: select_one_Some)
    let ?rows = "update_where (queued_slot sid) ?f rows"
    have "?f r \<in> set ?rows" using r by (auto simp: set_update_where)
    with r find_active_eq [OF replace_stmt.keeps_inv [OF inv], of "?f r"]
    have "find_active ?rows sid = Some (?f r)"
      by (simp add: queued_slot_def replace_set_def active_state_def)
    with replaced r show ?thesis
      by (simp add: store_with_context_def replace_set_def queued_slot_def)
  next
    case conflict
    then have "r \<in> set rows" "qm_session_id r = sid" "active_state (qm_state r)"
      by (auto dest: find_active_Some)
    with conflict have "if replace then qm_state r \<in> {Pasting, Pasted} else active_state (qm_state r)"
      by (auto simp: select_one_None queued_slot_def active_state_def split: if_splits)
    with conflict show ?thesis by (simp add: store_with_context_def)
  next
    case fresh
    let ?r = "new_row fresh now sid prompt cfg ctx src"
    have id: "\<forall>q\<in>set rows. qm_id q \<noteq> qm_id ?r" and "qm_session_id ?r = sid" "qm_id ?r = fresh"
      using assms(2) by (auto simp: new_row_def)
    with fresh have ins: "insert_row rows ?r = Inr (rows @ [?r])" by (intro insert_row_ok) simp_all
    with find_active_eq [OF insert_row_inv [OF inv row_ok_new_row ins], of ?r] \<open>qm_session_id ?r = sid\<close>
    have "find_active (rows @ [?r]) sid = Some ?r"
      by (simp add: active_state_def new_row_def)
    with ins fresh find_by_id_snoc [OF id] \<open>qm_id ?r = fresh\<close> show ?thesis
      by (simp add: store_with_context_def Let_def) (simp add: new_row_def)
  qed
qed

theorem store_outcome_witness:
  "\<exists>res rows'. store_with_context queue_example 2 200 7 ''again'' None None Ui True = Inr (res, rows')
    \<and> (case res of
         Stored r \<Rightarrow> find_active rows' 7 = Some r \<and> qm_state r = Queued \<and> qm_prompt r = ''again''
           \<and> qm_executor_config r = None \<and> qm_dispatch_context r = None \<and> qm_source r = Ui
           \<and> qm_failure_reason r = None \<and> qm_pasted_at r = None
       | Conflict r \<Rightarrow> rows' = queue_example \<and> find_active queue_example 7 = Some r
           \<and> (if True then qm_state r \<in> {Pasting, Pasted} else active_state (qm_state r)))"
  by (rule store_outcome [OF queue_example_reachable])
    (simp add: queue_example_def new_row_def)

end
