(* ===== verification/InputTypes.thy ===== *)
theory InputTypes
  imports Prelude
begin

text \<open>
  The data of the workspace input ledger (\<^verbatim>\<open>crates/db/src/models/workspace_input.rs\<close>): requests,
  rows, events, their JSON encodings, the canonical text they are hashed over, and the
  validation of contracts, contents and answers.
\<close>

section \<open>JSON values\<close>

text \<open>
  A \<open>serde_json::Value\<close>; an object keeps its entries in insertion order (the crate's
  \<open>preserve_order\<close> feature).  The code only builds numbers from \<open>i64\<close>.
\<close>

datatype json =
    JNull
  | JBool bool
  | JNum int
  | JStr string
  | JArr "json list"
  | JObj "(string \<times> json) list"

text \<open>
  The inner function \<open>sorted\<close> of \<open>canonical\<close>: object keys in order, recursively.
\<close>

function sorted_json :: "json \<Rightarrow> json" where
  "sorted_json (JObj entries) = JObj (map (\<lambda>(k, v). (k, sorted_json v)) (sort_key fst entries))"
| "sorted_json (JArr values) = JArr (map sorted_json values)"
| "sorted_json JNull = JNull"
| "sorted_json (JBool b) = JBool b"
| "sorted_json (JNum n) = JNum n"
| "sorted_json (JStr s) = JStr s"
  by pat_completeness auto

lemma size_entry_less: "(k, v) \<in> set entries \<Longrightarrow> size v < Suc (size_list (size_prod (\<lambda>_. 0) size) entries)"
  by (induction entries) auto

termination sorted_json
  by (relation "measure size") (auto simp: size_entry_less less_Suc_eq_le size_list_estimation')

text \<open>Indexing \<open>value["key"]\<close>: \<open>Null\<close> where there is no such entry; assignment replaces or adds.\<close>

definition json_get :: "json \<Rightarrow> string \<Rightarrow> json" where
  "json_get j key =
     (case j of JObj entries \<Rightarrow> (case map_of entries key of Some v \<Rightarrow> v | None \<Rightarrow> JNull) | _ \<Rightarrow> JNull)"

fun as_str :: "json \<Rightarrow> string option" where
  "as_str (JStr s) = Some s"
| "as_str _ = None"

fun entries_set :: "string \<Rightarrow> json \<Rightarrow> (string \<times> json) list \<Rightarrow> (string \<times> json) list" where
  "entries_set key v [] = [(key, v)]"
| "entries_set key v ((k, w) # es) =
     (if k = key then (key, v) # es else (k, w) # entries_set key v es)"

definition json_set :: "string \<Rightarrow> json \<Rightarrow> json \<Rightarrow> json" where
  "json_set key v j = (case j of JObj entries \<Rightarrow> JObj (entries_set key v entries) | _ \<Rightarrow> j)"

fun json_opt_str :: "string option \<Rightarrow> json" where
  "json_opt_str None = JNull"
| "json_opt_str (Some s) = JStr s"

section \<open>Library functions the code relies on\<close>

text \<open>
  Parameters of the model: the SHA-256 digest in hexadecimal, \<open>serde_json\<close>'s rendering of a
  value, chrono's RFC 3339 parser (with what the code reads of its result) and its fixed
  nanosecond rendering of a UTC time, and the text form of a UUID.
\<close>

record parsed_time =
  pt_year :: int
  pt_nanosecond :: nat
  pt_instant :: datetime

record input_env =
  sha256_hex :: "string \<Rightarrow> string"
  json_to_string :: "json \<Rightarrow> string"
  parse_from_rfc3339 :: "string \<Rightarrow> parsed_time option"
  utc_string :: "datetime \<Rightarrow> string"
  uuid_to_string :: "uuid \<Rightarrow> string"

section \<open>Requests and rows\<close>

definition MAX_HTML_BYTES :: nat where
  "MAX_HTML_BYTES = 2 * 1024 * 1024"

definition MAX_ANSWER_BYTES :: nat where
  "MAX_ANSWER_BYTES = 256 * 1024"

record input_choice =
  ch_id :: string
  ch_label :: string

record input_contract =
  choices :: "input_choice list"
  allow_text :: bool
  allow_no_answer_yet :: bool

record input_answer =
  an_choice_id :: "string option"
  an_text :: "string option"

record input_content =
  ct_title :: string
  ct_html :: string
  ct_contract :: input_contract

record create_input =
  cr_show_at :: "string option option"
  cr_priority :: "string option"
  cr_external_key :: string
  cr_request_id :: string
  cr_expected_sequence :: int
  cr_content :: input_content

record publish_input =
  pb_show_at :: "string option option"
  pb_priority :: "string option"
  pb_request_id :: string
  pb_expected_sequence :: int
  pb_content :: input_content
  pb_request_answer :: bool

record snooze_input =
  sn_request_id :: string
  sn_expected_sequence :: int
  sn_show_at :: "string option"

record answer_input =
  as_request_id :: string
  as_expected_sequence :: int
  as_version :: int
  as_answer :: input_answer

record input_status_write =
  st_request_id :: string
  st_expected_sequence :: int
  st_status :: string
  st_reason :: "string option"

text \<open>A row of \<^verbatim>\<open>workspace_inputs\<close>, with the column that only the availability code reads.\<close>

record workspace_input =
  wi_show_at :: "string option"
  wi_priority :: string
  wi_id :: string
  wi_workspace_id :: uuid
  wi_external_key :: string
  wi_creator :: string
  wi_current_version :: int
  wi_status :: string
  wi_sequence :: int
  wi_created_at :: string
  wi_updated_at :: string
  wi_availability_generation :: "string option"

text \<open>
  A row of \<^verbatim>\<open>workspace_input_versions\<close>; the \<open>contract\<close> column holds the JSON text of the
  contract, represented by the contract itself.
\<close>

record input_version_row =
  vr_workspace_id :: uuid
  vr_input_id :: string
  vr_version :: int
  vr_title :: string
  vr_html :: string
  vr_contract :: input_contract
  vr_content_hash :: string

text \<open>
  An \<open>InputEvent\<close>.  In the table \<^verbatim>\<open>workspace_input_events\<close> the column \<open>payload\<close> holds the
  canonical text of the payload, represented by the value that text denotes.
\<close>

record input_event =
  ev_cursor :: int
  ev_id :: string
  ev_workspace_id :: uuid
  ev_input_id :: string
  ev_sequence :: int
  ev_actor_kind :: string
  ev_actor :: string
  ev_event_type :: string
  ev_version :: int
  ev_payload :: json
  ev_request_id :: string
  ev_request_hash :: string
  ev_created_at :: string
  ev_prev_hash :: string
  ev_hash :: string

record input_receipt =
  rc_input_id :: string
  rc_version :: int
  rc_sequence :: int
  rc_status :: string
  rc_event :: input_event
  rc_owner_url :: string

record input_verification =
  vf_valid :: bool
  vf_checked :: int
  vf_first_break :: "int option"

datatype input_error =
    Code string
  | Sequence int
  | Database db_error

datatype input_actor_kind = OwnerUi | AgentMcp

fun actor_kind_str :: "input_actor_kind \<Rightarrow> string" where
  "actor_kind_str OwnerUi = ''owner_ui''"
| "actor_kind_str AgentMcp = ''agent_mcp''"

datatype input_write =
    Create create_input
  | Publish publish_input
  | Answer answer_input
  | Status input_status_write
  | Undo input_status_write
  | Snooze snooze_input

fun write_key :: "input_write \<Rightarrow> string \<times> int" where
  "write_key (Create v) = (cr_request_id v, cr_expected_sequence v)"
| "write_key (Publish v) = (pb_request_id v, pb_expected_sequence v)"
| "write_key (Answer v) = (as_request_id v, as_expected_sequence v)"
| "write_key (Snooze v) = (sn_request_id v, sn_expected_sequence v)"
| "write_key (Status v) = (st_request_id v, st_expected_sequence v)"
| "write_key (Undo v) = (st_request_id v, st_expected_sequence v)"

section \<open>JSON encodings (derived by serde)\<close>

definition choice_json :: "input_choice \<Rightarrow> json" where
  "choice_json c = JObj [(''id'', JStr (ch_id c)), (''label'', JStr (ch_label c))]"

definition contract_json :: "input_contract \<Rightarrow> json" where
  "contract_json c = JObj [(''choices'', JArr (map choice_json (choices c))),
     (''allow_text'', JBool (allow_text c)), (''allow_no_answer_yet'', JBool (allow_no_answer_yet c))]"

definition answer_json :: "input_answer \<Rightarrow> json" where
  "answer_json a = JObj [(''choice_id'', json_opt_str (an_choice_id a)),
     (''text'', json_opt_str (an_text a))]"

definition content_json :: "input_content \<Rightarrow> json" where
  "content_json c = JObj [(''title'', JStr (ct_title c)), (''html'', JStr (ct_html c)),
     (''contract'', contract_json (ct_contract c))]"

text \<open>\<open>double_option\<close> with \<open>skip_serializing_if\<close>: absent, null or a string.\<close>

definition show_at_entry :: "string option option \<Rightarrow> (string \<times> json) list" where
  "show_at_entry s = (case s of None \<Rightarrow> [] | Some v \<Rightarrow> [(''show_at'', json_opt_str v)])"

definition priority_entry :: "string option \<Rightarrow> (string \<times> json) list" where
  "priority_entry p = (case p of None \<Rightarrow> [] | Some v \<Rightarrow> [(''priority'', JStr v)])"

definition status_write_json :: "input_status_write \<Rightarrow> json" where
  "status_write_json v = JObj [(''request_id'', JStr (st_request_id v)),
     (''expected_sequence'', JNum (st_expected_sequence v)), (''status'', JStr (st_status v)),
     (''reason'', json_opt_str (st_reason v))]"

fun write_json :: "input_write \<Rightarrow> json" where
  "write_json (Create v) = JObj [(''operation'', JStr ''create''), (''body'', JObj
     (show_at_entry (cr_show_at v) @ priority_entry (cr_priority v) @
      [(''external_key'', JStr (cr_external_key v)), (''request_id'', JStr (cr_request_id v)),
       (''expected_sequence'', JNum (cr_expected_sequence v)),
       (''content'', content_json (cr_content v))]))]"
| "write_json (Publish v) = JObj [(''operation'', JStr ''publish''), (''body'', JObj
     (show_at_entry (pb_show_at v) @ priority_entry (pb_priority v) @
      [(''request_id'', JStr (pb_request_id v)),
       (''expected_sequence'', JNum (pb_expected_sequence v)),
       (''content'', content_json (pb_content v)),
       (''request_answer'', JBool (pb_request_answer v))]))]"
| "write_json (Answer v) = JObj [(''operation'', JStr ''answer''), (''body'', JObj
     [(''request_id'', JStr (as_request_id v)),
      (''expected_sequence'', JNum (as_expected_sequence v)), (''version'', JNum (as_version v)),
      (''answer'', answer_json (as_answer v))])]"
| "write_json (Status v) = JObj [(''operation'', JStr ''status''), (''body'', status_write_json v)]"
| "write_json (Undo v) = JObj [(''operation'', JStr ''undo''), (''body'', status_write_json v)]"
| "write_json (Snooze v) = JObj [(''operation'', JStr ''snooze''), (''body'', JObj
     [(''request_id'', JStr (sn_request_id v)),
      (''expected_sequence'', JNum (sn_expected_sequence v)),
      (''show_at'', json_opt_str (sn_show_at v))])]"

section \<open>Canonical text, digests\<close>

definition canonical :: "input_env \<Rightarrow> json \<Rightarrow> string" where
  "canonical env value = json_to_string env (sorted_json value)"

definition digest :: "input_env \<Rightarrow> string \<Rightarrow> string" where
  "digest env text = sha256_hex env text"

definition event_data :: "input_env \<Rightarrow> input_event \<Rightarrow> json" where
  "event_data env event = JObj [
     (''id'', JStr (ev_id event)),
     (''workspace_id'', JStr (uuid_to_string env (ev_workspace_id event))),
     (''input_id'', JStr (ev_input_id event)), (''sequence'', JNum (ev_sequence event)),
     (''actor_kind'', JStr (ev_actor_kind event)), (''actor'', JStr (ev_actor event)),
     (''event_type'', JStr (ev_event_type event)), (''version'', JNum (ev_version event)),
     (''payload'', ev_payload event), (''request_id'', JStr (ev_request_id event)),
     (''request_hash'', JStr (ev_request_hash event)),
     (''created_at'', JStr (ev_created_at event))]"

definition event_hash :: "input_env \<Rightarrow> input_event \<Rightarrow> string" where
  "event_hash env event = digest env (ev_prev_hash event @ canonical env (event_data env event))"

section \<open>Validation\<close>

definition normalize_show_at :: "input_env \<Rightarrow> string option \<Rightarrow> input_error + string option" where
  "normalize_show_at env value =
     (case value of
        None \<Rightarrow> Inr None
      | Some v \<Rightarrow>
          (case parse_from_rfc3339 env v of
             None \<Rightarrow> Inl (Code ''SCHEMA_INVALID'')
           | Some parsed \<Rightarrow>
               if \<not> (1 \<le> pt_year parsed \<and> pt_year parsed \<le> 9999)
                  \<or> pt_nanosecond parsed \<ge> 1000000000
               then Inl (Code ''SCHEMA_INVALID'')
               else Inr (Some (utc_string env (pt_instant parsed)))))"

text \<open>The loop over the choices; \<open>ids\<close> is the set of the identifiers seen so far.\<close>

fun validate_choices :: "input_choice list \<Rightarrow> string list \<Rightarrow> input_error + unit" where
  "validate_choices [] ids = Inr ()"
| "validate_choices (c # cs) ids =
     (if ch_id c = [] \<or> str_len (ch_id c) > 128 \<or> trim (ch_label c) = []
         \<or> str_len (ch_label c) > 1024 \<or> ch_id c \<in> set ids
      then Inl (Code ''SCHEMA_INVALID'')
      else validate_choices cs (ch_id c # ids))"

definition contract_validate :: "input_contract \<Rightarrow> input_error + unit" where
  "contract_validate c =
     (if length (choices c) > 100
         \<or> (\<not> allow_text c \<and> choices c = [] \<and> \<not> allow_no_answer_yet c)
      then Inl (Code ''SCHEMA_INVALID'')
      else validate_choices (choices c) [])"

definition validate_answer :: "input_env \<Rightarrow> input_contract \<Rightarrow> input_answer \<Rightarrow> input_error + bool" where
  "validate_answer env c answer =
     (if str_len (json_to_string env (answer_json answer)) > MAX_ANSWER_BYTES
      then Inl (Code ''PAYLOAD_TOO_LARGE'')
      else if (case an_choice_id answer of None \<Rightarrow> False
               | Some i \<Rightarrow> \<not> (\<exists>ch\<in>set (choices c). ch_id ch = i))
            \<or> ((case an_text answer of None \<Rightarrow> False | Some t \<Rightarrow> t \<noteq> []) \<and> \<not> allow_text c)
      then Inl (Code ''ANSWER_INVALID'')
      else
        let empty = (an_choice_id answer = None
                     \<and> (case an_text answer of None \<Rightarrow> True | Some s \<Rightarrow> trim s = [])) in
        if empty \<and> \<not> allow_no_answer_yet c then Inl (Code ''ANSWER_INVALID'')
        else Inr empty)"

definition content_validate :: "input_content \<Rightarrow> input_error + unit" where
  "content_validate c =
     (if str_len (ct_html c) > MAX_HTML_BYTES then Inl (Code ''PAYLOAD_TOO_LARGE'')
      else if trim (ct_title c) = [] \<or> str_len (ct_title c) > 512 then Inl (Code ''SCHEMA_INVALID'')
      else contract_validate (ct_contract c))"

definition priorities :: "string list" where
  "priorities = [''P0'', ''P1'', ''P2'', ''P3'', ''P4'']"

definition validate_priority :: "string \<Rightarrow> input_error + unit" where
  "validate_priority priority =
     (if priority \<notin> set priorities then Inl (Code ''SCHEMA_INVALID'') else Inr ())"

text \<open>The separator \<open>" \<^bold>\<cdot> "\<close> of the code is a space, U+00B7 and a space.\<close>

definition title_separator :: string where
  "title_separator = [CHR 0x20, CHR 0xB7, CHR 0x20]"

definition title_priority :: "string \<Rightarrow> string option" where
  "title_priority title =
     (case strip_prefix title ''P'' of
        None \<Rightarrow> None
      | Some [] \<Rightarrow> None
      | Some (level # tail) \<Rightarrow>
          if 48 \<le> code_point level \<and> code_point level \<le> 52 \<and> starts_with tail title_separator
          then Some [CHR ''P'', level] else None)"

end
