(* ===== verification/InputLedger.thy ===== *)
theory InputLedger
  imports InputTypes
begin

text \<open>
  The workspace input ledger (\<^verbatim>\<open>crates/db/src/models/workspace_input.rs\<close>): the tables, the
  write transaction with all its operations, the reads, the verification of an input's hash
  chain, and the release and notification of scheduled inputs.  A transaction either
  returns the new tables or an error; after an error the tables are the old ones.
\<close>

section \<open>The tables\<close>

record availability_row =
  av_generation :: string
  av_workspace_id :: uuid
  av_input_id :: string
  av_available_event_id :: "string option"
  av_claim_token :: "string option"
  av_claim_until :: "string option"
  av_finished_at :: "string option"

record ledger =
  lg_workspaces :: "uuid list"
  lg_inputs :: "workspace_input list"
  lg_versions :: "input_version_row list"
  lg_events :: "input_event list"
  lg_availability :: "availability_row list"
  lg_high_water :: int

definition empty_ledger :: "uuid list \<Rightarrow> ledger" where
  "empty_ledger ws = \<lparr>lg_workspaces = ws, lg_inputs = [], lg_versions = [], lg_events = [],
     lg_availability = [], lg_high_water = 0\<rparr>"

section \<open>Queries\<close>

definition is_input :: "uuid \<Rightarrow> string \<Rightarrow> workspace_input \<Rightarrow> bool" where
  "is_input w i r = (wi_workspace_id r = w \<and> wi_id r = i)"

definition find_input :: "ledger \<Rightarrow> uuid \<Rightarrow> string \<Rightarrow> workspace_input option" where
  "find_input lg w i = select_one (is_input w i) (lg_inputs lg)"

definition get_input :: "ledger \<Rightarrow> uuid \<Rightarrow> string \<Rightarrow> input_error + workspace_input" where
  "get_input lg w i = ok_or (find_input lg w i) (Code ''NOT_FOUND'')"

definition find_version :: "ledger \<Rightarrow> uuid \<Rightarrow> string \<Rightarrow> int \<Rightarrow> input_version_row option" where
  "find_version lg w i v =
     select_one (\<lambda>r. vr_workspace_id r = w \<and> vr_input_id r = i \<and> vr_version r = v) (lg_versions lg)"

definition events_of :: "ledger \<Rightarrow> uuid \<Rightarrow> string \<Rightarrow> input_event list" where
  "events_of lg w i = filter (\<lambda>e. ev_workspace_id e = w \<and> ev_input_id e = i) (lg_events lg)"

text \<open>\<open>ORDER BY sequence DESC LIMIT 1\<close>.\<close>

definition last_event :: "ledger \<Rightarrow> uuid \<Rightarrow> string \<Rightarrow> input_event option" where
  "last_event lg w i = limit_one (order_by_desc ev_sequence (events_of lg w i))"

definition find_request :: "ledger \<Rightarrow> uuid \<Rightarrow> string \<Rightarrow> input_event option" where
  "find_request lg w rid =
     select_one (\<lambda>e. ev_workspace_id e = w \<and> ev_request_id e = rid) (lg_events lg)"

section \<open>Events\<close>

definition receipt :: "input_env \<Rightarrow> input_event \<Rightarrow> string \<Rightarrow> input_receipt" where
  "receipt env event status =
     \<lparr>rc_input_id = ev_input_id event, rc_version = ev_version event,
      rc_sequence = ev_sequence event, rc_status = status, rc_event = event,
      rc_owner_url = ''/workspaces/'' @ uuid_to_string env (ev_workspace_id event)
        @ ''#input='' @ ev_input_id event\<rparr>"

text \<open>
  The unique keys of \<^verbatim>\<open>workspace_input_events\<close>: the id, the pair of input and sequence, the pair
  of workspace and request.
\<close>

definition event_conflicts :: "input_event \<Rightarrow> input_event \<Rightarrow> bool" where
  "event_conflicts e q =
     (ev_id q = ev_id e
      \<or> (ev_input_id q = ev_input_id e \<and> ev_sequence q = ev_sequence e)
      \<or> (ev_workspace_id q = ev_workspace_id e \<and> ev_request_id q = ev_request_id e))"

text \<open>
  \<open>insert_event\<close> fills in the hash and the cursor of the event it is given; the row stores the
  canonical payload.
\<close>

definition stored_event :: "input_event \<Rightarrow> input_event" where
  "stored_event e = e\<lparr>ev_payload := sorted_json (ev_payload e)\<rparr>"

definition insert_event :: "input_env \<Rightarrow> ledger \<Rightarrow> input_event \<Rightarrow> input_error + (input_event \<times> ledger)" where
  "insert_event env lg event =
     (let event1 = event\<lparr>ev_hash := event_hash env event\<rparr>;
          event2 = event1\<lparr>ev_cursor := lg_high_water lg + 1\<rparr>
      in if \<exists>q\<in>set (lg_events lg). event_conflicts event2 q then Inl (Database DbError)
         else Inr (event2, lg\<lparr>lg_events := lg_events lg @ [stored_event event2],
                              lg_high_water := lg_high_water lg + 1\<rparr>))"

definition prev_hash_of :: "ledger \<Rightarrow> uuid \<Rightarrow> string \<Rightarrow> string" where
  "prev_hash_of lg w i = (case last_event lg w i of None \<Rightarrow> [] | Some e \<Rightarrow> ev_hash e)"

section \<open>The operations of a write\<close>

text \<open>What the first half of a write hands to the second.\<close>

record prepared =
  pr_input :: workspace_input
  pr_event_type :: string
  pr_payload :: json
  pr_content :: "input_content option"
  pr_new_generation :: bool

definition live_status :: "string \<Rightarrow> bool" where
  "live_status s = (s \<in> {''open'', ''answered''})"

definition prepare_create ::
  "input_env \<Rightarrow> ledger \<Rightarrow> uuid \<Rightarrow> input_actor_kind \<Rightarrow> string \<Rightarrow> create_input \<Rightarrow> string \<Rightarrow> string
     \<Rightarrow> input_error + (prepared \<times> ledger)" where
  "prepare_create env lg w kind actor request now fresh_id =
     bind_err (return_if (kind \<noteq> AgentMcp) (Code ''FORBIDDEN'')) (\<lambda>_.
     bind_err (return_if (cr_expected_sequence request \<noteq> 0) (Sequence 0)) (\<lambda>_.
     bind_err (return_if (cr_external_key request = [] \<or> str_len (cr_external_key request) > 256)
       (Code ''SCHEMA_INVALID'')) (\<lambda>_.
     bind_err (content_validate (cr_content request)) (\<lambda>_.
     bind_err (case cr_priority request of None \<Rightarrow> Inr () | Some p \<Rightarrow> validate_priority p) (\<lambda>_.
     bind_err (return_if (\<exists>r\<in>set (lg_inputs lg). wi_workspace_id r = w
         \<and> wi_external_key r = cr_external_key request) (Code ''IDEMPOTENCY_CONFLICT'')) (\<lambda>_.
     bind_err (normalize_show_at env (case cr_show_at request of None \<Rightarrow> None | Some v \<Rightarrow> v)) (\<lambda>show_at.
     let input = \<lparr>wi_show_at = show_at,
                  wi_priority = (case cr_priority request of Some p \<Rightarrow> p
                    | None \<Rightarrow> (case title_priority (ct_title (cr_content request)) of
                                 Some p \<Rightarrow> p | None \<Rightarrow> ''P2'')),
                  wi_id = fresh_id, wi_workspace_id = w,
                  wi_external_key = cr_external_key request, wi_creator = actor,
                  wi_current_version = 1, wi_status = ''open'', wi_sequence = 0,
                  wi_created_at = now, wi_updated_at = now, wi_availability_generation = None\<rparr>
     in bind_err (return_if (\<exists>r\<in>set (lg_inputs lg). wi_id r = fresh_id) (Database DbError)) (\<lambda>_.
        Inr (\<lparr>pr_input = input, pr_event_type = ''created'',
              pr_payload = JObj [(''external_key'', JStr (cr_external_key request)),
                (''creator'', JStr actor), (''content'', content_json (cr_content request))],
              pr_content = Some (cr_content request), pr_new_generation = True\<rparr>,
             lg\<lparr>lg_inputs := lg_inputs lg @ [input]\<rparr>)))))))))"

definition prepare_publish ::
  "input_env \<Rightarrow> input_actor_kind \<Rightarrow> publish_input \<Rightarrow> workspace_input \<Rightarrow> input_error + prepared" where
  "prepare_publish env kind request input =
     bind_err (return_if (kind \<noteq> AgentMcp) (Code ''FORBIDDEN'')) (\<lambda>_.
     bind_err (return_if (\<not> live_status (wi_status input)) (Code ''INVALID_TRANSITION'')) (\<lambda>_.
     bind_err (content_validate (pb_content request)) (\<lambda>_.
     let priority = (case pb_priority request of Some p \<Rightarrow> Some p
                     | None \<Rightarrow> title_priority (ct_title (pb_content request)))
     in bind_err (case priority of None \<Rightarrow> Inr () | Some p \<Rightarrow> validate_priority p) (\<lambda>_.
     let input1 = (case priority of None \<Rightarrow> input | Some p \<Rightarrow> input\<lparr>wi_priority := p\<rparr>)
     in bind_err (case pb_show_at request of None \<Rightarrow> Inr (wi_show_at input1)
                  | Some v \<Rightarrow> normalize_show_at env v) (\<lambda>show_at.
     let input2 = input1\<lparr>wi_show_at := show_at\<rparr>;
         new_generation = (pb_show_at request \<noteq> None
           \<or> (pb_request_answer request \<and> wi_status input2 = ''answered''));
         input3 = input2\<lparr>wi_current_version := wi_current_version input2 + 1\<rparr>;
         input4 = (if pb_request_answer request then input3\<lparr>wi_status := ''open''\<rparr> else input3)
     in Inr \<lparr>pr_input = input4, pr_event_type = ''version_published'',
             pr_payload = JObj [(''content'', content_json (pb_content request)),
               (''request_answer'', JBool (pb_request_answer request))],
             pr_content = Some (pb_content request), pr_new_generation = new_generation\<rparr>)))))"

definition prepare_snooze ::
  "input_env \<Rightarrow> input_actor_kind \<Rightarrow> snooze_input \<Rightarrow> workspace_input \<Rightarrow> input_error + prepared" where
  "prepare_snooze env kind request input =
     bind_err (return_if (kind \<noteq> OwnerUi) (Code ''FORBIDDEN'')) (\<lambda>_.
     bind_err (return_if (wi_status input \<noteq> ''open'') (Code ''INVALID_TRANSITION'')) (\<lambda>_.
     bind_err (normalize_show_at env (sn_show_at request)) (\<lambda>show_at.
     Inr \<lparr>pr_input = input\<lparr>wi_show_at := show_at\<rparr>, pr_event_type = ''snoozed'',
          pr_payload = JObj [(''show_at'', json_opt_str show_at)],
          pr_content = None, pr_new_generation = True\<rparr>)))"

definition prepare_answer ::
  "input_env \<Rightarrow> ledger \<Rightarrow> uuid \<Rightarrow> string \<Rightarrow> input_actor_kind \<Rightarrow> answer_input \<Rightarrow> workspace_input
     \<Rightarrow> input_error + prepared" where
  "prepare_answer env lg w i kind request input =
     bind_err (return_if (kind \<noteq> OwnerUi) (Code ''FORBIDDEN'')) (\<lambda>_.
     bind_err (return_if (as_version request \<noteq> wi_current_version input) (Code ''VERSION_CONFLICT'')) (\<lambda>_.
     bind_err (return_if (wi_status input \<noteq> ''open'') (Code ''INVALID_TRANSITION'')) (\<lambda>_.
     bind_err (ok_or (find_version lg w i (wi_current_version input)) (Database DbError)) (\<lambda>version.
     bind_err (validate_answer env (vr_contract version) (as_answer request)) (\<lambda>no_answer.
     Inr \<lparr>pr_input = (if no_answer then input else input\<lparr>wi_status := ''answered''\<rparr>),
          pr_event_type = ''answer_submitted'',
          pr_payload = JObj [(''answer'', answer_json (as_answer request)),
            (''no_answer_yet'', JBool no_answer), (''content_hash'', JStr (vr_content_hash version))],
          pr_content = None, pr_new_generation = False\<rparr>)))))"

definition prepare_status ::
  "input_actor_kind \<Rightarrow> input_status_write \<Rightarrow> workspace_input \<Rightarrow> input_error + prepared" where
  "prepare_status kind request input =
     bind_err (return_if (st_status request \<notin> {''closed'', ''cancelled''}
         \<or> \<not> live_status (wi_status input)) (Code ''INVALID_TRANSITION'')) (\<lambda>_.
     bind_err (return_if (st_status request = ''cancelled'' \<and> kind \<noteq> AgentMcp)
       (Code ''FORBIDDEN'')) (\<lambda>_.
     let prior = wi_status input; input1 = input\<lparr>wi_status := st_status request\<rparr>
     in Inr \<lparr>pr_input = input1,
             pr_event_type = (if wi_status input1 = ''closed'' then ''closed'' else ''cancelled''),
             pr_payload = JObj [(''prior_status'', JStr prior),
               (''reason'', json_opt_str (st_reason request))],
             pr_content = None, pr_new_generation = False\<rparr>))"

definition prepare_undo ::
  "ledger \<Rightarrow> uuid \<Rightarrow> string \<Rightarrow> input_actor_kind \<Rightarrow> string \<Rightarrow> workspace_input \<Rightarrow> input_error + prepared" where
  "prepare_undo lg w i kind actor input =
     bind_err (return_if (kind \<noteq> OwnerUi \<or> wi_status input \<noteq> ''closed'')
       (Code ''INVALID_TRANSITION'')) (\<lambda>_.
     bind_err (ok_or (last_event lg w i) (Database DbError)) (\<lambda>last.
     bind_err (return_if (ev_event_type last \<noteq> ''closed'' \<or> ev_actor_kind last \<noteq> ''owner_ui''
         \<or> ev_actor last \<noteq> actor) (Code ''FORBIDDEN'')) (\<lambda>_.
     bind_err (case as_str (json_get (ev_payload last) ''prior_status'') of
         None \<Rightarrow> Inl (Code ''INVALID_TRANSITION'')
       | Some s \<Rightarrow> if live_status s then Inr s else Inl (Code ''INVALID_TRANSITION'')) (\<lambda>prior.
     bind_err (ok_or (find_version lg w i (wi_current_version input)) (Database DbError)) (\<lambda>version.
     let snapshot = \<lparr>ct_title = vr_title version, ct_html = vr_html version,
                     ct_contract = vr_contract version\<rparr>
     in Inr \<lparr>pr_input = input\<lparr>wi_status := prior,
               wi_current_version := wi_current_version input + 1\<rparr>,
             pr_event_type = ''version_published'',
             pr_payload = JObj [(''undo_event_id'', JStr (ev_id last)),
               (''content'', content_json snapshot)],
             pr_content = Some snapshot, pr_new_generation = (prior = ''open'')\<rparr>)))))"

text \<open>All operations but \<open>Create\<close> start from the row of an existing input.\<close>

definition prepare_existing ::
  "input_env \<Rightarrow> ledger \<Rightarrow> uuid \<Rightarrow> string option \<Rightarrow> input_actor_kind \<Rightarrow> string \<Rightarrow> input_write
     \<Rightarrow> input_error + (prepared \<times> ledger)" where
  "prepare_existing env lg w iid kind actor wr =
     bind_err (ok_or iid (Code ''NOT_FOUND'')) (\<lambda>i.
     bind_err (get_input lg w i) (\<lambda>input.
     bind_err (return_if (wi_sequence input \<noteq> snd (write_key wr)) (Sequence (wi_sequence input))) (\<lambda>_.
     bind_err (return_if (kind = AgentMcp \<and> wi_creator input \<noteq> actor) (Code ''FORBIDDEN'')) (\<lambda>_.
     bind_err (case wr of
         Publish request \<Rightarrow> prepare_publish env kind request input
       | Snooze request \<Rightarrow> prepare_snooze env kind request input
       | Answer request \<Rightarrow> prepare_answer env lg w i kind request input
       | Status request \<Rightarrow> prepare_status kind request input
       | Undo _ \<Rightarrow> prepare_undo lg w i kind actor input
       | Create _ \<Rightarrow> Inl (Database DbError)) (\<lambda>prep.
     Inr (prep, lg))))))"

section \<open>The second half: versions, event, projection, availability\<close>

definition insert_version ::
  "input_env \<Rightarrow> ledger \<Rightarrow> uuid \<Rightarrow> workspace_input \<Rightarrow> input_content \<Rightarrow> input_error + ledger" where
  "insert_version env lg w input content =
     (if \<exists>r\<in>set (lg_versions lg). vr_input_id r = wi_id input \<and> vr_version r = wi_current_version input
      then Inl (Database DbError)
      else Inr (lg\<lparr>lg_versions := lg_versions lg @
        [\<lparr>vr_workspace_id = w, vr_input_id = wi_id input, vr_version = wi_current_version input,
          vr_title = ct_title content, vr_html = ct_html content,
          vr_contract = ct_contract content,
          vr_content_hash = digest env (canonical env (content_json content))\<rparr>]\<rparr>))"

definition update_input :: "ledger \<Rightarrow> uuid \<Rightarrow> workspace_input \<Rightarrow> string \<Rightarrow> ledger" where
  "update_input lg w input now =
     lg\<lparr>lg_inputs := update_where (is_input w (wi_id input))
       (\<lambda>r. r\<lparr>wi_current_version := wi_current_version input, wi_status := wi_status input,
               wi_sequence := wi_sequence input, wi_updated_at := now,
               wi_priority := wi_priority input, wi_show_at := wi_show_at input\<rparr>)
       (lg_inputs lg)\<rparr>"

definition finish_open_availability :: "ledger \<Rightarrow> uuid \<Rightarrow> string \<Rightarrow> string \<Rightarrow> ledger" where
  "finish_open_availability lg w i now =
     lg\<lparr>lg_availability := update_where
       (\<lambda>a. av_workspace_id a = w \<and> av_input_id a = i \<and> av_finished_at a = None)
       (\<lambda>a. a\<lparr>av_finished_at := Some now\<rparr>) (lg_availability lg)\<rparr>"

definition start_generation ::
  "ledger \<Rightarrow> uuid \<Rightarrow> workspace_input \<Rightarrow> string \<Rightarrow> string \<Rightarrow> input_error + ledger" where
  "start_generation lg w input event_id now =
     (let lg1 = lg\<lparr>lg_inputs := update_where (is_input w (wi_id input))
            (\<lambda>r. r\<lparr>wi_availability_generation := Some event_id\<rparr>) (lg_inputs lg)\<rparr>;
          available = (case wi_show_at input of None \<Rightarrow> True | Some time \<Rightarrow> time \<le> now)
      in if wi_status input = ''open'' then
           (if \<exists>a\<in>set (lg_availability lg1). av_generation a = event_id then Inl (Database DbError)
            else Inr (lg1\<lparr>lg_availability := lg_availability lg1 @
              [\<lparr>av_generation = event_id, av_workspace_id = w, av_input_id = wi_id input,
                av_available_event_id = (if available then Some event_id else None),
                av_claim_token = None, av_claim_until = None, av_finished_at = None\<rparr>]\<rparr>))
         else Inr lg1)"

text \<open>The event of a write; \<open>insert_event\<close> sets its cursor and its hash.\<close>

definition write_event ::
  "ledger \<Rightarrow> uuid \<Rightarrow> workspace_input \<Rightarrow> input_actor_kind \<Rightarrow> string \<Rightarrow> string \<Rightarrow> json \<Rightarrow> string \<Rightarrow> string
     \<Rightarrow> string \<Rightarrow> string \<Rightarrow> input_event" where
  "write_event lg w input kind actor event_type payload request_id request_hash now fresh_event =
     \<lparr>ev_cursor = 0, ev_id = fresh_event, ev_workspace_id = w, ev_input_id = wi_id input,
      ev_sequence = wi_sequence input, ev_actor_kind = actor_kind_str kind, ev_actor = actor,
      ev_event_type = event_type, ev_version = wi_current_version input, ev_payload = payload,
      ev_request_id = request_id, ev_request_hash = request_hash, ev_created_at = now,
      ev_prev_hash = prev_hash_of lg w (wi_id input), ev_hash = []\<rparr>"

definition commit_write ::
  "input_env \<Rightarrow> uuid \<Rightarrow> input_actor_kind \<Rightarrow> string \<Rightarrow> string \<Rightarrow> string \<Rightarrow> string \<Rightarrow> string
     \<Rightarrow> prepared \<Rightarrow> ledger \<Rightarrow> input_error + (input_receipt \<times> ledger)" where
  "commit_write env w kind actor request_id request_hash now fresh_event prep lg =
     (let input = (pr_input prep)\<lparr>wi_sequence := wi_sequence (pr_input prep) + 1\<rparr>;
          payload = json_set ''show_at'' (json_opt_str (wi_show_at input))
                      (json_set ''status'' (JStr (wi_status input)) (pr_payload prep))
      in bind_err (case pr_content prep of None \<Rightarrow> Inr lg
                   | Some content \<Rightarrow> insert_version env lg w input content) (\<lambda>lg1.
         bind_err (insert_event env lg1 (write_event lg1 w input kind actor (pr_event_type prep)
                     payload request_id request_hash now fresh_event)) (\<lambda>(event, lg2).
         let lg3 = update_input lg2 w input now;
             lg4 = (if pr_new_generation prep \<or> wi_status input \<noteq> ''open''
                    then finish_open_availability lg3 w (wi_id input) now else lg3)
         in bind_err (if pr_new_generation prep
                      then start_generation lg4 w input (ev_id event) now else Inr lg4) (\<lambda>lg5.
            Inr (receipt env event (wi_status input), lg5)))))"

section \<open>The write transaction\<close>

definition request_hash_of ::
  "input_env \<Rightarrow> string option \<Rightarrow> input_actor_kind \<Rightarrow> string \<Rightarrow> input_write \<Rightarrow> string" where
  "request_hash_of env iid kind actor wr = digest env (canonical env
     (JObj [(''input_id'', json_opt_str iid), (''actor_kind'', JStr (actor_kind_str kind)),
            (''actor'', JStr actor), (''write'', write_json wr)]))"

definition replay :: "input_env \<Rightarrow> input_event \<Rightarrow> string \<Rightarrow> input_error + input_receipt" where
  "replay env event request_hash =
     bind_err (return_if (ev_request_hash event \<noteq> request_hash) (Code ''IDEMPOTENCY_CONFLICT'')) (\<lambda>_.
     bind_err (ok_or (as_str (json_get (ev_payload event) ''status'')) (Code ''NOT_FOUND'')) (\<lambda>status.
     Inr (receipt env event status)))"

definition write_input ::
  "input_env \<Rightarrow> ledger \<Rightarrow> uuid \<Rightarrow> string option \<Rightarrow> input_actor_kind \<Rightarrow> string \<Rightarrow> input_write
     \<Rightarrow> datetime \<Rightarrow> string \<Rightarrow> string \<Rightarrow> input_error + (input_receipt \<times> ledger)" where
  "write_input env lg w iid kind actor wr time fresh_input fresh_event =
     (let request_id = fst (write_key wr) in
     bind_err (return_if (request_id = [] \<or> str_len request_id > 128 \<or> actor = []
         \<or> str_len actor > 256) (Code ''SCHEMA_INVALID'')) (\<lambda>_.
     let request_hash = request_hash_of env iid kind actor wr in
     bind_err (return_if (w \<notin> set (lg_workspaces lg)) (Code ''NOT_FOUND'')) (\<lambda>_.
     case find_request lg w request_id of
       Some event \<Rightarrow> bind_err (replay env event request_hash) (\<lambda>r. Inr (r, lg))
     | None \<Rightarrow>
         (let now = utc_string env time in
          bind_err (case wr of
              Create request \<Rightarrow> prepare_create env lg w kind actor request now fresh_input
            | _ \<Rightarrow> prepare_existing env lg w iid kind actor wr) (\<lambda>(prep, lg1).
          commit_write env w kind actor request_id request_hash now fresh_event prep lg1)))))"

definition set_priority ::
  "ledger \<Rightarrow> uuid \<Rightarrow> string \<Rightarrow> string \<Rightarrow> input_error + (workspace_input \<times> ledger)" where
  "set_priority lg w i priority =
     bind_err (validate_priority priority) (\<lambda>_.
     let p = (\<lambda>r. is_input w i r \<and> live_status (wi_status r));
         f = (\<lambda>r. r\<lparr>wi_priority := priority\<rparr>)
     in case select_one p (lg_inputs lg) of
          Some r \<Rightarrow> Inr (f r, lg\<lparr>lg_inputs := update_where p f (lg_inputs lg)\<rparr>)
        | None \<Rightarrow> bind_err (get_input lg w i) (\<lambda>_. Inl (Code ''INVALID_TRANSITION'')))"


section \<open>Reads\<close>

record input_version =
  iv_version :: int
  iv_title :: string
  iv_html :: "string option"
  iv_contract :: input_contract
  iv_content_hash :: string

record input_detail =
  id_input :: workspace_input
  id_version :: input_version
  id_answers :: "input_event list"

record input_page =
  ip_inputs :: "input_detail list"
  ip_next_cursor :: "string option"
  ip_pending_count :: nat

record input_event_page =
  ep_events :: "input_event list"
  ep_next_cursor :: int

definition detail_on :: "ledger \<Rightarrow> workspace_input \<Rightarrow> int option \<Rightarrow> bool \<Rightarrow> input_error + input_detail" where
  "detail_on lg input version html =
     (let w = wi_workspace_id input; i = wi_id input;
          v = (case version of Some v \<Rightarrow> v | None \<Rightarrow> wi_current_version input)
      in bind_err (ok_or (find_version lg w i v) (Code ''NOT_FOUND'')) (\<lambda>row.
         Inr \<lparr>id_input = input,
              id_version = \<lparr>iv_version = v, iv_title = vr_title row,
                iv_html = (if html then Some (vr_html row) else None),
                iv_contract = vr_contract row, iv_content_hash = vr_content_hash row\<rparr>,
              id_answers = order_by ev_sequence
                (filter (\<lambda>e. ev_event_type e = ''answer_submitted'') (events_of lg w i))\<rparr>))"

definition detail :: "ledger \<Rightarrow> uuid \<Rightarrow> string \<Rightarrow> int option \<Rightarrow> bool \<Rightarrow> input_error + input_detail" where
  "detail lg w i version html =
     bind_err (ok_or (find_input lg w i) (Code ''NOT_FOUND'')) (\<lambda>input. detail_on lg input version html)"

text \<open>An open input whose time has not come is hidden from the lists.\<close>

definition shown :: "string \<Rightarrow> workspace_input \<Rightarrow> bool" where
  "shown now r = (case wi_show_at r of None \<Rightarrow> True | Some t \<Rightarrow> t \<le> now)"

definition clamp_limit :: "int \<Rightarrow> nat" where
  "clamp_limit limit = nat (max 1 (min 100 limit))"

fun details_on :: "ledger \<Rightarrow> workspace_input list \<Rightarrow> input_error + input_detail list" where
  "details_on lg [] = Inr []"
| "details_on lg (r # rs) =
     bind_err (detail_on lg r None False) (\<lambda>d. bind_err (details_on lg rs) (\<lambda>ds. Inr (d # ds)))"

definition list_rows :: "ledger \<Rightarrow> uuid \<Rightarrow> string \<Rightarrow> string \<Rightarrow> string \<Rightarrow> workspace_input list" where
  "list_rows lg w flt cursor now =
     order_by wi_id (filter (\<lambda>r. wi_workspace_id r = w \<and> cursor < wi_id r
       \<and> (flt = [] \<or> contains ('','' @ flt @ '','') ('','' @ wi_status r @ '',''))
       \<and> (wi_status r \<noteq> ''open'' \<or> shown now r)) (lg_inputs lg))"

definition list_inputs ::
  "input_env \<Rightarrow> ledger \<Rightarrow> uuid \<Rightarrow> string option \<Rightarrow> string \<Rightarrow> int \<Rightarrow> datetime \<Rightarrow> input_error + input_page" where
  "list_inputs env lg w status cursor limit time =
     (let statuses = (case status of None \<Rightarrow> [] | Some s \<Rightarrow> split_char (CHR '','') s) in
      bind_err (return_if (\<exists>s\<in>set statuses. s \<notin> {''open'', ''answered'', ''closed'', ''cancelled''})
        (Code ''INVALID_TRANSITION'')) (\<lambda>_.
      let flt = join_str '','' statuses;
          now = utc_string env time;
          rows = take (clamp_limit limit + 1) (list_rows lg w flt cursor now);
          more = (length rows > clamp_limit limit)
      in bind_err (details_on lg (take (clamp_limit limit) rows)) (\<lambda>inputs.
         Inr \<lparr>ip_inputs = inputs,
              ip_next_cursor = (if more then Some (wi_id (id_input (last inputs))) else None),
              ip_pending_count = length (filter (\<lambda>r. wi_workspace_id r = w \<and> wi_status r = ''open''
                \<and> shown now r) (lg_inputs lg))\<rparr>)))"

definition events_page :: "ledger \<Rightarrow> uuid \<Rightarrow> string option \<Rightarrow> int \<Rightarrow> int \<Rightarrow> input_event_page" where
  "events_page lg w iid cursor limit =
     (let events = take (clamp_limit limit) (order_by ev_cursor (filter (\<lambda>e. ev_workspace_id e = w
            \<and> ev_cursor e > cursor \<and> (case iid of None \<Rightarrow> True | Some i \<Rightarrow> ev_input_id e = i))
            (lg_events lg)))
      in \<lparr>ep_events = events,
          ep_next_cursor = (if events = [] then cursor else ev_cursor (last events))\<rparr>)"

text \<open>The loop of \<open>verify\<close>: the state is the previous hash and the number of events checked.\<close>

fun verify_loop :: "input_env \<Rightarrow> string \<Rightarrow> int \<Rightarrow> input_event list \<Rightarrow> input_verification + (int \<times> string)" where
  "verify_loop env prev checked [] = Inr (checked, prev)"
| "verify_loop env prev checked (event # events) =
     (if ev_sequence event \<noteq> checked + 1 \<or> ev_prev_hash event \<noteq> prev
         \<or> ev_hash event \<noteq> event_hash env event
      then Inl \<lparr>vf_valid = False, vf_checked = checked, vf_first_break = Some (ev_sequence event)\<rparr>
      else verify_loop env (ev_hash event) (checked + 1) events)"

definition verify :: "input_env \<Rightarrow> ledger \<Rightarrow> uuid \<Rightarrow> string \<Rightarrow> input_error + input_verification" where
  "verify env lg w i =
     bind_err (get_input lg w i) (\<lambda>projection.
       Inr (case verify_loop env [] 0 (order_by ev_sequence (events_of lg w i)) of
              Inl v \<Rightarrow> v
            | Inr (checked, _) \<Rightarrow>
                (let valid = (checked = wi_sequence projection \<and> checked > 0)
                 in \<lparr>vf_valid = valid, vf_checked = checked,
                     vf_first_break = (if valid then None else Some (checked + 1))\<rparr>)))"

section \<open>Scheduled availability\<close>

record due_row =
  du_generation :: string
  du_workspace :: uuid
  du_input :: string
  du_sequence :: int
  du_version :: int
  du_show_at :: "string option"

text \<open>The joins of the availability statements: a generation that is its open input's current one.\<close>

definition current_pair :: "ledger \<Rightarrow> string \<Rightarrow> availability_row \<Rightarrow> workspace_input \<Rightarrow> bool" where
  "current_pair lg now a i =
     (wi_id i = av_input_id a \<and> wi_workspace_id i = av_workspace_id a
      \<and> wi_workspace_id i \<in> set (lg_workspaces lg)
      \<and> Some (av_generation a) = wi_availability_generation i
      \<and> av_finished_at a = None \<and> wi_status i = ''open'' \<and> shown now i)"

definition due_rows :: "ledger \<Rightarrow> string \<Rightarrow> due_row list" where
  "due_rows lg now = take 100 (order_by (\<lambda>d. (du_show_at d, du_input d))
     [\<lparr>du_generation = av_generation a, du_workspace = wi_workspace_id i, du_input = wi_id i,
       du_sequence = wi_sequence i, du_version = wi_current_version i, du_show_at = wi_show_at i\<rparr>.
       a \<leftarrow> lg_availability lg, i \<leftarrow> lg_inputs lg,
       current_pair lg now a i \<and> av_available_event_id a = None])"

definition available_event ::
  "input_env \<Rightarrow> string \<Rightarrow> due_row \<Rightarrow> string \<Rightarrow> string \<Rightarrow> string \<Rightarrow> input_event" where
  "available_event env now d fresh_event fresh_request previous =
     \<lparr>ev_cursor = 0, ev_id = fresh_event, ev_workspace_id = du_workspace d,
      ev_input_id = du_input d, ev_sequence = du_sequence d + 1, ev_actor_kind = ''system'',
      ev_actor = ''input_availability'', ev_event_type = ''available'', ev_version = du_version d,
      ev_payload = JObj [(''status'', JStr ''open''), (''generation'', JStr (du_generation d))],
      ev_request_id = ''availability:'' @ fresh_request,
      ev_request_hash = digest env (canonical env (JObj [(''generation'', JStr (du_generation d))])),
      ev_created_at = now, ev_prev_hash = previous, ev_hash = []\<rparr>"

definition release_one ::
  "input_env \<Rightarrow> string \<Rightarrow> ledger \<Rightarrow> due_row \<Rightarrow> string \<times> string \<Rightarrow> input_error + ledger" where
  "release_one env now lg d fresh =
     bind_err (ok_or (last_event lg (du_workspace d) (du_input d)) (Database DbError)) (\<lambda>prev.
     bind_err (insert_event env lg
       (available_event env now d (fst fresh) (snd fresh) (ev_hash prev))) (\<lambda>(event, lg1).
     Inr (lg1\<lparr>lg_inputs := update_where (is_input (du_workspace d) (du_input d))
                (\<lambda>r. r\<lparr>wi_sequence := ev_sequence event, wi_updated_at := now\<rparr>) (lg_inputs lg1),
              lg_availability := update_where (\<lambda>a. av_generation a = du_generation d)
                (\<lambda>a. a\<lparr>av_available_event_id := Some (ev_id event)\<rparr>) (lg_availability lg1)\<rparr>)))"

text \<open>The loop over the due rows; the iteration draws its two UUIDs from \<open>fresh\<close>.\<close>

fun release_loop ::
  "input_env \<Rightarrow> string \<Rightarrow> ledger \<Rightarrow> due_row list \<Rightarrow> (nat \<Rightarrow> string \<times> string) \<Rightarrow> nat
     \<Rightarrow> input_error + ledger" where
  "release_loop env now lg [] fresh k = Inr lg"
| "release_loop env now lg (d # ds) fresh k =
     bind_err (release_one env now lg d (fresh k)) (\<lambda>lg1. release_loop env now lg1 ds fresh (Suc k))"

definition release_due ::
  "input_env \<Rightarrow> ledger \<Rightarrow> datetime \<Rightarrow> (nat \<Rightarrow> string \<times> string) \<Rightarrow> input_error + (nat \<times> ledger)" where
  "release_due env lg time fresh =
     (let now = utc_string env time; due = due_rows lg now
      in bind_err (release_loop env now lg due fresh 0) (\<lambda>lg1. Inr (length due, lg1)))"

section \<open>Notification claims\<close>

record input_notification_claim =
  nc_generation :: string
  nc_workspace_id :: uuid
  nc_token :: string

definition claimable :: "ledger \<Rightarrow> string \<Rightarrow> availability_row \<Rightarrow> bool" where
  "claimable lg now a =
     ((\<exists>i\<in>set (lg_inputs lg). current_pair lg now a i)
      \<and> av_available_event_id a \<noteq> None
      \<and> (case av_claim_until a of None \<Rightarrow> True | Some u \<Rightarrow> u \<le> now))"

definition claim_notification ::
  "input_env \<Rightarrow> ledger \<Rightarrow> datetime \<Rightarrow> string \<Rightarrow> input_notification_claim option \<times> ledger" where
  "claim_notification env lg time token =
     (let now = utc_string env time; until = utc_string env (time + 60)
      in case limit_one (order_by av_generation (filter (claimable lg now) (lg_availability lg))) of
           None \<Rightarrow> (None, lg)
         | Some a \<Rightarrow>
             (Some \<lparr>nc_generation = av_generation a, nc_workspace_id = av_workspace_id a,
                    nc_token = token\<rparr>,
              lg\<lparr>lg_availability := update_where (\<lambda>b. av_generation b = av_generation a)
                (\<lambda>b. b\<lparr>av_claim_token := Some token, av_claim_until := Some until\<rparr>)
                (lg_availability lg)\<rparr>))"

definition claim_live :: "string \<Rightarrow> input_notification_claim \<Rightarrow> availability_row \<Rightarrow> bool" where
  "claim_live now claim a =
     (av_generation a = nc_generation claim \<and> av_claim_token a = Some (nc_token claim)
      \<and> (case av_claim_until a of None \<Rightarrow> False | Some u \<Rightarrow> now < u) \<and> av_finished_at a = None)"

definition notification_is_current ::
  "input_env \<Rightarrow> ledger \<Rightarrow> datetime \<Rightarrow> input_notification_claim \<Rightarrow> bool" where
  "notification_is_current env lg time claim =
     (let now = utc_string env time
      in \<exists>a\<in>set (lg_availability lg). claim_live now claim a \<and> av_available_event_id a \<noteq> None
           \<and> (\<exists>i\<in>set (lg_inputs lg). current_pair lg now a i))"

definition finish_notification ::
  "input_env \<Rightarrow> ledger \<Rightarrow> datetime \<Rightarrow> input_notification_claim \<Rightarrow> bool \<times> ledger" where
  "finish_notification env lg time claim =
     (let now = utc_string env time
      in (rows_affected (claim_live now claim) (lg_availability lg) = 1,
          lg\<lparr>lg_availability := update_where (claim_live now claim)
            (\<lambda>a. a\<lparr>av_finished_at := Some now, av_claim_token := None, av_claim_until := None\<rparr>)
            (lg_availability lg)\<rparr>))"

text \<open>
  One tick of the availability task (\<^verbatim>\<open>crates/services/src/services/input_availability.rs\<close>).  An
  iteration reads the clock before the claim, at the check and at the end, and draws the
  token; the workspaces notified are the result beside the tables.
\<close>

record tick_reading =
  tk_expired :: bool
  tk_claim_time :: datetime
  tk_token :: string
  tk_check_time :: datetime
  tk_finish_time :: datetime

fun tick_loop ::
  "nat \<Rightarrow> input_env \<Rightarrow> ledger \<Rightarrow> (nat \<Rightarrow> tick_reading) \<Rightarrow> input_notification_claim list
     \<Rightarrow> input_notification_claim list \<times> ledger" where
  "tick_loop 0 env lg readings sent = (sent, lg)"
| "tick_loop (Suc n) env lg readings sent =
     (let r = readings n in
      if tk_expired r then (sent, lg)
      else case claim_notification env lg (tk_claim_time r) (tk_token r) of
             (None, lg1) \<Rightarrow> (sent, lg1)
           | (Some claim, lg1) \<Rightarrow>
               (let sent1 = (if notification_is_current env lg1 (tk_check_time r) claim
                             then sent @ [claim] else sent);
                    lg2 = snd (finish_notification env lg1 (tk_finish_time r) claim)
                in tick_loop n env lg2 readings sent1))"

definition tick ::
  "input_env \<Rightarrow> ledger \<Rightarrow> datetime \<Rightarrow> (nat \<Rightarrow> string \<times> string) \<Rightarrow> (nat \<Rightarrow> tick_reading)
     \<Rightarrow> input_error + (input_notification_claim list \<times> ledger)" where
  "tick env lg time fresh readings =
     bind_err (release_due env lg time fresh) (\<lambda>(_, lg1).
       Inr (tick_loop 100 env lg1 readings []))"

end
