(* ===== verification/InputChain.thy ===== *)
theory InputChain
  imports InputLedger
begin

text \<open>
  Facts about the canonical form of JSON values and about chains of hashed events that the
  invariant of the input ledger rests on: sorting is idempotent and keeps every lookup, so the
  stored form of an event has the hash of the event written; a chain numbered from one is
  read back in order by the queries of the code.
\<close>

section \<open>Canonical values\<close>

lemma sort_key_map_values:
  "sort_key fst (map (\<lambda>(k, v). (k, g v)) es) = map (\<lambda>(k, v). (k, g v)) (sort_key fst es)"
proof -
  have insort: "insort_key fst (k, g v) (map (\<lambda>(k, v). (k, g v)) xs)
      = map (\<lambda>(k, v). (k, g v)) (insort_key fst (k, v) xs)" for k :: 'a and v xs
    by (induction xs) (auto split: prod.splits)
  show ?thesis by (induction es) (auto simp: insort)
qed

lemma sort_key_idem: "sort_key f (sort_key f xs) = sort_key f xs"
  by (rule sort_key_id_if_sorted) simp

lemma map_of_filter: "map_of es k = map_option snd (limit_one (filter (\<lambda>e. fst e = k) es))"
  by (induction es) auto

lemma map_of_sort_key: "map_of (sort_key fst es) k = map_of es k"
  by (simp add: map_of_filter sort_key_stable)

lemma sorted_json_idem [simp]: "sorted_json (sorted_json j) = sorted_json j"
proof (induction j rule: sorted_json.induct)
  case (1 entries)
  have "map (\<lambda>(k, v). (k, sorted_json (sorted_json v))) (sort_key fst entries)
      = map (\<lambda>(k, v). (k, sorted_json v)) (sort_key fst entries)"
    using "1.IH" by fastforce
  then have "map (\<lambda>(k, v). (k, sorted_json v))
        (map (\<lambda>(k, v). (k, sorted_json v)) (sort_key fst entries))
      = map (\<lambda>(k, v). (k, sorted_json v)) (sort_key fst entries)"
    by (simp add: comp_def case_prod_unfold)
  then show ?case
    by (simp only: sorted_json.simps(1) sort_key_map_values sort_key_idem)
qed (auto simp: comp_def)

lemma sorted_json_values:
  assumes "map (\<lambda>(k, v). (k, sorted_json v)) es = map (\<lambda>(k, v). (k, sorted_json v)) fs"
  shows "sorted_json (JObj es) = sorted_json (JObj fs)"
  using assms by (metis sort_key_map_values sorted_json.simps(1))

lemma json_get_sorted: "json_get (sorted_json (JObj es)) k = sorted_json (json_get (JObj es) k)"
proof -
  have "map_of (map (\<lambda>(k, v). (k, sorted_json v)) (sort_key fst es)) k
      = map_option sorted_json (map_of es k)"
    by (simp add: map_of_map map_of_sort_key)
  then show ?thesis by (simp add: json_get_def split: option.split)
qed

lemma as_str_sorted: "as_str (json_get j k) = Some s \<Longrightarrow> as_str (json_get (sorted_json j) k) = Some s"
proof (cases j)
  case (JObj es)
  moreover assume "as_str (json_get j k) = Some s"
  ultimately show ?thesis
    by (cases "json_get (JObj es) k") (simp_all del: sorted_json.simps(1) add: json_get_sorted)
qed (simp_all add: json_get_def)

lemma map_of_entries_set: "map_of (entries_set key v es) = (map_of es)(key \<mapsto> v)"
  by (induction key v es rule: entries_set.induct) auto

lemma json_get_set: "json_get (json_set key v (JObj es)) k =
    (if k = key then v else json_get (JObj es) k)"
  by (simp add: json_get_def json_set_def map_of_entries_set)

section \<open>The hash of a stored event\<close>

lemma event_hash_update [simp]:
  "event_hash env (e\<lparr>ev_hash := h\<rparr>) = event_hash env e"
  "event_hash env (e\<lparr>ev_cursor := c\<rparr>) = event_hash env e"
  by (simp_all add: event_hash_def event_data_def)

lemma event_hash_stored [simp]: "event_hash env (stored_event e) = event_hash env e"
proof -
  have "sorted_json (event_data env (stored_event e)) = sorted_json (event_data env e)"
    unfolding event_data_def stored_event_def by (rule sorted_json_values) simp
  then show ?thesis by (simp add: event_hash_def canonical_def stored_event_def)
qed

lemma stored_event_sel [simp]:
  "ev_hash (stored_event e) = ev_hash e" "ev_sequence (stored_event e) = ev_sequence e"
  "ev_prev_hash (stored_event e) = ev_prev_hash e" "ev_id (stored_event e) = ev_id e"
  "ev_workspace_id (stored_event e) = ev_workspace_id e"
  "ev_input_id (stored_event e) = ev_input_id e" "ev_cursor (stored_event e) = ev_cursor e"
  "ev_request_id (stored_event e) = ev_request_id e"
  "ev_request_hash (stored_event e) = ev_request_hash e"
  "ev_event_type (stored_event e) = ev_event_type e" "ev_version (stored_event e) = ev_version e"
  "ev_payload (stored_event e) = sorted_json (ev_payload e)"
  "ev_actor_kind (stored_event e) = ev_actor_kind e" "ev_actor (stored_event e) = ev_actor e"
  by (simp_all add: stored_event_def)

lemma stored_event_idem [simp]: "stored_event (stored_event e) = stored_event e"
  by (simp add: stored_event_def)

section \<open>Chains\<close>

text \<open>
  A chain from a hash and a number: consecutive sequence numbers, each event pointing at the
  hash before it and carrying its own.
\<close>

fun chain :: "input_env \<Rightarrow> string \<Rightarrow> int \<Rightarrow> input_event list \<Rightarrow> bool" where
  "chain env prev n [] = True"
| "chain env prev n (e # es) =
     (ev_sequence e = n + 1 \<and> ev_prev_hash e = prev \<and> ev_hash e = event_hash env e
      \<and> chain env (ev_hash e) (n + 1) es)"

definition last_hash :: "string \<Rightarrow> input_event list \<Rightarrow> string" where
  "last_hash prev es = (if es = [] then prev else ev_hash (last es))"

lemma chain_append:
  "chain env prev n (es @ fs) \<longleftrightarrow>
     chain env prev n es \<and> chain env (last_hash prev es) (n + int (length es)) fs"
  by (induction es arbitrary: prev n) (auto simp: last_hash_def algebra_simps)

lemma chain_sequences:
  "chain env prev n es \<Longrightarrow> map ev_sequence es = [n + 1..n + int (length es)]"
proof (induction es arbitrary: prev n)
  case (Cons e es)
  from Cons.prems have "chain env (ev_hash e) (n + 1) es" by auto
  then have "map ev_sequence es = [n + 1 + 1..n + 1 + int (length es)]" by (rule Cons.IH)
  moreover have "[n + 1..n + int (length (e # es))] = (n + 1) # [n + 1 + 1..n + 1 + int (length es)]"
    by (subst upto_rec1) (auto simp: algebra_simps)
  ultimately show ?case using Cons.prems by simp
qed simp

lemma chain_sorted: "chain env prev n es \<Longrightarrow> sorted (map ev_sequence es)"
  by (drule chain_sequences) simp

lemma chain_order_by: "chain env prev n es \<Longrightarrow> order_by ev_sequence es = es"
  by (simp add: order_by_def sort_key_id_if_sorted chain_sorted)

lemma insort_key_snoc: "(\<forall>x\<in>set xs. f x < f e) \<Longrightarrow> insort_key f e xs = xs @ [e]"
  by (induction xs) auto

lemma order_by_desc_rev:
  "sorted (map key es) \<Longrightarrow> distinct (map key es) \<Longrightarrow> order_by_desc key es = rev es"
proof (induction es)
  case (Cons e es)
  then have "\<forall>x\<in>set (rev es). - key x < - key e"
    by (auto simp: order_le_less)
  with Cons show ?case
    by (simp add: order_by_desc_def insort_key_snoc)
qed (simp add: order_by_desc_def)

lemma chain_last:
  assumes "chain env prev n es"
  shows "limit_one (order_by_desc ev_sequence es) = (if es = [] then None else Some (last es))"
proof -
  have "order_by_desc ev_sequence es = rev es"
    using assms by (intro order_by_desc_rev) (simp_all add: chain_sequences)
  then show ?thesis by (cases es rule: rev_cases) simp_all
qed

lemma verify_loop_chain:
  "chain env prev n es \<Longrightarrow> verify_loop env prev n es = Inr (n + int (length es), last_hash prev es)"
  by (induction es arbitrary: prev n) (auto simp: last_hash_def algebra_simps)

lemma verify_loop_InrD: "verify_loop env prev n es = Inr r \<Longrightarrow> chain env prev n es"
  by (induction es arbitrary: prev n) (auto split: if_splits)

end
