(* ===== verification/InputInvariant.thy ===== *)
theory InputInvariant
  imports InputChain
begin

text \<open>
  The invariant of the input ledger: the log of every input is a hash chain numbered from
  one, the versions of every input are numbered from one, the row of an input is the
  projection of its last event, unfinished availability generations belong to open inputs.
  Every operation of the ledger keeps it, and every operation only appends to the log and to
  the versions.
\<close>

section \<open>Definitions\<close>

definition versions_of :: "ledger \<Rightarrow> uuid \<Rightarrow> string \<Rightarrow> input_version_row list" where
  "versions_of lg w i = filter (\<lambda>v. vr_workspace_id v = w \<and> vr_input_id v = i) (lg_versions lg)"

text \<open>The keys and references of the tables.\<close>

definition keys_inv :: "ledger \<Rightarrow> bool" where
  "keys_inv lg =
     (distinct (map wi_id (lg_inputs lg))
      \<and> distinct (map (\<lambda>e. (ev_workspace_id e, ev_request_id e)) (lg_events lg))
      \<and> (\<forall>e\<in>set (lg_events lg). \<exists>r\<in>set (lg_inputs lg). is_input (ev_workspace_id e) (ev_input_id e) r)
      \<and> (\<forall>v\<in>set (lg_versions lg). \<exists>r\<in>set (lg_inputs lg). is_input (vr_workspace_id v) (vr_input_id v) r))"

text \<open>Cursors increase with the log, and the events are in their stored form.\<close>

definition events_inv :: "ledger \<Rightarrow> bool" where
  "events_inv lg =
     (sorted_wrt (<) (map ev_cursor (lg_events lg)) \<and> (\<forall>e\<in>set (lg_events lg). ev_cursor e \<le> lg_high_water lg \<and> stored_event e = e))"

text \<open>The log and the versions of one input.\<close>

definition log_inv :: "input_env \<Rightarrow> ledger \<Rightarrow> workspace_input \<Rightarrow> bool" where
  "log_inv env lg r =
     (let es = events_of lg (wi_workspace_id r) (wi_id r); vs = versions_of lg (wi_workspace_id r) (wi_id r)
      in chain env [] 0 es \<and> wi_sequence r = int (length es)
         \<and> map vr_version vs = [1..int (length vs)])"

text \<open>The row of an input is determined by its log.\<close>

definition known_status :: "string \<Rightarrow> bool" where
  "known_status s = (s \<in> {''open'', ''answered'', ''closed'', ''cancelled''})"

definition projection_inv :: "ledger \<Rightarrow> workspace_input \<Rightarrow> bool" where
  "projection_inv lg r =
     (let es = events_of lg (wi_workspace_id r) (wi_id r); vs = versions_of lg (wi_workspace_id r) (wi_id r)
      in es \<noteq> [] \<and> ev_version (last es) = wi_current_version r
         \<and> as_str (json_get (ev_payload (last es)) ''status'') = Some (wi_status r)
         \<and> wi_current_version r = int (length vs) \<and> vs \<noteq> []
         \<and> known_status (wi_status r))"

definition availability_inv :: "ledger \<Rightarrow> bool" where
  "availability_inv lg =
     (distinct (map av_generation (lg_availability lg))
      \<and> (\<forall>a\<in>set (lg_availability lg). av_finished_at a = None \<longrightarrow>
           (\<exists>r\<in>set (lg_inputs lg). is_input (av_workspace_id a) (av_input_id a) r
              \<and> wi_availability_generation r = Some (av_generation a) \<and> wi_status r = ''open'')))"

definition store_inv :: "input_env \<Rightarrow> ledger \<Rightarrow> bool" where
  "store_inv env lg =
     (keys_inv lg \<and> events_inv lg \<and> (\<forall>r\<in>set (lg_inputs lg). log_inv env lg r) \<and> availability_inv lg)"

definition ledger_inv :: "input_env \<Rightarrow> ledger \<Rightarrow> bool" where
  "ledger_inv env lg = (store_inv env lg \<and> (\<forall>r\<in>set (lg_inputs lg). projection_inv lg r))"

lemmas ledger_inv_defs = ledger_inv_def store_inv_def keys_inv_def events_inv_def

lemma ledger_inv_empty: "ledger_inv env (empty_ledger ws)"
  by (simp add: ledger_inv_defs availability_inv_def empty_ledger_def)

section \<open>Appending an event\<close>

text \<open>
  What every operation that writes an event does to the tables but the availability: it
  appends one event that continues the input's chain, possibly the next version, and moves
  the row of the input to the new event.
\<close>

definition appended ::
  "input_env \<Rightarrow> ledger \<Rightarrow> uuid \<Rightarrow> string \<Rightarrow> input_event \<Rightarrow> (workspace_input \<Rightarrow> workspace_input) \<Rightarrow> ledger \<Rightarrow> bool"
where
  "appended env lg w i e f lg' =
     (lg_events lg' = lg_events lg @ [e] \<and> stored_event e = e \<and> (\<forall>q\<in>set (lg_events lg). \<not> event_conflicts e q)
      \<and> ev_workspace_id e = w \<and> ev_input_id e = i
      \<and> ev_sequence e = int (length (events_of lg w i)) + 1
      \<and> ev_prev_hash e = prev_hash_of lg w i \<and> ev_hash e = event_hash env e
      \<and> ev_cursor e = lg_high_water lg + 1 \<and> lg_high_water lg' = lg_high_water lg + 1
      \<and> lg_inputs lg' = update_where (is_input w i) f (lg_inputs lg)
      \<and> (\<forall>r. wi_id (f r) = wi_id r \<and> wi_workspace_id (f r) = wi_workspace_id r)
      \<and> (\<forall>r\<in>set (lg_inputs lg). is_input w i r \<longrightarrow> wi_sequence (f r) = ev_sequence e
           \<and> wi_current_version (f r) = ev_version e
           \<and> as_str (json_get (ev_payload e) ''status'') = Some (wi_status (f r))
           \<and> known_status (wi_status (f r)))
      \<and> (lg_versions lg' = lg_versions lg
         \<or> (\<exists>v. lg_versions lg' = lg_versions lg @ [v] \<and> vr_workspace_id v = w \<and> vr_input_id v = i
              \<and> vr_version v = int (length (versions_of lg w i)) + 1))
      \<and> ev_version e = int (length (versions_of lg' w i)) \<and> versions_of lg' w i \<noteq> [])"

lemma events_of_append:
  "lg_events lg' = lg_events lg @ [e] \<Longrightarrow>
     events_of lg' w i = events_of lg w i @ (if ev_workspace_id e = w \<and> ev_input_id e = i then [e] else [])"
  by (simp add: events_of_def)

lemma versions_of_append:
  "lg_versions lg' = lg_versions lg @ [v] \<Longrightarrow>
     versions_of lg' w i = versions_of lg w i @ (if vr_workspace_id v = w \<and> vr_input_id v = i then [v] else [])"
  by (simp add: versions_of_def)

lemma is_input_iff: "is_input w i r \<longleftrightarrow> wi_workspace_id r = w \<and> wi_id r = i"
  by (simp add: is_input_def)

lemma prev_hash_last:
  assumes "chain env [] 0 (events_of lg w i)"
  shows "prev_hash_of lg w i = last_hash [] (events_of lg w i)"
  using chain_last [OF assms] by (simp add: prev_hash_of_def last_event_def last_hash_def)

lemma appended_input:
  assumes "appended env lg w i e f lg'" and "r' \<in> set (lg_inputs lg')"
  obtains r where "r \<in> set (lg_inputs lg)" "r' = (if is_input w i r then f r else r)"
    "wi_id r' = wi_id r" "wi_workspace_id r' = wi_workspace_id r"
  using assms by (auto simp: appended_def elim!: in_update_whereE)

lemma appended_versions_numbered:
  assumes "appended env lg w i e f lg'"
    and "map vr_version (versions_of lg x j) = [1..int (length (versions_of lg x j))]"
  shows "map vr_version (versions_of lg' x j) = [1..int (length (versions_of lg' x j))]"
proof (cases "lg_versions lg' = lg_versions lg")
  case True
  with assms(2) show ?thesis by (simp add: versions_of_def)
next
  case False
  with assms(1) obtain v where v: "lg_versions lg' = lg_versions lg @ [v]" "vr_workspace_id v = w"
      "vr_input_id v = i" "vr_version v = int (length (versions_of lg w i)) + 1"
    by (auto simp: appended_def)
  with assms(2) show ?thesis
    by (auto simp: versions_of_append [OF v(1)] upto_rec2 [of 1 "1 + int (length (versions_of lg x j))"]
        add.commute)
qed

lemma appended_log_inv:
  assumes ap: "appended env lg w i e f lg'" and logs: "\<forall>r\<in>set (lg_inputs lg). log_inv env lg r"
    and r': "r' \<in> set (lg_inputs lg')"
  shows "log_inv env lg' r'"
proof -
  obtain r where r: "r \<in> set (lg_inputs lg)" "r' = (if is_input w i r then f r else r)"
      "wi_id r' = wi_id r" "wi_workspace_id r' = wi_workspace_id r"
    using appended_input [OF ap r'] .
  note old = bspec [OF logs r(1), unfolded log_inv_def Let_def]
  have ev: "lg_events lg' = lg_events lg @ [e]" "ev_workspace_id e = w" "ev_input_id e = i"
      "ev_sequence e = int (length (events_of lg w i)) + 1"
      "ev_prev_hash e = prev_hash_of lg w i" "ev_hash e = event_hash env e"
    using ap by (simp_all add: appended_def)
  have seq: "is_input w i r \<Longrightarrow> wi_sequence (f r) = ev_sequence e"
    using ap r(1) by (simp add: appended_def)
  have "chain env [] 0 (events_of lg' (wi_workspace_id r) (wi_id r))"
    using old ev by (auto simp: events_of_append chain_append prev_hash_last)
  moreover have "wi_sequence r' = int (length (events_of lg' (wi_workspace_id r) (wi_id r)))"
    using old ev seq r(2) by (auto simp: events_of_append is_input_iff)
  ultimately show ?thesis
    using appended_versions_numbered [OF ap] old r(3,4) by (simp add: log_inv_def)
qed

lemma appended_projection_inv:
  assumes ap: "appended env lg w i e f lg'" and r': "r' \<in> set (lg_inputs lg')"
    and rows: "\<forall>r\<in>set (lg_inputs lg). is_input w i r \<or> projection_inv lg r"
  shows "projection_inv lg' r'"
proof -
  obtain r where r: "r \<in> set (lg_inputs lg)" "r' = (if is_input w i r then f r else r)"
      "wi_id r' = wi_id r" "wi_workspace_id r' = wi_workspace_id r"
    using appended_input [OF ap r'] .
  have ev: "lg_events lg' = lg_events lg @ [e]" "ev_workspace_id e = w" "ev_input_id e = i"
    using ap by (simp_all add: appended_def)
  show ?thesis
  proof (cases "is_input w i r")
    case True
    then show ?thesis
      using ap r by (auto simp: projection_inv_def events_of_append [OF ev(1)] is_input_iff appended_def)
  next
    case False
    then have other: "\<not> (w = wi_workspace_id r \<and> i = wi_id r)" by (auto simp: is_input_iff)
    have "versions_of lg' (wi_workspace_id r) (wi_id r) = versions_of lg (wi_workspace_id r) (wi_id r)"
      using ap other by (auto simp: appended_def versions_of_def)
    moreover have "events_of lg' (wi_workspace_id r) (wi_id r) = events_of lg (wi_workspace_id r) (wi_id r)"
      using ev other by (auto simp: events_of_append [OF ev(1)])
    moreover have "projection_inv lg r" "r' = r" using False rows r(1,2) by auto
    ultimately show ?thesis by (simp add: projection_inv_def)
  qed
qed

lemma appended_keys_inv:
  assumes ap: "appended env lg w i e f lg'" and keys: "keys_inv lg"
    and ex: "\<exists>r\<in>set (lg_inputs lg). is_input w i r"
  shows "keys_inv lg'"
proof -
  have ids: "map wi_id (lg_inputs lg') = map wi_id (lg_inputs lg)"
    using ap by (simp add: appended_def map_key_update_where)
  have pres: "\<exists>r\<in>set (lg_inputs lg). is_input x j r \<Longrightarrow> \<exists>r\<in>set (lg_inputs lg'). is_input x j r" for x j
  proof -
    assume "\<exists>r\<in>set (lg_inputs lg). is_input x j r"
    then obtain r where "r \<in> set (lg_inputs lg)" "is_input x j r" by blast
    moreover have "is_input x j (f r) \<longleftrightarrow> is_input x j r"
      using ap by (simp add: appended_def is_input_iff)
    ultimately show ?thesis
      using ap by (intro bexI [of _ "if is_input w i r then f r else r"])
        (simp_all add: appended_def set_update_where)
  qed
  have "\<forall>q\<in>set (lg_events lg). \<not> event_conflicts e q" "lg_events lg' = lg_events lg @ [e]"
      "ev_workspace_id e = w" "ev_input_id e = i"
    using ap by (simp_all add: appended_def)
  moreover have "\<exists>r\<in>set (lg_inputs lg'). is_input (vr_workspace_id v) (vr_input_id v) r"
    if "v \<in> set (lg_versions lg')" for v
  proof -
    have "v \<in> set (lg_versions lg) \<or> vr_workspace_id v = w \<and> vr_input_id v = i"
      using ap that by (auto simp: appended_def)
    with keys pres pres [OF ex] show ?thesis by (auto simp: keys_inv_def)
  qed
  ultimately show ?thesis
    using keys ids pres pres [OF ex] by (auto simp: keys_inv_def event_conflicts_def)
qed

lemma appended_events_inv:
  assumes ap: "appended env lg w i e f lg'" and "events_inv lg"
  shows "events_inv lg'"
  using assms by (fastforce simp: events_inv_def appended_def sorted_wrt_append)


section \<open>The write transaction appends\<close>

text \<open>What the first half of a write promises to the second.\<close>

definition prepared_ok :: "ledger \<Rightarrow> uuid \<Rightarrow> prepared \<Rightarrow> bool" where
  "prepared_ok lg w prep =
     ((\<exists>r\<in>set (lg_inputs lg). is_input w (wi_id (pr_input prep)) r
         \<and> wi_sequence (pr_input prep) = wi_sequence r)
      \<and> wi_current_version (pr_input prep)
          = int (length (versions_of lg w (wi_id (pr_input prep))))
            + (if pr_content prep = None then 0 else 1)
      \<and> 1 \<le> wi_current_version (pr_input prep)
      \<and> known_status (wi_status (pr_input prep))
      \<and> (\<exists>es. pr_payload prep = JObj es))"

definition commit_row :: "prepared \<Rightarrow> string \<Rightarrow> string \<Rightarrow> workspace_input \<Rightarrow> workspace_input" where
  "commit_row prep now event_id r =
     (let s = r\<lparr>wi_current_version := wi_current_version (pr_input prep),
                 wi_status := wi_status (pr_input prep),
                 wi_sequence := wi_sequence (pr_input prep) + 1, wi_updated_at := now,
                 wi_priority := wi_priority (pr_input prep), wi_show_at := wi_show_at (pr_input prep)\<rparr>
      in if pr_new_generation prep then s\<lparr>wi_availability_generation := Some event_id\<rparr> else s)"

lemma commit_row_sel [simp]:
  "wi_id (commit_row prep now ev r) = wi_id r"
  "wi_workspace_id (commit_row prep now ev r) = wi_workspace_id r"
  "wi_sequence (commit_row prep now ev r) = wi_sequence (pr_input prep) + 1"
  "wi_current_version (commit_row prep now ev r) = wi_current_version (pr_input prep)"
  "wi_status (commit_row prep now ev r) = wi_status (pr_input prep)"
  "wi_availability_generation (commit_row prep now ev r) =
     (if pr_new_generation prep then Some ev else wi_availability_generation r)"
  by (simp_all add: commit_row_def Let_def)

lemma insert_event_Inr:
  "insert_event env lg e = Inr (e', lg') \<longleftrightarrow>
     e' = e\<lparr>ev_hash := event_hash env e, ev_cursor := lg_high_water lg + 1\<rparr>
     \<and> \<not> (\<exists>q\<in>set (lg_events lg). event_conflicts e' q)
     \<and> lg' = lg\<lparr>lg_events := lg_events lg @ [stored_event e'], lg_high_water := lg_high_water lg + 1\<rparr>"
  by (auto simp: insert_event_def Let_def)

lemma insert_event_hash: "insert_event env lg e = Inr (e', lg') \<Longrightarrow> ev_hash e' = event_hash env e'"
  by (simp add: insert_event_Inr)

lemma insert_version_Inr:
  "insert_version env lg w input content = Inr lg' \<Longrightarrow>
     \<exists>v. lg' = lg\<lparr>lg_versions := lg_versions lg @ [v]\<rparr> \<and> vr_workspace_id v = w
       \<and> vr_input_id v = wi_id input \<and> vr_version v = wi_current_version input
       \<and> vr_title v = ct_title content \<and> vr_html v = ct_html content \<and> vr_contract v = ct_contract content"
  by (auto simp: insert_version_def split: if_splits)

lemma start_generation_Inr:
  "start_generation lg w input event_id now = Inr lg' \<Longrightarrow>
     lg_events lg' = lg_events lg \<and> lg_versions lg' = lg_versions lg
     \<and> lg_high_water lg' = lg_high_water lg \<and> lg_workspaces lg' = lg_workspaces lg
     \<and> lg_inputs lg' = update_where (is_input w (wi_id input))
          (\<lambda>r. r\<lparr>wi_availability_generation := Some event_id\<rparr>) (lg_inputs lg)"
  by (auto simp: start_generation_def Let_def split: if_splits)

text \<open>The two states between the steps of a committed write.\<close>

lemma commit_write_steps:
  assumes "commit_write env w kind actor rid rh now fe prep lg = Inr (rc, lg')"
    and "input = (pr_input prep)\<lparr>wi_sequence := wi_sequence (pr_input prep) + 1\<rparr>"
    and "payload = json_set ''show_at'' (json_opt_str (wi_show_at input))
      (json_set ''status'' (JStr (wi_status input)) (pr_payload prep))"
  obtains lg1 e lg2 lg4 where
    "(case pr_content prep of None \<Rightarrow> Inr lg | Some c \<Rightarrow> insert_version env lg w input c) = Inr lg1"
    "insert_event env lg1 (write_event lg1 w input kind actor (pr_event_type prep) payload rid rh now fe)
       = Inr (e, lg2)"
    "lg4 = (if pr_new_generation prep \<or> wi_status input \<noteq> ''open''
       then finish_open_availability (update_input lg2 w input now) w (wi_id input) now
       else update_input lg2 w input now)"
    "(if pr_new_generation prep then start_generation lg4 w input (ev_id e) now else Inr lg4) = Inr lg'"
    "rc = receipt env e (wi_status input)"
proof -
  obtain lg1 p where 1:
    "(case pr_content prep of None \<Rightarrow> Inr lg | Some c \<Rightarrow> insert_version env lg w input c) = Inr lg1"
    "insert_event env lg1 (write_event lg1 w input kind actor (pr_event_type prep) payload rid rh now fe) = Inr p"
    and 2: "(case p of (event, lg2) \<Rightarrow>
       bind_err (if pr_new_generation prep then start_generation
           (if pr_new_generation prep \<or> wi_status input \<noteq> ''open''
            then finish_open_availability (update_input lg2 w input now) w (wi_id input) now
            else update_input lg2 w input now) w input (ev_id event) now
         else Inr (if pr_new_generation prep \<or> wi_status input \<noteq> ''open''
            then finish_open_availability (update_input lg2 w input now) w (wi_id input) now
            else update_input lg2 w input now))
         (\<lambda>lg5. Inr (receipt env event (wi_status input), lg5))) = Inr (rc, lg')"
    using assms(1) unfolding commit_write_def Let_def assms(2) [symmetric] assms(3) [symmetric] bind_err_Inr_iff
    by blast
  obtain e lg2 where p: "p = (e, lg2)" by (cases p)
  show thesis
    by (rule that [OF 1(1) 1(2) [unfolded p] refl])
      (use 2 p in \<open>simp_all only: prod.case bind_err_Inr_iff sum.inject prod.inject, blast+\<close>)
qed

text \<open>The shape of a committed write.\<close>

lemma commit_write_shape:
  assumes "commit_write env w kind actor rid rh now fe prep lg = Inr (rc, lg')"
  obtains e where
    "lg_events lg' = lg_events lg @ [stored_event e]"
    "rc = receipt env e (wi_status (pr_input prep))"
    "\<forall>q\<in>set (lg_events lg). \<not> event_conflicts e q"
    "ev_workspace_id e = w" "ev_input_id e = wi_id (pr_input prep)" "ev_id e = fe"
    "ev_sequence e = wi_sequence (pr_input prep) + 1" "ev_request_id e = rid" "ev_request_hash e = rh"
    "ev_prev_hash e = prev_hash_of lg w (wi_id (pr_input prep))" "ev_hash e = event_hash env e"
    "ev_cursor e = lg_high_water lg + 1" "lg_high_water lg' = lg_high_water lg + 1"
    "ev_version e = wi_current_version (pr_input prep)"
    "ev_payload e = json_set ''show_at'' (json_opt_str (wi_show_at (pr_input prep)))
       (json_set ''status'' (JStr (wi_status (pr_input prep))) (pr_payload prep))"
    "ev_event_type e = pr_event_type prep" "ev_actor_kind e = actor_kind_str kind" "ev_actor e = actor"
    "lg_inputs lg' = update_where (is_input w (wi_id (pr_input prep))) (commit_row prep now fe) (lg_inputs lg)"
    "lg_workspaces lg' = lg_workspaces lg"
    "case pr_content prep of None \<Rightarrow> lg_versions lg' = lg_versions lg
     | Some c \<Rightarrow> \<exists>v. lg_versions lg' = lg_versions lg @ [v] \<and> vr_workspace_id v = w
         \<and> vr_input_id v = wi_id (pr_input prep) \<and> vr_version v = wi_current_version (pr_input prep)
         \<and> vr_title v = ct_title c \<and> vr_html v = ct_html c \<and> vr_contract v = ct_contract c"
proof -
  define input where "input = (pr_input prep)\<lparr>wi_sequence := wi_sequence (pr_input prep) + 1\<rparr>"
  define payload where "payload = json_set ''show_at'' (json_opt_str (wi_show_at input))
      (json_set ''status'' (JStr (wi_status input)) (pr_payload prep))"
  obtain lg1 e lg2 lg4 where
    v: "(case pr_content prep of None \<Rightarrow> Inr lg | Some c \<Rightarrow> insert_version env lg w input c) = Inr lg1"
    and e: "insert_event env lg1 (write_event lg1 w input kind actor (pr_event_type prep) payload rid rh now fe)
         = Inr (e, lg2)"
    and lg4: "lg4 = (if pr_new_generation prep \<or> wi_status input \<noteq> ''open''
       then finish_open_availability (update_input lg2 w input now) w (wi_id input) now
       else update_input lg2 w input now)"
    and g: "(if pr_new_generation prep then start_generation lg4 w input (ev_id e) now else Inr lg4) = Inr lg'"
    and rc: "rc = receipt env e (wi_status input)"
    using commit_write_steps [OF assms input_def payload_def] .
  have vs: "lg_events lg1 = lg_events lg" "lg_inputs lg1 = lg_inputs lg"
      "lg_workspaces lg1 = lg_workspaces lg" "lg_high_water lg1 = lg_high_water lg"
    using v by (auto split: option.splits dest!: insert_version_Inr)
  have ver: "case pr_content prep of None \<Rightarrow> lg_versions lg1 = lg_versions lg
     | Some c \<Rightarrow> \<exists>v. lg_versions lg1 = lg_versions lg @ [v] \<and> vr_workspace_id v = w
         \<and> vr_input_id v = wi_id (pr_input prep) \<and> vr_version v = wi_current_version (pr_input prep)
         \<and> vr_title v = ct_title c \<and> vr_html v = ct_html c \<and> vr_contract v = ct_contract c"
    using v by (auto split: option.splits dest!: insert_version_Inr simp: input_def)
  have fe: "ev_id e = fe" using e by (simp add: insert_event_Inr write_event_def)
  have prev: "prev_hash_of lg1 w j = prev_hash_of lg w j" for j
    using vs by (simp add: prev_hash_of_def last_event_def events_of_def)
  have gen: "lg_events lg' = lg_events lg2 \<and> lg_versions lg' = lg_versions lg2
      \<and> lg_high_water lg' = lg_high_water lg2 \<and> lg_workspaces lg' = lg_workspaces lg2
      \<and> lg_inputs lg' = update_where (is_input w (wi_id (pr_input prep))) (commit_row prep now fe) (lg_inputs lg2)"
    using g fe lg4 by (auto dest!: start_generation_Inr split: if_splits
        simp: update_input_def finish_open_availability_def commit_row_def input_def update_where_def is_input_def)
  have sel: "ev_workspace_id e = w" "ev_input_id e = wi_id (pr_input prep)"
      "ev_sequence e = wi_sequence (pr_input prep) + 1" "ev_request_id e = rid" "ev_request_hash e = rh"
      "ev_prev_hash e = prev_hash_of lg w (wi_id (pr_input prep))"
      "ev_cursor e = lg_high_water lg + 1" "ev_version e = wi_current_version (pr_input prep)"
      "ev_payload e = json_set ''show_at'' (json_opt_str (wi_show_at (pr_input prep)))
         (json_set ''status'' (JStr (wi_status (pr_input prep))) (pr_payload prep))"
      "ev_event_type e = pr_event_type prep" "ev_actor_kind e = actor_kind_str kind" "ev_actor e = actor"
    using e vs prev by (simp_all add: insert_event_Inr write_event_def input_def payload_def)
  note ins = e [unfolded insert_event_Inr vs]
  have "\<forall>q\<in>set (lg_events lg). \<not> event_conflicts e q" using ins by blast
  moreover have "lg2 = lg1\<lparr>lg_events := lg_events lg @ [stored_event e], lg_high_water := lg_high_water lg + 1\<rparr>"
    using ins by blast
  ultimately show ?thesis
    using gen rc vs ver sel fe insert_event_hash [OF e]
    by (intro that [of e]) (simp_all add: input_def split: option.splits)
qed


lemma commit_write_appended:
  assumes cw: "commit_write env w kind actor rid rh now fe prep lg = Inr (rc, lg')"
    and ok: "prepared_ok lg w prep" and st: "store_inv env lg"
  shows "\<exists>e. appended env lg w (wi_id (pr_input prep)) (stored_event e) (commit_row prep now fe) lg'
    \<and> rc = receipt env e (wi_status (pr_input prep))"
proof -
  let ?i = "wi_id (pr_input prep)"
  obtain e where e:
    "lg_events lg' = lg_events lg @ [stored_event e]"
    "rc = receipt env e (wi_status (pr_input prep))"
    "\<forall>q\<in>set (lg_events lg). \<not> event_conflicts e q"
    "ev_workspace_id e = w" "ev_input_id e = ?i"
    "ev_sequence e = wi_sequence (pr_input prep) + 1"
    "ev_prev_hash e = prev_hash_of lg w ?i" "ev_hash e = event_hash env e"
    "ev_cursor e = lg_high_water lg + 1" "lg_high_water lg' = lg_high_water lg + 1"
    "ev_version e = wi_current_version (pr_input prep)"
    "ev_payload e = json_set ''show_at'' (json_opt_str (wi_show_at (pr_input prep)))
       (json_set ''status'' (JStr (wi_status (pr_input prep))) (pr_payload prep))"
    "lg_inputs lg' = update_where (is_input w ?i) (commit_row prep now fe) (lg_inputs lg)"
    and v: "case pr_content prep of None \<Rightarrow> lg_versions lg' = lg_versions lg
     | Some c \<Rightarrow> \<exists>v. lg_versions lg' = lg_versions lg @ [v] \<and> vr_workspace_id v = w
         \<and> vr_input_id v = ?i \<and> vr_version v = wi_current_version (pr_input prep)
         \<and> vr_title v = ct_title c \<and> vr_html v = ct_html c \<and> vr_contract v = ct_contract c"
    by (rule commit_write_shape [OF cw]) (rule that; assumption)
  obtain r es where r: "r \<in> set (lg_inputs lg)" "is_input w ?i r"
      "wi_sequence (pr_input prep) = wi_sequence r" "pr_payload prep = JObj es"
    using ok by (auto simp: prepared_ok_def)
  have seq: "ev_sequence e = int (length (events_of lg w ?i)) + 1"
    using st r e(6) by (auto simp: store_inv_def log_inv_def is_input_iff Let_def)
  have "as_str (json_get (ev_payload e) ''status'') = Some (wi_status (pr_input prep))"
    by (simp add: e(12) r(4) json_set_def json_get_def map_of_entries_set)
  then have status: "as_str (json_get (sorted_json (ev_payload e)) ''status'')
      = Some (wi_status (pr_input prep))"
    by (rule as_str_sorted)
  have vers: "wi_current_version (pr_input prep) = int (length (versions_of lg' w ?i))
      \<and> versions_of lg' w ?i \<noteq> []
      \<and> (lg_versions lg' = lg_versions lg
         \<or> (\<exists>v. lg_versions lg' = lg_versions lg @ [v] \<and> vr_workspace_id v = w \<and> vr_input_id v = ?i
              \<and> vr_version v = int (length (versions_of lg w ?i)) + 1))"
    using v ok by (cases "pr_content prep") (auto simp: prepared_ok_def versions_of_def)
  have "\<forall>q\<in>set (lg_events lg). \<not> event_conflicts (stored_event e) q"
    using e(3) by (simp add: event_conflicts_def)
  with e seq status vers ok show ?thesis
    by (intro exI [of _ e]) (simp add: appended_def prepared_ok_def)
qed

section \<open>Availability\<close>

lemma availability_inv_update:
  assumes inv: "availability_inv lg"
    and inputs: "\<And>r. r \<in> set (lg_inputs lg) \<Longrightarrow> \<exists>s\<in>set (lg_inputs lg').
      is_input (wi_workspace_id r) (wi_id r) s \<and> wi_availability_generation s = wi_availability_generation r
      \<and> wi_status s = wi_status r"
    and avs: "lg_availability lg' = update_where p f (lg_availability lg)"
    and f: "\<And>a. av_generation (f a) = av_generation a \<and> av_workspace_id (f a) = av_workspace_id a
      \<and> av_input_id (f a) = av_input_id a \<and> (av_finished_at (f a) = None \<longrightarrow> av_finished_at a = None)"
  shows "availability_inv lg'"
proof -
  have "map av_generation (lg_availability lg') = map av_generation (lg_availability lg)"
    using avs f by (simp add: map_key_update_where)
  moreover have "\<exists>r\<in>set (lg_inputs lg'). is_input (av_workspace_id b) (av_input_id b) r
      \<and> wi_availability_generation r = Some (av_generation b) \<and> wi_status r = ''open''"
    if b: "b \<in> set (lg_availability lg')" "av_finished_at b = None" for b
  proof -
    obtain a where a: "a \<in> set (lg_availability lg)" "b = a \<or> b = f a"
      using b(1) unfolding avs by (rule in_update_whereE) blast+
    then have "av_finished_at a = None" "av_generation b = av_generation a"
        "av_workspace_id b = av_workspace_id a" "av_input_id b = av_input_id a"
      using b(2) f by auto
    with inv a(1) inputs show ?thesis by (fastforce simp: availability_inv_def is_input_iff)
  qed
  ultimately show ?thesis using inv by (simp add: availability_inv_def)
qed

lemma commit_write_availability:
  assumes cw: "commit_write env w kind actor rid rh now fe prep lg = Inr (rc, lg')"
  shows "lg_availability lg' =
    (if pr_new_generation prep \<or> wi_status (pr_input prep) \<noteq> ''open''
     then update_where (\<lambda>a. av_workspace_id a = w \<and> av_input_id a = wi_id (pr_input prep) \<and> av_finished_at a = None)
        (\<lambda>a. a\<lparr>av_finished_at := Some now\<rparr>) (lg_availability lg) else lg_availability lg)
    @ (if pr_new_generation prep \<and> wi_status (pr_input prep) = ''open'' then
        [\<lparr>av_generation = fe, av_workspace_id = w, av_input_id = wi_id (pr_input prep),
          av_available_event_id = (if (case wi_show_at (pr_input prep) of None \<Rightarrow> True | Some t \<Rightarrow> t \<le> now)
            then Some fe else None),
          av_claim_token = None, av_claim_until = None, av_finished_at = None\<rparr>] else [])
    \<and> (pr_new_generation prep \<and> wi_status (pr_input prep) = ''open'' \<longrightarrow>
        fe \<notin> set (map av_generation (lg_availability lg)))"
proof -
  define input where "input = (pr_input prep)\<lparr>wi_sequence := wi_sequence (pr_input prep) + 1\<rparr>"
  define payload where "payload = json_set ''show_at'' (json_opt_str (wi_show_at input))
      (json_set ''status'' (JStr (wi_status input)) (pr_payload prep))"
  obtain lg1 e lg2 lg4 where
    v: "(case pr_content prep of None \<Rightarrow> Inr lg | Some c \<Rightarrow> insert_version env lg w input c) = Inr lg1"
    and e: "insert_event env lg1 (write_event lg1 w input kind actor (pr_event_type prep) payload rid rh now fe)
         = Inr (e, lg2)"
    and lg4: "lg4 = (if pr_new_generation prep \<or> wi_status input \<noteq> ''open''
       then finish_open_availability (update_input lg2 w input now) w (wi_id input) now
       else update_input lg2 w input now)"
    and g: "(if pr_new_generation prep then start_generation lg4 w input (ev_id e) now else Inr lg4) = Inr lg'"
    using commit_write_steps [OF cw input_def payload_def] .
  have "lg_availability lg1 = lg_availability lg"
    using v by (auto split: option.splits dest!: insert_version_Inr)
  moreover have "lg_availability lg2 = lg_availability lg1" "ev_id e = fe"
    using e by (auto simp: insert_event_Inr write_event_def)
  ultimately have av2: "lg_availability lg2 = lg_availability lg" "ev_id e = fe" by simp_all
  have gens: "(\<exists>a\<in>set (update_where p (\<lambda>a. a\<lparr>av_finished_at := Some now\<rparr>) rows). av_generation a = g)
      \<longleftrightarrow> (\<exists>a\<in>set rows. av_generation a = g)" for p rows g
    by (simp add: bex_update_where if_distrib [of av_generation])
  show ?thesis
    using g lg4 av2
    by (auto simp: start_generation_def Let_def update_input_def finish_open_availability_def input_def gens
        split: if_splits)
qed


lemma commit_write_availability_inv:
  assumes cw: "commit_write env w kind actor rid rh now fe prep lg = Inr (rc, lg')"
    and inv: "availability_inv lg"
    and inputs: "lg_inputs lg' = update_where (is_input w (wi_id (pr_input prep))) (commit_row prep now fe) (lg_inputs lg)"
    and ex: "\<exists>r\<in>set (lg_inputs lg). is_input w (wi_id (pr_input prep)) r"
  shows "availability_inv lg'"
proof -
  let ?i = "wi_id (pr_input prep)"
  let ?closing = "pr_new_generation prep \<or> wi_status (pr_input prep) \<noteq> ''open''"
  let ?old = "if ?closing then update_where (\<lambda>a. av_workspace_id a = w \<and> av_input_id a = ?i \<and> av_finished_at a = None)
      (\<lambda>a. a\<lparr>av_finished_at := Some now\<rparr>) (lg_availability lg) else lg_availability lg"
  let ?fresh = "pr_new_generation prep \<and> wi_status (pr_input prep) = ''open''"
  note av = commit_write_availability [OF cw]
  have gens: "map av_generation ?old = map av_generation (lg_availability lg)"
    by (simp add: map_key_update_where)
  have new: "\<exists>r\<in>set (lg_inputs lg'). is_input w ?i r \<and> wi_availability_generation r =
      (if pr_new_generation prep then Some fe else wi_availability_generation q)
      \<and> wi_status r = wi_status (pr_input prep)"
    if "q \<in> set (lg_inputs lg)" "is_input w ?i q" for q
    by (rule bexI [of _ "commit_row prep now fe q"])
      (use that in \<open>auto simp: inputs set_update_where is_input_iff\<close>)
  have old: "\<exists>r\<in>set (lg_inputs lg'). is_input (av_workspace_id a) (av_input_id a) r
      \<and> wi_availability_generation r = Some (av_generation a) \<and> wi_status r = ''open''"
    if a: "a \<in> set ?old" "av_finished_at a = None" for a
  proof -
    have mem: "a \<in> set (lg_availability lg) \<and> \<not> (?closing \<and> av_workspace_id a = w \<and> av_input_id a = ?i)"
    proof (cases ?closing)
      case True
      then have "a \<in> set (update_where (\<lambda>a. av_workspace_id a = w \<and> av_input_id a = ?i \<and> av_finished_at a = None)
          (\<lambda>a. a\<lparr>av_finished_at := Some now\<rparr>) (lg_availability lg))"
        using a(1) by simp
      then show ?thesis by (rule in_update_whereE) (use a(2) in auto)
    next
      case False
      then show ?thesis using a(1) by simp
    qed
    then obtain q where q: "q \<in> set (lg_inputs lg)" "is_input (av_workspace_id a) (av_input_id a) q"
        "wi_availability_generation q = Some (av_generation a)" "wi_status q = ''open''"
      using inv a(2) by (auto simp: availability_inv_def)
    show ?thesis
    proof (cases "av_workspace_id a = w \<and> av_input_id a = ?i")
      case True
      with mem q new [of q] show ?thesis by auto
    next
      case False
      with q(2) have "\<not> is_input w ?i q" by (auto simp: is_input_iff)
      with q show ?thesis
        by (intro bexI [of _ q]) (auto simp: inputs set_update_where)
    qed
  qed
  have "distinct (map av_generation (lg_availability lg'))"
  proof (cases ?fresh)
    case True
    have "distinct (map av_generation ?old @ [fe])"
      unfolding gens using av True inv by (simp add: availability_inv_def)
    with av True show ?thesis by simp
  next
    case False
    then have "lg_availability lg' = ?old" using av by simp
    then show ?thesis using gens inv by (simp only: availability_inv_def)
  qed
  moreover have "\<exists>r\<in>set (lg_inputs lg'). is_input (av_workspace_id a) (av_input_id a) r
      \<and> wi_availability_generation r = Some (av_generation a) \<and> wi_status r = ''open''"
    if a: "a \<in> set (lg_availability lg')" "av_finished_at a = None" for a
  proof (cases "a \<in> set ?old")
    case True
    then show ?thesis using a(2) by (rule old)
  next
    case False
    with a av have "?fresh" "av_generation a = fe" "av_workspace_id a = w" "av_input_id a = ?i"
      by (auto split: if_splits)
    with ex new show ?thesis by auto
  qed
  ultimately show ?thesis by (simp add: availability_inv_def)
qed

lemma commit_write_inv:
  assumes cw: "commit_write env w kind actor rid rh now fe prep lg = Inr (rc, lg')"
    and ok: "prepared_ok lg w prep" and st: "store_inv env lg"
    and rows: "\<forall>r\<in>set (lg_inputs lg). is_input w (wi_id (pr_input prep)) r \<or> projection_inv lg r"
  shows "ledger_inv env lg'"
proof -
  obtain e where ap: "appended env lg w (wi_id (pr_input prep)) (stored_event e) (commit_row prep now fe) lg'"
    using commit_write_appended [OF cw ok st] by blast
  have ex: "\<exists>r\<in>set (lg_inputs lg). is_input w (wi_id (pr_input prep)) r"
    using ok by (auto simp: prepared_ok_def)
  have "keys_inv lg'" "events_inv lg'" "\<forall>r\<in>set (lg_inputs lg'). log_inv env lg' r"
      "\<forall>r\<in>set (lg_inputs lg'). projection_inv lg' r"
    using st rows by (auto simp: store_inv_def intro: appended_keys_inv [OF ap _ ex] appended_events_inv [OF ap]
        appended_log_inv [OF ap] appended_projection_inv [OF ap])
  moreover have "availability_inv lg'"
    using st ap ex by (intro commit_write_availability_inv [OF cw]) (simp_all add: store_inv_def appended_def)
  ultimately show ?thesis by (simp add: ledger_inv_def store_inv_def)
qed

section \<open>The first half of a write\<close>

lemma ledger_inv_input:
  assumes "ledger_inv env lg" and "r \<in> set (lg_inputs lg)"
  shows "log_inv env lg r" and "projection_inv lg r"
  using assms by (simp_all add: ledger_inv_def store_inv_def)

lemma find_input_Some: "find_input lg w i = Some r \<Longrightarrow> r \<in> set (lg_inputs lg) \<and> is_input w i r"
  by (auto simp: find_input_def dest: select_one_Some)

lemmas prepare_defs = prepare_publish_def prepare_snooze_def prepare_answer_def prepare_status_def
  prepare_undo_def

text \<open>An operation on an existing input keeps the identity, the creator and the sequence of its row.\<close>

definition same_row :: "workspace_input \<Rightarrow> prepared \<Rightarrow> bool" where
  "same_row r prep =
     (wi_id (pr_input prep) = wi_id r \<and> wi_workspace_id (pr_input prep) = wi_workspace_id r
      \<and> wi_creator (pr_input prep) = wi_creator r \<and> wi_sequence (pr_input prep) = wi_sequence r
      \<and> wi_current_version (pr_input prep) = wi_current_version r + (if pr_content prep = None then 0 else 1)
      \<and> known_status (wi_status (pr_input prep))
      \<and> (\<exists>es. pr_payload prep = JObj es))"

lemma known_status_simps [simp]:
  "known_status ''open''" "known_status ''answered''" "known_status ''closed''" "known_status ''cancelled''"
  by (simp_all add: known_status_def)

lemma live_status_known: "live_status s \<Longrightarrow> known_status s"
  by (auto simp: live_status_def known_status_def)

lemma prepare_publish_row:
  assumes "prepare_publish env kind q r = Inr prep"
  shows "same_row r prep"
proof -
  define priority where "priority = (case pb_priority q of Some p \<Rightarrow> Some p
      | None \<Rightarrow> title_priority (ct_title (pb_content q)))"
  define input1 where "input1 = (case priority of None \<Rightarrow> r | Some p \<Rightarrow> r\<lparr>wi_priority := p\<rparr>)"
  have "wi_id input1 = wi_id r" "wi_workspace_id input1 = wi_workspace_id r" "wi_creator input1 = wi_creator r"
      "wi_sequence input1 = wi_sequence r" "wi_current_version input1 = wi_current_version r"
      "wi_status input1 = wi_status r"
    by (simp_all add: input1_def split: option.split)
  moreover have "live_status (wi_status r)" and "\<exists>show_at. prep =
      \<lparr>pr_input = (if pb_request_answer q
          then input1\<lparr>wi_show_at := show_at, wi_current_version := wi_current_version input1 + 1, wi_status := ''open''\<rparr>
          else input1\<lparr>wi_show_at := show_at, wi_current_version := wi_current_version input1 + 1\<rparr>),
       pr_event_type = ''version_published'',
       pr_payload = JObj [(''content'', content_json (pb_content q)), (''request_answer'', JBool (pb_request_answer q))],
       pr_content = Some (pb_content q),
       pr_new_generation = (pb_show_at q \<noteq> None \<or> (pb_request_answer q \<and> wi_status input1 = ''answered''))\<rparr>"
    using assms
    unfolding prepare_publish_def Let_def priority_def [symmetric] input1_def [symmetric] result_iffs
    by auto
  ultimately show ?thesis
    by (cases "pb_request_answer q") (auto simp: same_row_def live_status_known)
qed

lemma prepare_snooze_row:
  assumes "prepare_snooze env kind q r = Inr prep"
  shows "same_row r prep"
  using assms by (auto simp: prepare_snooze_def result_iffs same_row_def)

lemma prepare_answer_row:
  assumes "prepare_answer env lg w i kind q r = Inr prep"
  shows "same_row r prep"
proof -
  obtain no_answer payload where "wi_status r = ''open''"
      "prep = \<lparr>pr_input = (if no_answer then r else r\<lparr>wi_status := ''answered''\<rparr>),
        pr_event_type = ''answer_submitted'', pr_payload = JObj payload, pr_content = None,
        pr_new_generation = False\<rparr>"
    using assms unfolding prepare_answer_def result_iffs by blast
  then show ?thesis by (cases no_answer) (simp_all add: same_row_def)
qed

lemma prepare_status_row:
  assumes "prepare_status kind q r = Inr prep"
  shows "same_row r prep"
proof -
  have "st_status q \<in> {''closed'', ''cancelled''}"
    using assms unfolding prepare_status_def result_iffs by blast
  then have "known_status (st_status q)" by (auto simp: known_status_def)
  with assms show ?thesis
    unfolding prepare_status_def result_iffs Let_def by (auto simp: same_row_def)
qed

lemma prepare_undo_row:
  assumes "prepare_undo lg w i kind actor r = Inr prep"
  shows "same_row r prep"
proof -
  obtain prior and lst :: input_event and version :: input_version_row where 1: "(case as_str (json_get (ev_payload lst) ''prior_status'') of
         None \<Rightarrow> Inl (Code ''INVALID_TRANSITION'')
       | Some s \<Rightarrow> if live_status s then Inr s else Inl (Code ''INVALID_TRANSITION'')) = Inr prior"
    and 2: "prep = \<lparr>pr_input = r\<lparr>wi_status := prior, wi_current_version := wi_current_version r + 1\<rparr>,
        pr_event_type = ''version_published'',
        pr_payload = JObj [(''undo_event_id'', JStr (ev_id lst)),
          (''content'', content_json \<lparr>ct_title = vr_title version, ct_html = vr_html version,
             ct_contract = vr_contract version\<rparr>)],
        pr_content = Some \<lparr>ct_title = vr_title version, ct_html = vr_html version,
             ct_contract = vr_contract version\<rparr>, pr_new_generation = (prior = ''open'')\<rparr>"
    using assms unfolding prepare_undo_def result_iffs Let_def
    by (elim exE conjE) (rule that, assumption, erule sum.inject(2) [THEN iffD1, symmetric])
  from 1 have "live_status prior" by (auto split: option.splits if_splits)
  with 2 show ?thesis by (simp add: same_row_def live_status_known)
qed

lemma prepare_existing_Inr:
  assumes "prepare_existing env lg w iid kind actor wr = Inr (prep, lg1)"
  obtains i r where "iid = Some i" "r \<in> set (lg_inputs lg)" "is_input w i r" "find_input lg w i = Some r"
    "wi_sequence r = snd (write_key wr)" "kind = AgentMcp \<longrightarrow> wi_creator r = actor"
    "same_row r prep" "lg1 = lg"
proof -
  obtain i r where i: "iid = Some i" "find_input lg w i = Some r" "wi_sequence r = snd (write_key wr)"
      "kind = AgentMcp \<longrightarrow> wi_creator r = actor" "lg1 = lg"
    and c: "(case wr of
         Publish request \<Rightarrow> prepare_publish env kind request r
       | Snooze request \<Rightarrow> prepare_snooze env kind request r
       | Answer request \<Rightarrow> prepare_answer env lg w i kind request r
       | Status request \<Rightarrow> prepare_status kind request r
       | Undo _ \<Rightarrow> prepare_undo lg w i kind actor r
       | Create _ \<Rightarrow> Inl (Database DbError)) = Inr prep"
    using assms by (auto simp: prepare_existing_def result_iffs get_input_def)
  have "same_row r prep"
    using c by (cases wr) (auto intro: prepare_publish_row prepare_snooze_row prepare_answer_row
        prepare_status_row prepare_undo_row)
  with i find_input_Some [OF i(2)] show thesis by (intro that [of i r]) auto
qed

lemma prepare_existing_ok:
  assumes pe: "prepare_existing env lg w iid kind actor wr = Inr (prep, lg1)" and inv: "ledger_inv env lg"
  shows "lg1 = lg \<and> prepared_ok lg w prep"
proof -
  obtain i r where r: "r \<in> set (lg_inputs lg)" "is_input w i r" "same_row r prep" "lg1 = lg"
    using prepare_existing_Inr [OF pe] .
  then have "wi_current_version r = int (length (versions_of lg w (wi_id r)))" "1 \<le> wi_current_version r"
    using ledger_inv_input(2) [OF inv r(1)] by (auto simp: projection_inv_def is_input_iff Let_def Suc_le_eq)
  with r show ?thesis by (auto simp: prepared_ok_def same_row_def is_input_iff)
qed


lemma store_inv_new_input:
  assumes st: "store_inv env lg" and fresh: "\<forall>r\<in>set (lg_inputs lg). wi_id r \<noteq> wi_id new"
    and new: "wi_sequence new = 0" and lg1: "lg1 = lg\<lparr>lg_inputs := lg_inputs lg @ [new]\<rparr>"
  shows "store_inv env lg1"
    and "events_of lg1 x (wi_id new) = []" and "versions_of lg1 x (wi_id new) = []"
proof -
  have same: "events_of lg1 x j = events_of lg x j" "versions_of lg1 x j = versions_of lg x j" for x j
    by (simp_all add: lg1 events_of_def versions_of_def)
  have refs: "\<forall>e\<in>set (lg_events lg). \<exists>r\<in>set (lg_inputs lg). wi_id r = ev_input_id e"
      "\<forall>v\<in>set (lg_versions lg). \<exists>r\<in>set (lg_inputs lg). wi_id r = vr_input_id v"
    using st by (auto simp: store_inv_def keys_inv_def is_input_iff)
  have none: "events_of lg1 y (wi_id new) = []" for y
    using refs(1) fresh by (fastforce simp: lg1 events_of_def filter_empty_conv)
  have nov: "versions_of lg1 y (wi_id new) = []" for y
    using refs(2) fresh by (fastforce simp: lg1 versions_of_def filter_empty_conv)
  show "events_of lg1 x (wi_id new) = []" "versions_of lg1 x (wi_id new) = []" by (rule none, rule nov)
  have "log_inv env lg1 r" if "r \<in> set (lg_inputs lg1)" for r
    using that st new none nov lg1 by (auto simp: store_inv_def log_inv_def same [unfolded lg1] Let_def)
  moreover have "keys_inv lg1" using st fresh by (auto simp: lg1 store_inv_def keys_inv_def)
  moreover have "events_inv lg1" using st by (auto simp: lg1 store_inv_def events_inv_def)
  moreover have "availability_inv lg1"
    using st by (intro availability_inv_update [of lg lg1 "\<lambda>_. False" "\<lambda>a. a"])
      (auto simp: lg1 store_inv_def is_input_iff update_where_def)
  ultimately show "store_inv env lg1" by (simp add: store_inv_def)
qed

lemma prepare_create_Inr:
  assumes "prepare_create env lg w kind actor q now fi = Inr (prep, lg1)"
  shows "kind = AgentMcp" and "cr_expected_sequence q = 0"
    and "\<forall>r\<in>set (lg_inputs lg). \<not> (wi_workspace_id r = w \<and> wi_external_key r = cr_external_key q)"
    and "content_validate (cr_content q) = Inr ()"
    and "\<forall>r\<in>set (lg_inputs lg). wi_id r \<noteq> fi"
    and "lg1 = lg\<lparr>lg_inputs := lg_inputs lg @ [pr_input prep]\<rparr>"
    and "wi_id (pr_input prep) = fi" "wi_workspace_id (pr_input prep) = w" "wi_creator (pr_input prep) = actor"
      "wi_sequence (pr_input prep) = 0" "wi_current_version (pr_input prep) = 1"
      "wi_status (pr_input prep) = ''open''"
    and "pr_content prep = Some (cr_content q)" "pr_event_type prep = ''created''"
      "\<exists>es. pr_payload prep = JObj es" "pr_new_generation prep"
  using assms unfolding prepare_create_def result_iffs Let_def by auto

lemma prepare_create_ok:
  assumes pc: "prepare_create env lg w kind actor q now fi = Inr (prep, lg1)" and inv: "ledger_inv env lg"
  shows "store_inv env lg1 \<and> prepared_ok lg1 w prep
    \<and> (\<forall>r\<in>set (lg_inputs lg1). is_input w (wi_id (pr_input prep)) r \<or> projection_inv lg1 r)"
proof -
  note c = prepare_create_Inr [OF pc]
  have "store_inv env lg" using inv by (simp add: ledger_inv_def)
  from store_inv_new_input [OF this, of "pr_input prep" lg1] c
  have st: "store_inv env lg1" and none: "versions_of lg1 w fi = []" by simp_all
  have "prepared_ok lg1 w prep"
    using c none by (auto simp: prepared_ok_def is_input_iff)
  moreover have "is_input w (wi_id (pr_input prep)) r \<or> projection_inv lg1 r" if "r \<in> set (lg_inputs lg1)" for r
    using that c inv by (auto simp: is_input_iff ledger_inv_def projection_inv_def events_of_def versions_of_def)
  ultimately show ?thesis using st by blast
qed

lemma write_create_inv:
  assumes pc: "prepare_create env lg w kind actor q now fi = Inr (prep, lg1)" and inv: "ledger_inv env lg"
    and cw: "commit_write env w kind actor rid rh now fe prep lg1 = Inr (rc, lg')"
  shows "ledger_inv env lg'"
  using commit_write_inv [OF cw] prepare_create_ok [OF pc inv] by blast

text \<open>The cases of a successful write: a replay, or a first and a second half.\<close>

lemma write_input_cases:
  assumes "write_input env lg w iid kind actor wr t fi fe = Inr (rc, lg')"
  obtains (replay) e where "find_request lg w (fst (write_key wr)) = Some e"
      "replay env e (request_hash_of env iid kind actor wr) = Inr rc" "lg' = lg"
      "w \<in> set (lg_workspaces lg)"
  | (commit) prep lg1 where "find_request lg w (fst (write_key wr)) = None"
      "(case wr of Create q \<Rightarrow> prepare_create env lg w kind actor q (utc_string env t) fi
        | _ \<Rightarrow> prepare_existing env lg w iid kind actor wr) = Inr (prep, lg1)"
      "commit_write env w kind actor (fst (write_key wr)) (request_hash_of env iid kind actor wr)
         (utc_string env t) fe prep lg1 = Inr (rc, lg')"
      "w \<in> set (lg_workspaces lg)"
  using assms unfolding write_input_def Let_def bind_err_Inr_iff return_if_Inr_iff
  by (cases "find_request lg w (fst (write_key wr))") (auto simp: bind_err_Inr_iff)

lemma write_input_inv:
  assumes wr: "write_input env lg w iid kind actor wr t fi fe = Inr (rc, lg')" and inv: "ledger_inv env lg"
  shows "ledger_inv env lg'"
  using wr
proof (cases rule: write_input_cases)
  case (replay e)
  with inv show ?thesis by simp
next
  case (commit prep lg1)
  show ?thesis
  proof (cases "\<exists>q. wr = Create q")
    case True
    with commit(2,3) inv show ?thesis by (auto intro: write_create_inv)
  next
    case False
    then have "prepare_existing env lg w iid kind actor wr = Inr (prep, lg1)"
      using commit(2) by (cases wr) auto
    from prepare_existing_ok [OF this inv] have lg1: "lg1 = lg" and ok: "prepared_ok lg w prep" by simp_all
    show ?thesis
      using inv by (intro commit_write_inv [OF commit(3) [unfolded lg1] ok]) (simp_all add: ledger_inv_def)
  qed
qed


section \<open>The other operations\<close>

text \<open>Operations that leave the log, the versions and what the invariant reads of the rows alone.\<close>

definition quiet :: "ledger \<Rightarrow> ledger \<Rightarrow> bool" where
  "quiet lg lg' =
     (lg_events lg' = lg_events lg \<and> lg_versions lg' = lg_versions lg \<and> lg_high_water lg' = lg_high_water lg
      \<and> (\<exists>p f. lg_inputs lg' = update_where p f (lg_inputs lg)
           \<and> (\<forall>r. wi_id (f r) = wi_id r \<and> wi_workspace_id (f r) = wi_workspace_id r
                \<and> wi_sequence (f r) = wi_sequence r \<and> wi_current_version (f r) = wi_current_version r
                \<and> wi_status (f r) = wi_status r \<and> wi_creator (f r) = wi_creator r
                \<and> wi_availability_generation (f r) = wi_availability_generation r))
      \<and> (\<exists>p g. lg_availability lg' = update_where p g (lg_availability lg)
           \<and> (\<forall>a. av_generation (g a) = av_generation a \<and> av_workspace_id (g a) = av_workspace_id a
                \<and> av_input_id (g a) = av_input_id a
                \<and> (av_finished_at (g a) = None \<longrightarrow> av_finished_at a = None))))"

lemma quiet_inv:
  assumes q: "quiet lg lg'" and inv: "ledger_inv env lg"
  shows "ledger_inv env lg'"
proof -
  obtain p f where inputs: "lg_inputs lg' = update_where p f (lg_inputs lg)"
    and f: "\<And>r. wi_id (f r) = wi_id r \<and> wi_workspace_id (f r) = wi_workspace_id r
      \<and> wi_sequence (f r) = wi_sequence r \<and> wi_current_version (f r) = wi_current_version r
      \<and> wi_status (f r) = wi_status r \<and> wi_availability_generation (f r) = wi_availability_generation r"
    using q unfolding quiet_def by metis
  obtain p' g where avs: "lg_availability lg' = update_where p' g (lg_availability lg)"
    and g: "\<And>a. av_generation (g a) = av_generation a \<and> av_workspace_id (g a) = av_workspace_id a
      \<and> av_input_id (g a) = av_input_id a \<and> (av_finished_at (g a) = None \<longrightarrow> av_finished_at a = None)"
    using q unfolding quiet_def by metis
  have tabs: "lg_events lg' = lg_events lg" "lg_versions lg' = lg_versions lg" "lg_high_water lg' = lg_high_water lg"
    using q by (simp_all add: quiet_def)
  then have same: "events_of lg' x j = events_of lg x j" "versions_of lg' x j = versions_of lg x j" for x j
    by (simp_all add: events_of_def versions_of_def)
  have rows: "log_inv env lg' r' \<and> projection_inv lg' r'" if r': "r' \<in> set (lg_inputs lg')" for r'
  proof -
    obtain r where r: "r \<in> set (lg_inputs lg)" "r' = (if p r then f r else r)"
      using r' by (auto simp: inputs set_update_where)
    with ledger_inv_input [OF inv r(1)] f [of r] show ?thesis
      by (simp add: log_inv_def projection_inv_def same)
  qed
  have ex: "\<exists>s\<in>set (lg_inputs lg'). is_input x j s" if "\<exists>r\<in>set (lg_inputs lg). is_input x j r" for x j
    using that f by (auto simp: inputs bex_update_where is_input_iff)
  have "map wi_id (lg_inputs lg') = map wi_id (lg_inputs lg)"
    using f by (simp add: inputs map_key_update_where)
  then have "keys_inv lg'" using inv ex tabs by (simp add: ledger_inv_def store_inv_def keys_inv_def)
  moreover have "events_inv lg'" using inv tabs by (simp add: ledger_inv_def store_inv_def events_inv_def)
  moreover have "availability_inv lg'"
  proof (rule availability_inv_update [OF _ _ avs])
    show "availability_inv lg" using inv by (simp add: ledger_inv_def store_inv_def)
    show "\<exists>s\<in>set (lg_inputs lg'). is_input (wi_workspace_id r) (wi_id r) s
      \<and> wi_availability_generation s = wi_availability_generation r \<and> wi_status s = wi_status r"
      if "r \<in> set (lg_inputs lg)" for r
      unfolding inputs bex_update_where by (rule bexI [OF _ that]) (simp add: f is_input_iff)
  qed (use g in simp)
  ultimately show ?thesis using rows by (simp add: ledger_inv_def store_inv_def)
qed

lemma update_where_False [simp]: "update_where (\<lambda>_. False) f rows = rows"
  by (simp add: update_where_def)

lemma quiet_inputs:
  "(\<And>r. wi_id (f r) = wi_id r \<and> wi_workspace_id (f r) = wi_workspace_id r
      \<and> wi_sequence (f r) = wi_sequence r \<and> wi_current_version (f r) = wi_current_version r
      \<and> wi_status (f r) = wi_status r \<and> wi_creator (f r) = wi_creator r
      \<and> wi_availability_generation (f r) = wi_availability_generation r) \<Longrightarrow>
    quiet lg (lg\<lparr>lg_inputs := update_where p f (lg_inputs lg)\<rparr>)"
  unfolding quiet_def
  by (intro conjI, simp, simp, simp, rule exI [of _ p], rule exI [of _ f], simp,
      rule exI [of _ "\<lambda>_. False"], rule exI [of _ "\<lambda>a. a"], simp)

lemma quiet_availability:
  "(\<And>a. av_generation (g a) = av_generation a \<and> av_workspace_id (g a) = av_workspace_id a
      \<and> av_input_id (g a) = av_input_id a \<and> (av_finished_at (g a) = None \<longrightarrow> av_finished_at a = None)) \<Longrightarrow>
    quiet lg (lg\<lparr>lg_availability := update_where p g (lg_availability lg)\<rparr>)"
  unfolding quiet_def
  by (intro conjI, simp, simp, simp, rule exI [of _ "\<lambda>_. False"], rule exI [of _ "\<lambda>a. a"], simp,
      rule exI [of _ p], rule exI [of _ g], simp)

lemma quiet_refl: "quiet lg lg"
  using quiet_availability [of "\<lambda>a. a" lg "\<lambda>_. False"] by simp

lemma quiet_workspaces: "quiet lg (lg\<lparr>lg_workspaces := ws\<rparr>)"
  using quiet_refl by (simp add: quiet_def)

lemma set_priority_quiet: "set_priority lg w i priority = Inr (r, lg') \<Longrightarrow> quiet lg lg'"
  by (auto simp: set_priority_def result_iffs Let_def split: option.splits intro: quiet_inputs)

lemma claim_notification_quiet: "quiet lg (snd (claim_notification env lg t token))"
  by (auto simp: claim_notification_def Let_def split: option.splits intro: quiet_refl quiet_availability)

lemma finish_notification_quiet: "quiet lg (snd (finish_notification env lg t claim))"
  by (auto simp: finish_notification_def Let_def intro: quiet_availability)


section \<open>Releasing due inputs\<close>

text \<open>A due row still describes its input.\<close>

definition due_ok :: "ledger \<Rightarrow> due_row \<Rightarrow> bool" where
  "due_ok lg d = (\<exists>r\<in>set (lg_inputs lg). is_input (du_workspace d) (du_input d) r
     \<and> wi_sequence r = du_sequence d \<and> wi_current_version r = du_version d \<and> wi_status r = ''open'')"

lemma distinct_input_eq:
  assumes "keys_inv lg" and "r \<in> set (lg_inputs lg)" and "s \<in> set (lg_inputs lg)" and "wi_id r = wi_id s"
  shows "r = s"
  using assms distinct_key_eq [of wi_id "lg_inputs lg" r s] by (simp add: keys_inv_def)

lemma release_one_steps:
  assumes "release_one env now lg d fresh = Inr lg'"
  obtains p e where "last_event lg (du_workspace d) (du_input d) = Some p"
    "e = (available_event env now d (fst fresh) (snd fresh) (ev_hash p))
       \<lparr>ev_hash := event_hash env (available_event env now d (fst fresh) (snd fresh) (ev_hash p)),
        ev_cursor := lg_high_water lg + 1\<rparr>"
    "\<forall>q\<in>set (lg_events lg). \<not> event_conflicts e q" "ev_hash e = event_hash env e"
    "lg_events lg' = lg_events lg @ [stored_event e]" "lg_high_water lg' = lg_high_water lg + 1"
      "lg_inputs lg' = update_where (is_input (du_workspace d) (du_input d))
        (\<lambda>r. r\<lparr>wi_sequence := ev_sequence e, wi_updated_at := now\<rparr>) (lg_inputs lg)"
      "lg_versions lg' = lg_versions lg" "lg_workspaces lg' = lg_workspaces lg"
      "lg_availability lg' = update_where (\<lambda>a. av_generation a = du_generation d)
        (\<lambda>a. a\<lparr>av_available_event_id := Some (ev_id e)\<rparr>) (lg_availability lg)"
proof -
  obtain p e lg1 where p: "last_event lg (du_workspace d) (du_input d) = Some p"
      "insert_event env lg (available_event env now d (fst fresh) (snd fresh) (ev_hash p)) = Inr (e, lg1)"
    and lg': "lg' = lg1\<lparr>lg_inputs := update_where (is_input (du_workspace d) (du_input d))
          (\<lambda>r. r\<lparr>wi_sequence := ev_sequence e, wi_updated_at := now\<rparr>) (lg_inputs lg1),
        lg_availability := update_where (\<lambda>a. av_generation a = du_generation d)
          (\<lambda>a. a\<lparr>av_available_event_id := Some (ev_id e)\<rparr>) (lg_availability lg1)\<rparr>"
    using assms by (auto simp: release_one_def result_iffs)
  note ins = p(2) [unfolded insert_event_Inr]
  show thesis
    by (rule that [OF p(1) ins [THEN conjunct1]])
      (use ins [THEN conjunct2] lg' insert_event_hash [OF p(2)] in auto)
qed

lemma release_one_appended:
  assumes ro: "release_one env now lg d fresh = Inr lg'" and inv: "ledger_inv env lg" and due: "due_ok lg d"
  shows "\<exists>e. appended env lg (du_workspace d) (du_input d) (stored_event e)
      (\<lambda>r. r\<lparr>wi_sequence := ev_sequence e, wi_updated_at := now\<rparr>) lg'"
proof -
  let ?w = "du_workspace d" and ?i = "du_input d"
  obtain p e where p: "last_event lg ?w ?i = Some p"
    and e: "e = (available_event env now d (fst fresh) (snd fresh) (ev_hash p))
       \<lparr>ev_hash := event_hash env (available_event env now d (fst fresh) (snd fresh) (ev_hash p)),
        ev_cursor := lg_high_water lg + 1\<rparr>"
    and nc: "\<forall>q\<in>set (lg_events lg). \<not> event_conflicts e q" and h: "ev_hash e = event_hash env e"
    and tabs: "lg_events lg' = lg_events lg @ [stored_event e]" "lg_high_water lg' = lg_high_water lg + 1"
      "lg_inputs lg' = update_where (is_input (du_workspace d) (du_input d))
        (\<lambda>r. r\<lparr>wi_sequence := ev_sequence e, wi_updated_at := now\<rparr>) (lg_inputs lg)"
      "lg_versions lg' = lg_versions lg" "lg_workspaces lg' = lg_workspaces lg"
      "lg_availability lg' = update_where (\<lambda>a. av_generation a = du_generation d)
        (\<lambda>a. a\<lparr>av_available_event_id := Some (ev_id e)\<rparr>) (lg_availability lg)"
    using release_one_steps [OF ro] .
  obtain r where r: "r \<in> set (lg_inputs lg)" "is_input ?w ?i r" "wi_sequence r = du_sequence d"
      "wi_current_version r = du_version d" "wi_status r = ''open''"
    using due by (auto simp: due_ok_def)
  have "s = r" if "s \<in> set (lg_inputs lg)" "is_input ?w ?i s" for s
    using that r inv distinct_input_eq [of lg s r] by (simp add: ledger_inv_def store_inv_def is_input_iff)
  then have rows: "\<forall>s\<in>set (lg_inputs lg). is_input ?w ?i s \<longrightarrow>
      wi_current_version s = du_version d \<and> wi_status s = ''open''"
    using r by blast
  have sel: "ev_workspace_id e = ?w" "ev_input_id e = ?i" "ev_sequence e = du_sequence d + 1"
      "ev_version e = du_version d" "ev_prev_hash e = ev_hash p" "ev_cursor e = lg_high_water lg + 1"
      "ev_payload e = JObj [(''status'', JStr ''open''), (''generation'', JStr (du_generation d))]"
    by (simp_all add: e available_event_def)
  have "as_str (json_get (ev_payload e) ''status'') = Some ''open''"
    by (simp add: sel json_get_def)
  then have status: "as_str (json_get (sorted_json (ev_payload e)) ''status'') = Some ''open''"
    by (rule as_str_sorted)
  have seq: "du_sequence d = int (length (events_of lg ?w ?i))"
      "du_version d = int (length (versions_of lg ?w ?i))" "versions_of lg ?w ?i \<noteq> []"
    using ledger_inv_input [OF inv r(1)] r by (auto simp: log_inv_def projection_inv_def is_input_iff Let_def)
  have prev: "ev_hash p = prev_hash_of lg ?w ?i" using p by (simp add: prev_hash_of_def)
  have vers: "versions_of lg' ?w ?i = versions_of lg ?w ?i" by (simp add: tabs versions_of_def)
  have nc': "\<forall>q\<in>set (lg_events lg). \<not> event_conflicts (stored_event e) q"
    using nc by (simp add: event_conflicts_def)
  show ?thesis
    using sel seq prev vers status h nc' rows tabs
    by (intro exI [of _ e]) (simp add: appended_def)
qed

lemma appended_due_ok:
  assumes ap: "appended env lg w i e f lg'" and due: "due_ok lg d" and other: "du_input d \<noteq> i"
  shows "due_ok lg' d"
proof -
  obtain r where r: "r \<in> set (lg_inputs lg)" "is_input (du_workspace d) (du_input d) r"
      "wi_sequence r = du_sequence d" "wi_current_version r = du_version d" "wi_status r = ''open''"
    using due by (auto simp: due_ok_def)
  with other have "\<not> is_input w i r" by (auto simp: is_input_iff)
  with r ap have "r \<in> set (lg_inputs lg')" by (auto simp: appended_def set_update_where)
  with r show ?thesis by (auto simp: due_ok_def)
qed

lemma release_one_inv:
  assumes ro: "release_one env now lg d fresh = Inr lg'" and inv: "ledger_inv env lg" and due: "due_ok lg d"
  shows "ledger_inv env lg'"
proof -
  obtain e where ap: "appended env lg (du_workspace d) (du_input d) (stored_event e)
      (\<lambda>r. r\<lparr>wi_sequence := ev_sequence e, wi_updated_at := now\<rparr>) lg'"
    using release_one_appended [OF assms] by blast
  have ex: "\<exists>r\<in>set (lg_inputs lg). is_input (du_workspace d) (du_input d) r"
    using due by (auto simp: due_ok_def)
  have "keys_inv lg'" "events_inv lg'" "\<forall>r\<in>set (lg_inputs lg'). log_inv env lg' r"
      "\<forall>r\<in>set (lg_inputs lg'). projection_inv lg' r"
    using inv by (auto simp: ledger_inv_def store_inv_def intro: appended_keys_inv [OF ap _ ex]
        appended_events_inv [OF ap] appended_log_inv [OF ap] appended_projection_inv [OF ap])
  moreover obtain e2 :: input_event where inputs: "lg_inputs lg' = update_where (is_input (du_workspace d) (du_input d))
        (\<lambda>r. r\<lparr>wi_sequence := ev_sequence e2, wi_updated_at := now\<rparr>) (lg_inputs lg)"
      and avs: "lg_availability lg' = update_where (\<lambda>a. av_generation a = du_generation d)
        (\<lambda>a. a\<lparr>av_available_event_id := Some (ev_id e2)\<rparr>) (lg_availability lg)"
    by (rule release_one_steps [OF ro]) (rule that; assumption)
  have "availability_inv lg'"
  proof (rule availability_inv_update [OF _ _ avs])
    show "availability_inv lg" using inv by (simp add: ledger_inv_def store_inv_def)
    show "\<exists>s\<in>set (lg_inputs lg'). is_input (wi_workspace_id r) (wi_id r) s
      \<and> wi_availability_generation s = wi_availability_generation r \<and> wi_status s = wi_status r"
      if "r \<in> set (lg_inputs lg)" for r
      unfolding inputs bex_update_where by (rule bexI [OF _ that]) (simp add: is_input_iff)
  qed simp
  ultimately show ?thesis by (simp add: ledger_inv_def store_inv_def)
qed

lemma release_loop_inv:
  "release_loop env now lg ds fresh k = Inr lg' \<Longrightarrow> ledger_inv env lg \<Longrightarrow> \<forall>d\<in>set ds. due_ok lg d
     \<Longrightarrow> distinct (map du_input ds) \<Longrightarrow> ledger_inv env lg'"
proof (induction ds arbitrary: lg k)
  case (Cons d ds)
  then obtain lg1 where 1: "release_one env now lg d (fresh k) = Inr lg1"
      and 2: "release_loop env now lg1 ds fresh (Suc k) = Inr lg'"
    by (auto simp: bind_err_Inr_iff)
  have due: "due_ok lg d" using Cons.prems(3) by simp
  obtain e f where ap: "appended env lg (du_workspace d) (du_input d) e f lg1"
    using release_one_appended [OF 1 Cons.prems(2) due] by blast
  show ?case
    by (rule Cons.IH [OF 2 release_one_inv [OF 1 Cons.prems(2) due]])
      (use Cons.prems(3,4) in \<open>auto simp: image_iff intro!: appended_due_ok [OF ap]\<close>)
qed simp


definition due_of :: "availability_row \<Rightarrow> workspace_input \<Rightarrow> due_row" where
  "due_of a i = \<lparr>du_generation = av_generation a, du_workspace = wi_workspace_id i, du_input = wi_id i,
     du_sequence = wi_sequence i, du_version = wi_current_version i, du_show_at = wi_show_at i\<rparr>"

definition due_pairs :: "ledger \<Rightarrow> string \<Rightarrow> availability_row list \<Rightarrow> due_row list" where
  "due_pairs lg now avs = concat (map (\<lambda>a. map (due_of a)
     (filter (\<lambda>i. current_pair lg now a i \<and> av_available_event_id a = None) (lg_inputs lg))) avs)"

lemma due_rows_pairs:
  "due_rows lg now = take 100 (order_by (\<lambda>d. (du_show_at d, du_input d)) (due_pairs lg now (lg_availability lg)))"
proof -
  have "concat (map (\<lambda>i. if current_pair lg now a i \<and> av_available_event_id a = None then [due_of a i] else []) is)
      = map (due_of a) (filter (\<lambda>i. current_pair lg now a i \<and> av_available_event_id a = None) is)" for a "is"
    by (induction "is") auto
  then show ?thesis unfolding due_rows_def due_pairs_def due_of_def [symmetric] by (simp only:)
qed

lemma due_pairs_mem:
  assumes "d \<in> set (due_pairs lg now avs)"
  obtains a i where "a \<in> set avs" "i \<in> set (lg_inputs lg)" "current_pair lg now a i"
    "av_available_event_id a = None" "d = due_of a i"
  using assms by (auto simp: due_pairs_def)

lemma due_pairs_distinct:
  assumes "distinct (map wi_id (lg_inputs lg))" and "distinct (map av_generation avs)"
  shows "distinct (map du_input (due_pairs lg now avs))"
  using assms(2)
proof (induction avs)
  case (Cons a avs)
  let ?hits = "filter (\<lambda>i. current_pair lg now a i \<and> av_available_event_id a = None) (lg_inputs lg)"
  have "distinct (map wi_id ?hits)"
    using assms(1) by (rule distinct_map_filter)
  then have "distinct (map du_input (map (due_of a) ?hits))"
    by (simp add: due_of_def comp_def)
  moreover have "du_input ` set (map (due_of a) ?hits) \<inter> du_input ` set (due_pairs lg now avs) = {}"
  proof (rule ccontr)
    assume "du_input ` set (map (due_of a) ?hits) \<inter> du_input ` set (due_pairs lg now avs) \<noteq> {}"
    then obtain x where x: "x \<in> du_input ` set (map (due_of a) ?hits)" "x \<in> du_input ` set (due_pairs lg now avs)"
      by blast
    from x(1) obtain i where i: "i \<in> set ?hits" "x = wi_id i" by (auto simp: due_of_def)
    from x(2) i(2) obtain d where d: "d \<in> set (due_pairs lg now avs)" "du_input d = wi_id i" by auto
    from d(1) obtain b j where j: "b \<in> set avs" "j \<in> set (lg_inputs lg)" "current_pair lg now b j" "d = due_of b j"
      by (rule due_pairs_mem)
    have "i \<in> set (lg_inputs lg)" using i(1) by simp
    moreover have "wi_id i = wi_id j" using d(2) j(4) by (simp add: due_of_def)
    ultimately have "i = j" by (rule distinct_key_eq [OF assms(1) _ j(2)])
    moreover have "current_pair lg now a i" using i(1) by simp
    ultimately have "av_generation a = av_generation b" using j(3) unfolding current_pair_def by (metis option.inject)
    with Cons.prems j(1) show False by auto
  qed
  moreover have "distinct (map du_input (due_pairs lg now avs))" using Cons by simp
  moreover have "due_pairs lg now (a # avs) = map (due_of a) ?hits @ due_pairs lg now avs"
    by (simp add: due_pairs_def)
  ultimately show ?case by (simp only: map_append distinct_append list.set_map simp_thms)
qed (simp add: due_pairs_def)

lemma due_rows_ok:
  assumes inv: "ledger_inv env lg"
  shows "\<forall>d\<in>set (due_rows lg now). due_ok lg d" and "distinct (map du_input (due_rows lg now))"
proof -
  show "\<forall>d\<in>set (due_rows lg now). due_ok lg d"
  proof
    fix d assume "d \<in> set (due_rows lg now)"
    then have "d \<in> set (due_pairs lg now (lg_availability lg))"
      by (auto simp: due_rows_pairs dest: in_set_takeD)
    then show "due_ok lg d"
      by (rule due_pairs_mem) (auto simp: due_ok_def due_of_def current_pair_def is_input_iff)
  qed
  have "distinct (map du_input (due_pairs lg now (lg_availability lg)))"
    using inv by (intro due_pairs_distinct) (auto simp: ledger_inv_def store_inv_def keys_inv_def availability_inv_def)
  then show "distinct (map du_input (due_rows lg now))"
    by (simp add: due_rows_pairs order_by_def distinct_sort_map flip: take_map)
qed

lemma release_due_inv:
  assumes "release_due env lg t fresh = Inr (n, lg')" and "ledger_inv env lg"
  shows "ledger_inv env lg'"
  using assms due_rows_ok [OF assms(2)]
  by (auto simp: release_due_def Let_def bind_err_Inr_iff intro: release_loop_inv)

end
