(* ===== verification/InputSafety.thy ===== *)
theory InputSafety
  imports InputInvariant
begin

text \<open>
  The input ledger as a system of steps, and what holds of every state it reaches: every
  log verifies, the log and the versions only grow, a repeated request replays the first
  answer, a write succeeds only against the sequence number it names, and the status of an
  input moves as the operations allow.
\<close>

section \<open>Steps\<close>

inductive ledger_step :: "input_env \<Rightarrow> ledger \<Rightarrow> ledger \<Rightarrow> bool" for env where
  write_step: "write_input env lg w iid kind actor wr t fi fe = Inr (rc, lg') \<Longrightarrow> ledger_step env lg lg'"
| priority_step: "set_priority lg w i p = Inr (r, lg') \<Longrightarrow> ledger_step env lg lg'"
| release_step: "release_due env lg t fresh = Inr (n, lg') \<Longrightarrow> ledger_step env lg lg'"
| claim_step: "lg' = snd (claim_notification env lg t token) \<Longrightarrow> ledger_step env lg lg'"
| finish_step: "lg' = snd (finish_notification env lg t claim) \<Longrightarrow> ledger_step env lg lg'"
| workspace_step: "lg' = lg\<lparr>lg_workspaces := ws\<rparr> \<Longrightarrow> ledger_step env lg lg'"

inductive_cases ledger_stepE: "ledger_step env lg lg'"

lemma ledger_step_inv:
  assumes "ledger_inv env lg" and "ledger_step env lg lg'"
  shows "ledger_inv env lg'"
  using assms(2,1)
  by cases (auto intro: write_input_inv release_due_inv quiet_inv [OF set_priority_quiet]
      quiet_inv [OF claim_notification_quiet] quiet_inv [OF finish_notification_quiet]
      quiet_inv [OF quiet_workspaces])

text \<open>The order of growth: events and versions are appended, nothing of them changes.\<close>

definition log_le :: "ledger \<Rightarrow> ledger \<Rightarrow> bool" where
  "log_le lg lg' = ((\<exists>es. lg_events lg' = lg_events lg @ es) \<and> (\<exists>vs. lg_versions lg' = lg_versions lg @ vs))"

lemma log_le_refl: "log_le lg lg"
  by (simp add: log_le_def)

lemma log_le_trans: "log_le a b \<Longrightarrow> log_le b c \<Longrightarrow> log_le a c"
  by (auto simp: log_le_def)

lemma quiet_log_le: "quiet lg lg' \<Longrightarrow> log_le lg lg'"
  by (auto simp: quiet_def log_le_def)

lemma commit_write_log_le:
  assumes "commit_write env w kind actor rid rh now fe prep lg = Inr (rc, lg')"
  shows "log_le lg lg'"
proof -
  obtain e where "lg_events lg' = lg_events lg @ [stored_event e]"
    and "case pr_content prep of None \<Rightarrow> lg_versions lg' = lg_versions lg
     | Some c \<Rightarrow> \<exists>v. lg_versions lg' = lg_versions lg @ [v] \<and> vr_workspace_id v = w
         \<and> vr_input_id v = wi_id (pr_input prep) \<and> vr_version v = wi_current_version (pr_input prep)
         \<and> vr_title v = ct_title c \<and> vr_html v = ct_html c \<and> vr_contract v = ct_contract c"
    by (rule commit_write_shape [OF assms]) (rule that; assumption)
  then show ?thesis by (auto simp: log_le_def split: option.splits)
qed

lemma write_input_log_le:
  assumes "write_input env lg w iid kind actor wr t fi fe = Inr (rc, lg')"
  shows "log_le lg lg'"
  using assms
proof (cases rule: write_input_cases)
  case (commit prep lg1)
  have "lg_events lg1 = lg_events lg \<and> lg_versions lg1 = lg_versions lg"
    using commit(2)
    by (cases wr) (auto dest: prepare_create_Inr(6) elim: prepare_existing_Inr)
  with commit_write_log_le [OF commit(3)] show ?thesis by (auto simp: log_le_def)
qed (simp add: log_le_refl)

lemma release_loop_log_le: "release_loop env now lg ds fresh k = Inr lg' \<Longrightarrow> log_le lg lg'"
proof (induction ds arbitrary: lg k)
  case (Cons d ds)
  then obtain lg1 where 1: "release_one env now lg d (fresh k) = Inr lg1"
      and 2: "release_loop env now lg1 ds fresh (Suc k) = Inr lg'"
    by (auto simp: bind_err_Inr_iff)
  have "log_le lg lg1"
    by (rule release_one_steps [OF 1]) (auto simp: log_le_def)
  with Cons.IH [OF 2] show ?case by (rule log_le_trans [rotated])
qed (simp add: log_le_refl)

lemma ledger_step_log_le: "ledger_step env lg lg' \<Longrightarrow> log_le lg lg'"
  by (erule ledger_stepE)
    (auto simp: release_due_def Let_def bind_err_Inr_iff
      intro: write_input_log_le release_loop_log_le quiet_log_le [OF set_priority_quiet]
        quiet_log_le [OF claim_notification_quiet] quiet_log_le [OF finish_notification_quiet]
        quiet_log_le [OF quiet_workspaces])

interpretation ledger_machine: monotone_system "ledger_step env" "ledger_inv env" log_le for env
  by unfold_locales
    (auto intro: ledger_step_inv log_le_refl log_le_trans ledger_step_log_le)


lemma reached_inv: "(ledger_step env)\<^sup>*\<^sup>* (empty_ledger ws) lg \<Longrightarrow> ledger_inv env lg"
  using ledger_machine.reach_inv ledger_inv_empty by blast

section \<open>Verification of the log\<close>

lemma verify_inv:
  assumes inv: "ledger_inv env lg" and r: "find_input lg w i = Some r"
  shows "verify env lg w i = Inr \<lparr>vf_valid = True, vf_checked = wi_sequence r, vf_first_break = None\<rparr>"
proof -
  have "r \<in> set (lg_inputs lg)" "wi_workspace_id r = w" "wi_id r = i"
    using find_input_Some [OF r] by (simp_all add: is_input_iff)
  then have "chain env [] 0 (events_of lg w i)" "wi_sequence r = int (length (events_of lg w i))"
      "events_of lg w i \<noteq> []"
    using ledger_inv_input [OF inv, of r] by (auto simp: log_inv_def projection_inv_def Let_def)
  then show ?thesis
    using r by (simp add: verify_def get_input_def ok_or_def chain_order_by verify_loop_chain)
qed

text \<open>
  C4.  In every state the ledger can reach, \<open>verify\<close> of an existing input reports a valid chain
  that covers exactly the events the input's row counts.
\<close>

theorem ledger_verifies:
  assumes "(ledger_step env)\<^sup>*\<^sup>* (empty_ledger ws) lg" and "find_input lg w i = Some r"
  shows "verify env lg w i = Inr \<lparr>vf_valid = True, vf_checked = wi_sequence r, vf_first_break = None\<rparr>"
  using verify_inv [OF reached_inv [OF assms(1)] assms(2)] .

text \<open>A small ledger for the witnesses: an agent creates an input, the owner answers it.\<close>

definition demo_env :: input_env where
  "demo_env = \<lparr>sha256_hex = (\<lambda>s. take 2 s), json_to_string = (\<lambda>_. ''{}''),
     parse_from_rfc3339 = (\<lambda>_. None), utc_string = (\<lambda>t. if t < 100 then ''1'' else ''2''),
     uuid_to_string = (\<lambda>_. ''u'')\<rparr>"

definition demo_content :: input_content where
  "demo_content = \<lparr>ct_title = ''Plan'', ct_html = [],
     ct_contract = \<lparr>choices = [\<lparr>ch_id = ''yes'', ch_label = ''Yes''\<rparr>], allow_text = False,
       allow_no_answer_yet = False\<rparr>\<rparr>"

definition demo_create :: input_write where
  "demo_create = Create \<lparr>cr_show_at = None, cr_priority = None, cr_external_key = ''k'',
     cr_request_id = ''r1'', cr_expected_sequence = 0, cr_content = demo_content\<rparr>"

definition demo_payload :: json where
  "demo_payload = JObj [(''external_key'', JStr ''k''), (''creator'', JStr ''agent''),
     (''content'', content_json demo_content), (''status'', JStr ''open''), (''show_at'', JNull)]"

definition demo_event :: input_event where
  "demo_event = \<lparr>ev_cursor = 1, ev_id = ''ev1'', ev_workspace_id = 7, ev_input_id = ''in'',
     ev_sequence = 1, ev_actor_kind = ''agent_mcp'', ev_actor = ''agent'', ev_event_type = ''created'',
     ev_version = 1, ev_payload = demo_payload, ev_request_id = ''r1'', ev_request_hash = ''{}'',
     ev_created_at = ''1'', ev_prev_hash = [], ev_hash = ''{}''\<rparr>"

definition demo_row :: workspace_input where
  "demo_row = \<lparr>wi_show_at = None, wi_priority = ''P2'', wi_id = ''in'', wi_workspace_id = 7,
     wi_external_key = ''k'', wi_creator = ''agent'', wi_current_version = 1, wi_status = ''open'',
     wi_sequence = 1, wi_created_at = ''1'', wi_updated_at = ''1'',
     wi_availability_generation = Some ''ev1''\<rparr>"

definition demo_ledger :: ledger where
  "demo_ledger = \<lparr>lg_workspaces = [7], lg_inputs = [demo_row],
     lg_versions = [\<lparr>vr_workspace_id = 7, vr_input_id = ''in'', vr_version = 1, vr_title = ''Plan'',
       vr_html = [], vr_contract = ct_contract demo_content, vr_content_hash = ''{}''\<rparr>],
     lg_events = [stored_event demo_event],
     lg_availability = [\<lparr>av_generation = ''ev1'', av_workspace_id = 7, av_input_id = ''in'',
       av_available_event_id = Some ''ev1'', av_claim_token = None, av_claim_until = None,
       av_finished_at = None\<rparr>],
     lg_high_water = 1\<rparr>"

lemmas demo_defs = demo_env_def demo_content_def demo_create_def demo_ledger_def demo_row_def demo_event_def
  demo_payload_def empty_ledger_def

lemmas ledger_eval = write_input_def find_request_def select_one_def prepare_create_def prepare_existing_def
  prepare_answer_def prepare_status_def prepare_undo_def get_input_def find_input_def find_version_def
  is_input_def ok_or_def live_status_def validate_answer_def MAX_ANSWER_BYTES_def last_event_def events_of_def
  order_by_desc_def prev_hash_of_def return_if_def content_validate_def MAX_HTML_BYTES_def
  contract_validate_def trim_def trim_end_matches_def trim_start_matches_def is_whitespace_def code_point_def
  str_len_def utf8_width_def normalize_show_at_def title_priority_def strip_prefix_def commit_write_def
  insert_version_def insert_event_def start_generation_def update_input_def finish_open_availability_def
  update_where_def write_event_def event_conflicts_def request_hash_of_def canonical_def digest_def
  event_hash_def json_set_def

lemma demo_write:
  "write_input demo_env (empty_ledger [7]) 7 None AgentMcp ''agent'' demo_create 5 ''in'' ''ev1''
     = Inr (receipt demo_env demo_event ''open'', demo_ledger)"
  by (simp add: demo_defs ledger_eval Let_def del: sorted_json.simps)


lemma demo_reached: "(ledger_step demo_env)\<^sup>*\<^sup>* (empty_ledger [7]) demo_ledger"
  by (rule r_into_rtranclp) (rule write_step [OF demo_write])

lemma demo_find: "find_input demo_ledger 7 ''in'' = Some demo_row"
  by (simp add: demo_defs ledger_eval)

text \<open>The theorem applied to the small ledger.\<close>

theorem ledger_verifies_witness:
  "verify demo_env demo_ledger 7 ''in'' = Inr \<lparr>vf_valid = True, vf_checked = 1, vf_first_break = None\<rparr>"
  using ledger_verifies [OF demo_reached demo_find] by (simp add: demo_row_def)

text \<open>
  C6.  The log is append-only: from any state, whatever operations run, the events and the
  versions stored so far stay as they are, at the front of the tables.
\<close>

theorem ledger_append_only:
  assumes "(ledger_step env)\<^sup>*\<^sup>* (empty_ledger ws) lg" and "(ledger_step env)\<^sup>*\<^sup>* lg lg'"
  shows "(\<exists>es. lg_events lg' = lg_events lg @ es) \<and> (\<exists>vs. lg_versions lg' = lg_versions lg @ vs)"
  using ledger_machine.reach_le [OF assms(2) reached_inv [OF assms(1)]] by (simp add: log_le_def)

theorem ledger_append_only_witness:
  "(\<exists>es. lg_events demo_ledger = lg_events (empty_ledger [7]) @ es)
     \<and> (\<exists>vs. lg_versions demo_ledger = lg_versions (empty_ledger [7]) @ vs)"
  by (rule ledger_append_only [OF rtranclp.rtrancl_refl demo_reached])

section \<open>Idempotent requests\<close>

text \<open>A successful write leaves the event it reports in the log, under its request.\<close>

lemma write_input_event:
  assumes wr: "write_input env lg w iid kind actor wr t fi fe = Inr (rc, lg')" and inv: "ledger_inv env lg"
  shows "stored_event (rc_event rc) \<in> set (lg_events lg') \<and> ev_workspace_id (rc_event rc) = w
    \<and> ev_request_id (rc_event rc) = fst (write_key wr)
    \<and> ev_request_hash (rc_event rc) = request_hash_of env iid kind actor wr
    \<and> as_str (json_get (sorted_json (ev_payload (rc_event rc))) ''status'') = Some (rc_status rc)
    \<and> rc = receipt env (rc_event rc) (rc_status rc)"
  using wr
proof (cases rule: write_input_cases)
  case (replay e)
  then have "e \<in> set (lg_events lg)" "ev_workspace_id e = w" "ev_request_id e = fst (write_key wr)"
    by (auto simp: find_request_def dest!: select_one_Some)
  moreover from this inv have "stored_event e = e" by (simp add: ledger_inv_defs)
  moreover from this have "sorted_json (ev_payload e) = ev_payload e"
    by (metis stored_event_sel(12))
  ultimately show ?thesis
    using replay(2,3) by (auto simp: replay_def result_iffs receipt_def)
next
  case (commit prep lg1)
  obtain e where e: "lg_events lg' = lg_events lg1 @ [stored_event e]"
      "rc = receipt env e (wi_status (pr_input prep))" "ev_workspace_id e = w"
      "ev_request_id e = fst (write_key wr)" "ev_request_hash e = request_hash_of env iid kind actor wr"
      "ev_payload e = json_set ''show_at'' (json_opt_str (wi_show_at (pr_input prep)))
         (json_set ''status'' (JStr (wi_status (pr_input prep))) (pr_payload prep))"
    by (rule commit_write_shape [OF commit(3)]) (rule that; assumption)
  have "\<exists>es. pr_payload prep = JObj es"
    using commit(2)
    by (cases wr) (auto dest: prepare_create_Inr(15) elim!: prepare_existing_Inr simp: same_row_def)
  then have "as_str (json_get (ev_payload e) ''status'') = Some (wi_status (pr_input prep))"
    by (auto simp: e(6) json_set_def json_get_def map_of_entries_set)
  with as_str_sorted e show ?thesis by (auto simp: receipt_def)
qed

lemma receipt_stored: "(receipt env e s)\<lparr>rc_event := stored_event e\<rparr> = receipt env (stored_event e) s"
  by (simp add: receipt_def)

lemma find_request_unique:
  assumes "ledger_inv env lg" and "e \<in> set (lg_events lg)"
  shows "find_request lg (ev_workspace_id e) (ev_request_id e) = Some e"
proof -
  have "distinct (map (\<lambda>e. (ev_workspace_id e, ev_request_id e)) (lg_events lg))"
    using assms(1) by (simp add: ledger_inv_defs)
  from select_one_key [OF this assms(2)] show ?thesis by (simp add: find_request_def)
qed

lemma write_input_guard:
  "write_input env lg w iid kind actor wr t fi fe = Inr x \<Longrightarrow>
     fst (write_key wr) \<noteq> [] \<and> str_len (fst (write_key wr)) \<le> 128 \<and> actor \<noteq> [] \<and> str_len actor \<le> 256"
  by (auto simp: write_input_def Let_def result_iffs not_less)

text \<open>
  C27.  Retrying a write is safe: repeated at any later time, in any later state of a live
  workspace, the same request returns the receipt of the first one (with the payload in
  canonical form) and changes nothing.
\<close>

theorem write_replay:
  assumes "(ledger_step env)\<^sup>*\<^sup>* (empty_ledger ws) lg"
    and "write_input env lg w iid kind actor wr t fi fe = Inr (rc, lg1)"
    and "(ledger_step env)\<^sup>*\<^sup>* lg1 lg2" and "w \<in> set (lg_workspaces lg2)"
  shows "write_input env lg2 w iid kind actor wr t2 fi2 fe2
    = Inr (rc\<lparr>rc_event := stored_event (rc_event rc)\<rparr>, lg2)"
proof -
  have inv: "ledger_inv env lg" using assms(1) by (rule reached_inv)
  note inv1 = write_input_inv [OF assms(2) inv]
  have inv2: "ledger_inv env lg2" using ledger_machine.reach_inv [OF assms(3) inv1] .
  define e where "e = stored_event (rc_event rc)"
  note ev = write_input_event [OF assms(2) inv]
  have "e \<in> set (lg_events lg2)"
    using ev ledger_machine.reach_le [OF assms(3) inv1] by (auto simp: log_le_def e_def)
  with inv2 ev have "find_request lg2 w (fst (write_key wr)) = Some e"
    using find_request_unique [of env lg2 e] by (simp add: e_def)
  moreover have "replay env e (request_hash_of env iid kind actor wr)
      = Inr (rc\<lparr>rc_event := stored_event (rc_event rc)\<rparr>)"
  proof -
    have "rc\<lparr>rc_event := e\<rparr> = receipt env e (rc_status rc)"
      using ev receipt_stored [of "rc_event rc" env "rc_status rc"] by (simp add: e_def)
    with ev show ?thesis by (simp add: replay_def e_def return_if_def ok_or_def)
  qed
  ultimately show ?thesis
    using write_input_guard [OF assms(2)] assms(4) by (simp add: write_input_def Let_def return_if_def)
qed

text \<open>The creation of the small ledger, repeated.\<close>

theorem write_replay_witness:
  "write_input demo_env demo_ledger 7 None AgentMcp ''agent'' demo_create 50 ''x'' ''y''
     = Inr ((receipt demo_env demo_event ''open'')\<lparr>rc_event := stored_event demo_event\<rparr>, demo_ledger)"
proof -
  have "7 \<in> set (lg_workspaces demo_ledger)" by (simp add: demo_ledger_def)
  from write_replay [OF rtranclp.rtrancl_refl demo_write rtranclp.rtrancl_refl this]
  show ?thesis by (simp add: receipt_def)
qed


section \<open>What a write does to the rows\<close>

lemma find_input_update:
  assumes "\<And>r. wi_id (f r) = wi_id r \<and> wi_workspace_id (f r) = wi_workspace_id r"
    and "lg_inputs lg' = update_where p f (lg_inputs lg)"
  shows "find_input lg' w i = map_option (\<lambda>r. if p r then f r else r) (find_input lg w i)"
  using assms by (simp add: find_input_def select_one_update_where is_input_def)

lemma commit_write_find:
  assumes "commit_write env w kind actor rid rh now fe prep lg = Inr (rc, lg')"
  shows "find_input lg' x i = map_option (\<lambda>r. if is_input w (wi_id (pr_input prep)) r
    then commit_row prep now fe r else r) (find_input lg x i)"
proof -
  have "lg_inputs lg' = update_where (is_input w (wi_id (pr_input prep))) (commit_row prep now fe) (lg_inputs lg)"
    by (rule commit_write_shape [OF assms])
  then show ?thesis by (intro find_input_update) simp_all
qed

text \<open>A write leaves a row alone, or it is an operation on that very input.\<close>

lemma write_input_row:
  assumes wr: "write_input env lg w iid kind actor wr t fi fe = Inr (rc, lg')"
    and r: "find_input lg x i = Some r"
  obtains (same) "find_input lg' x i = Some r"
  | (changed) prep where "x = w" "iid = Some i" "\<forall>q. wr \<noteq> Create q"
      "find_request lg w (fst (write_key wr)) = None"
      "prepare_existing env lg w iid kind actor wr = Inr (prep, lg)" "same_row r prep"
      "find_input lg' x i = Some (commit_row prep (utc_string env t) fe r)"
      "rc_status rc = wi_status (pr_input prep)"
  using wr
proof (cases rule: write_input_cases)
  case (replay e)
  with r show thesis by (intro same) simp
next
  case (commit prep lg1)
  note found = commit_write_find [OF commit(3), of x i]
  show thesis
  proof (cases "\<exists>q. wr = Create q")
    case True
    then obtain q where pc: "prepare_create env lg w kind actor q (utc_string env t) fi = Inr (prep, lg1)"
      using commit(2) by auto
    note c = prepare_create_Inr [OF pc]
    have "find_input lg1 x i = Some r"
      using r by (simp add: c(6) find_input_def select_one_append)
    moreover have "\<not> is_input w (wi_id (pr_input prep)) r"
      using find_input_Some [OF r] c(5,7) by (auto simp: is_input_iff)
    ultimately show thesis using found by (intro same) simp
  next
    case False
    then have pe: "prepare_existing env lg w iid kind actor wr = Inr (prep, lg1)"
      using commit(2) by (cases wr) auto
    obtain j s where s: "iid = Some j" "find_input lg w j = Some s" "same_row s prep" "lg1 = lg"
      using prepare_existing_Inr [OF pe] .
    have js: "wi_workspace_id s = w" "wi_id s = j" "wi_id (pr_input prep) = j"
      using find_input_Some [OF s(2)] s(3) by (simp_all add: is_input_iff same_row_def)
    have xr: "wi_workspace_id r = x" "wi_id r = i"
      using find_input_Some [OF r] by (simp_all add: is_input_iff)
    show thesis
    proof (cases "x = w \<and> i = j")
      case True
      have "rc_status rc = wi_status (pr_input prep)"
        by (rule commit_write_shape [OF commit(3)]) (simp add: receipt_def)
      with True False pe s js r found commit(1) show thesis
        by (intro changed) (auto simp: is_input_iff)
    next
      case False
      with found r s(4) js xr show thesis by (intro same) (auto simp: is_input_iff)
    qed
  qed
qed

section \<open>Optimistic concurrency\<close>

text \<open>The limits every write has to respect.\<close>

definition well_formed_key :: "string \<Rightarrow> string \<Rightarrow> bool" where
  "well_formed_key request_id actor =
     (request_id \<noteq> [] \<and> str_len request_id \<le> 128 \<and> actor \<noteq> [] \<and> str_len actor \<le> 256)"

lemma write_input_stale:
  assumes "find_input lg w i = Some r" and "wi_sequence r \<noteq> snd (write_key wr)" and "\<forall>q. wr \<noteq> Create q"
    and "find_request lg w (fst (write_key wr)) = None" and "well_formed_key (fst (write_key wr)) actor"
    and "w \<in> set (lg_workspaces lg)"
  shows "write_input env lg w (Some i) kind actor wr t fi fe = Inl (Sequence (wi_sequence r))"
  using assms
  by (cases wr) (auto simp: write_input_def well_formed_key_def Let_def return_if_def prepare_existing_def
      ok_or_def get_input_def)

lemma write_input_workspaces:
  assumes "write_input env lg w iid kind actor wr t fi fe = Inr (rc, lg')"
  shows "lg_workspaces lg' = lg_workspaces lg \<and> w \<in> set (lg_workspaces lg)"
  using assms
proof (cases rule: write_input_cases)
  case (commit prep lg1)
  have "lg_workspaces lg' = lg_workspaces lg1" by (rule commit_write_shape [OF commit(3)])
  moreover have "lg_workspaces lg1 = lg_workspaces lg"
    using commit(2) by (cases wr) (auto dest: prepare_create_Inr(6) elim!: prepare_existing_Inr)
  ultimately show ?thesis using commit(4) by simp
qed auto

text \<open>
  C26.  Optimistic concurrency: a write to an existing input commits only against the sequence
  number it names and moves it on by one, so of two writers that saw the same state the second
  is refused, and is told the new number.
\<close>

theorem write_optimistic:
  assumes "write_input env lg w (Some i) kind actor wr t fi fe = Inr (rc, lg1)"
    and "\<forall>q. wr \<noteq> Create q" and "find_request lg w (fst (write_key wr)) = None"
  shows "rc_sequence rc = snd (write_key wr) + 1
    \<and> map_option wi_sequence (find_input lg w i) = Some (snd (write_key wr))
    \<and> map_option wi_sequence (find_input lg1 w i) = Some (snd (write_key wr) + 1)
    \<and> (\<forall>wr2 kind2 actor2 t2 fi2 fe2. (\<forall>q. wr2 \<noteq> Create q) \<and> snd (write_key wr2) = snd (write_key wr)
        \<and> find_request lg1 w (fst (write_key wr2)) = None \<and> well_formed_key (fst (write_key wr2)) actor2
        \<longrightarrow> write_input env lg1 w (Some i) kind2 actor2 wr2 t2 fi2 fe2
            = Inl (Sequence (snd (write_key wr) + 1)))"
proof -
  obtain prep lg' where pe: "prepare_existing env lg w (Some i) kind actor wr = Inr (prep, lg')"
      and cw: "commit_write env w kind actor (fst (write_key wr)) (request_hash_of env (Some i) kind actor wr)
         (utc_string env t) fe prep lg' = Inr (rc, lg1)"
    using assms(1)
  proof (cases rule: write_input_cases)
    case (commit prep lg')
    then show thesis using assms(2) by (intro that [of prep lg']) (cases wr; simp)+
  qed (use assms(3) in simp)
  obtain r where r: "find_input lg w i = Some r" "wi_sequence r = snd (write_key wr)" "same_row r prep" "lg' = lg"
    by (rule prepare_existing_Inr [OF pe]) auto
  have rc: "rc_sequence rc = wi_sequence (pr_input prep) + 1"
    by (rule commit_write_shape [OF cw]) (simp add: receipt_def)
  have "is_input w (wi_id (pr_input prep)) r"
    using find_input_Some [OF r(1)] r(3) by (simp add: is_input_iff same_row_def)
  then have r1: "find_input lg1 w i = Some (commit_row prep (utc_string env t) fe r)"
    using commit_write_find [OF cw, of w i] r by simp
  have "rc_sequence rc = snd (write_key wr) + 1" using rc r by (simp add: same_row_def)
  moreover have "map_option wi_sequence (find_input lg1 w i) = Some (snd (write_key wr) + 1)"
    using r1 r by (simp add: same_row_def)
  moreover have "write_input env lg1 w (Some i) kind2 actor2 wr2 t2 fi2 fe2 = Inl (Sequence (snd (write_key wr) + 1))"
    if "\<forall>q. wr2 \<noteq> Create q" "snd (write_key wr2) = snd (write_key wr)"
      "find_request lg1 w (fst (write_key wr2)) = None" "well_formed_key (fst (write_key wr2)) actor2"
    for wr2 kind2 actor2 t2 fi2 fe2
    using write_input_stale [OF r1 _ that(1,3,4)] that(2) r write_input_workspaces [OF assms(1)]
    by (simp add: same_row_def)
  ultimately show ?thesis using r by simp
qed

text \<open>The owner answers the input of the small ledger.\<close>

definition demo_answer :: input_write where
  "demo_answer = Answer \<lparr>as_request_id = ''r2'', as_expected_sequence = 1, as_version = 1,
     as_answer = \<lparr>an_choice_id = Some ''yes'', an_text = None\<rparr>\<rparr>"

definition demo_answer_event :: input_event where
  "demo_answer_event = \<lparr>ev_cursor = 2, ev_id = ''ev2'', ev_workspace_id = 7, ev_input_id = ''in'',
     ev_sequence = 2, ev_actor_kind = ''owner_ui'', ev_actor = ''owner'', ev_event_type = ''answer_submitted'',
     ev_version = 1,
     ev_payload = JObj [(''answer'', answer_json \<lparr>an_choice_id = Some ''yes'', an_text = None\<rparr>),
       (''no_answer_yet'', JBool False), (''content_hash'', JStr ''{}''), (''status'', JStr ''answered''),
       (''show_at'', JNull)],
     ev_request_id = ''r2'', ev_request_hash = ''{}'', ev_created_at = ''1'', ev_prev_hash = ''{}'',
     ev_hash = ''{}''\<rparr>"

definition demo_answered :: ledger where
  "demo_answered = demo_ledger\<lparr>
     lg_inputs := [demo_row\<lparr>wi_status := ''answered'', wi_sequence := 2\<rparr>],
     lg_events := [stored_event demo_event, stored_event demo_answer_event],
     lg_availability := [\<lparr>av_generation = ''ev1'', av_workspace_id = 7, av_input_id = ''in'',
       av_available_event_id = Some ''ev1'', av_claim_token = None, av_claim_until = None,
       av_finished_at = Some ''1''\<rparr>],
     lg_high_water := 2\<rparr>"

lemmas demo_answer_defs = demo_defs demo_answer_def demo_answer_event_def demo_answered_def

lemma demo_answer_write:
  "write_input demo_env demo_ledger 7 (Some ''in'') OwnerUi ''owner'' demo_answer 6 ''x'' ''ev2''
     = Inr (receipt demo_env demo_answer_event ''answered'', demo_answered)"
  by (simp add: demo_answer_defs ledger_eval Let_def del: sorted_json.simps)

text \<open>A second writer still at sequence one is refused.\<close>

definition demo_close :: input_write where
  "demo_close = Status \<lparr>st_request_id = ''r3'', st_expected_sequence = 1, st_status = ''closed'', st_reason = None\<rparr>"

theorem write_optimistic_witness:
  "write_input demo_env demo_answered 7 (Some ''in'') AgentMcp ''agent'' demo_close 7 ''x'' ''ev3''
     = Inl (Sequence 2)"
proof -
  have "\<forall>q. demo_answer \<noteq> Create q" "find_request demo_ledger 7 (fst (write_key demo_answer)) = None"
    by (simp_all add: demo_answer_defs find_request_def select_one_def)
  note w = write_optimistic [OF demo_answer_write this]
  have "find_request demo_answered 7 ''r3'' = None" "well_formed_key ''r3'' ''agent''"
    by (simp_all add: demo_answer_defs find_request_def select_one_def well_formed_key_def str_len_def
        utf8_width_def code_point_def)
  with w show ?thesis by (simp add: demo_close_def demo_answer_def)
qed


section \<open>Status\<close>

text \<open>A cancelled input with its row unchanged but for the priority.\<close>

definition frozen :: "input_env \<Rightarrow> uuid \<Rightarrow> string \<Rightarrow> int \<Rightarrow> int \<Rightarrow> ledger \<Rightarrow> bool" where
  "frozen env w i n v lg = (ledger_inv env lg \<and> (\<exists>r. find_input lg w i = Some r
     \<and> wi_status r = ''cancelled'' \<and> wi_sequence r = n \<and> wi_current_version r = v))"

lemma prepare_existing_cancelled:
  assumes "prepare_existing env lg w (Some i) kind actor wr = Inr x" and "find_input lg w i = Some r"
  shows "wi_status r \<noteq> ''cancelled''"
  using assms
  by (cases wr) (auto simp: prepare_existing_def prepare_defs result_iffs get_input_def live_status_def)

lemma quiet_find:
  assumes "quiet lg lg'" and "find_input lg w i = Some r"
  shows "\<exists>s. find_input lg' w i = Some s \<and> wi_status s = wi_status r \<and> wi_sequence s = wi_sequence r
    \<and> wi_current_version s = wi_current_version r \<and> wi_creator s = wi_creator r"
proof -
  obtain p f where inputs: "lg_inputs lg' = update_where p f (lg_inputs lg)"
    and f: "\<And>r. wi_id (f r) = wi_id r \<and> wi_workspace_id (f r) = wi_workspace_id r
      \<and> wi_sequence (f r) = wi_sequence r \<and> wi_current_version (f r) = wi_current_version r
      \<and> wi_status (f r) = wi_status r \<and> wi_creator (f r) = wi_creator r"
    using assms(1) unfolding quiet_def by metis
  have "find_input lg' w i = map_option (\<lambda>r. if p r then f r else r) (find_input lg w i)"
    using f inputs by (intro find_input_update) auto
  with assms(2) f show ?thesis by simp
qed

lemma release_one_find:
  assumes ro: "release_one env now lg d fresh = Inr lg'" and inv: "ledger_inv env lg" and due: "due_ok lg d"
    and r: "find_input lg w i = Some r" "wi_status r \<noteq> ''open''"
  shows "find_input lg' w i = Some r"
proof -
  obtain e :: input_event where "lg_inputs lg' = update_where (is_input (du_workspace d) (du_input d))
        (\<lambda>r. r\<lparr>wi_sequence := ev_sequence e, wi_updated_at := now\<rparr>) (lg_inputs lg)"
    by (rule release_one_steps [OF ro]) (rule that; assumption)
  then have "find_input lg' w i = map_option (\<lambda>r. if is_input (du_workspace d) (du_input d) r
      then r\<lparr>wi_sequence := ev_sequence e, wi_updated_at := now\<rparr> else r) (find_input lg w i)"
    by (intro find_input_update) simp_all
  moreover have "\<not> is_input (du_workspace d) (du_input d) r"
  proof
    assume "is_input (du_workspace d) (du_input d) r"
    moreover obtain s where "s \<in> set (lg_inputs lg)" "is_input (du_workspace d) (du_input d) s" "wi_status s = ''open''"
      using due by (auto simp: due_ok_def)
    ultimately have "r = s"
      using distinct_input_eq [of lg r s] find_input_Some [OF r(1)] inv
      by (simp add: is_input_iff ledger_inv_def store_inv_def)
    with r(2) \<open>wi_status s = ''open''\<close> show False by simp
  qed
  ultimately show ?thesis using r(1) by simp
qed

lemma release_loop_find:
  "release_loop env now lg ds fresh k = Inr lg' \<Longrightarrow> ledger_inv env lg \<Longrightarrow> \<forall>d\<in>set ds. due_ok lg d
     \<Longrightarrow> distinct (map du_input ds) \<Longrightarrow> find_input lg w i = Some r \<Longrightarrow> wi_status r \<noteq> ''open''
     \<Longrightarrow> find_input lg' w i = Some r"
proof (induction ds arbitrary: lg k)
  case (Cons d ds)
  then obtain lg1 where 1: "release_one env now lg d (fresh k) = Inr lg1"
      and 2: "release_loop env now lg1 ds fresh (Suc k) = Inr lg'"
    by (auto simp: bind_err_Inr_iff)
  have due: "due_ok lg d" using Cons.prems(3) by simp
  obtain e f where ap: "appended env lg (du_workspace d) (du_input d) e f lg1"
    using release_one_appended [OF 1 Cons.prems(2) due] by blast
  show ?case
    by (rule Cons.IH [OF 2 release_one_inv [OF 1 Cons.prems(2) due]])
      (use Cons.prems(3-6) release_one_find [OF 1 Cons.prems(2) due]
        in \<open>auto simp: image_iff intro!: appended_due_ok [OF ap]\<close>)
qed simp

lemma frozen_step:
  assumes "frozen env w i n v lg" and "ledger_step env lg lg'"
  shows "frozen env w i n v lg'"
proof -
  obtain r where inv: "ledger_inv env lg" and r: "find_input lg w i = Some r" "wi_status r = ''cancelled''"
      "wi_sequence r = n" "wi_current_version r = v"
    using assms(1) by (auto simp: frozen_def)
  have nopen: "wi_status r \<noteq> ''open''" using r(2) by simp
  have quiet: "quiet lg lg' \<Longrightarrow> ?thesis"
    using quiet_find [of lg lg' w i r] r quiet_inv [of lg lg' env] inv by (auto simp: frozen_def)
  have inv': "ledger_inv env lg'" using inv assms(2) by (rule ledger_step_inv)
  from assms(2) show ?thesis
  proof cases
    case (write_step w' iid kind actor wr t fi fe rc)
    from write_step r(1) show ?thesis
    proof (cases rule: write_input_row)
      case same
      with r inv' show ?thesis by (simp add: frozen_def)
    next
      case (changed prep)
      with r prepare_existing_cancelled show ?thesis by blast
    qed
  next
    case (release_step t fresh k)
    then obtain lg2 where "release_loop env (utc_string env t) lg (due_rows lg (utc_string env t)) fresh 0 = Inr lg'"
      by (auto simp: release_due_def Let_def bind_err_Inr_iff)
    then have "find_input lg' w i = Some r"
      by (rule release_loop_find [OF _ inv due_rows_ok(1) [OF inv] due_rows_ok(2) [OF inv] r(1) nopen])
    with r inv' show ?thesis by (simp add: frozen_def)
  qed (use quiet set_priority_quiet claim_notification_quiet finish_notification_quiet quiet_workspaces in auto)
qed

interpretation cancelled_machine: invariant_system "ledger_step env" "frozen env w i n v" for env w i n v
  by unfold_locales (rule frozen_step)

text \<open>
  Cancelled is final: once an input is cancelled, no operation of any actor changes its
  status, its version or its log again.
\<close>

theorem cancelled_final:
  assumes "(ledger_step env)\<^sup>*\<^sup>* (empty_ledger ws) lg" and "find_input lg w i = Some r"
    and "wi_status r = ''cancelled''" and "(ledger_step env)\<^sup>*\<^sup>* lg lg'"
  shows "\<exists>s. find_input lg' w i = Some s \<and> wi_status s = ''cancelled''
    \<and> wi_current_version s = wi_current_version r \<and> events_of lg' w i = events_of lg w i"
proof -
  have "frozen env w i (wi_sequence r) (wi_current_version r) lg"
    using assms(2,3) reached_inv [OF assms(1)] by (simp add: frozen_def)
  then have fr: "frozen env w i (wi_sequence r) (wi_current_version r) lg'"
    using cancelled_machine.reach_inv [OF assms(4)] by blast
  then obtain s where s: "find_input lg' w i = Some s" "wi_status s = ''cancelled''"
      "wi_sequence s = wi_sequence r" "wi_current_version s = wi_current_version r"
    by (auto simp: frozen_def)
  have len: "find_input l w i = Some q \<Longrightarrow> ledger_inv env l \<Longrightarrow> wi_sequence q = int (length (events_of l w i))" for l q
    using find_input_Some [of l w i q] ledger_inv_input(1) [of env l q] by (auto simp: log_inv_def is_input_iff Let_def)
  have "length (events_of lg' w i) = length (events_of lg w i)"
    using len [OF s(1)] len [OF assms(2) reached_inv [OF assms(1)]] s(3) fr by (simp add: frozen_def)
  moreover have "\<exists>es. events_of lg' w i = events_of lg w i @ es"
    using ledger_machine.reach_le [OF assms(4) reached_inv [OF assms(1)]] by (auto simp: log_le_def events_of_def)
  ultimately show ?thesis using s by auto
qed


definition demo_cancel :: input_write where
  "demo_cancel = Status \<lparr>st_request_id = ''r2'', st_expected_sequence = 1, st_status = ''cancelled'', st_reason = None\<rparr>"

definition demo_cancelled :: ledger where
  "demo_cancelled = (case write_input demo_env demo_ledger 7 (Some ''in'') AgentMcp ''agent'' demo_cancel 6 ''x'' ''ev2'' of
     Inr (_, lg) \<Rightarrow> lg | Inl _ \<Rightarrow> demo_ledger)"

lemma demo_cancel_write:
  "\<exists>rc. write_input demo_env demo_ledger 7 (Some ''in'') AgentMcp ''agent'' demo_cancel 6 ''x'' ''ev2'' = Inr (rc, demo_cancelled)"
  unfolding demo_cancelled_def
  by (simp add: demo_defs demo_cancel_def ledger_eval Let_def del: sorted_json.simps)

lemma demo_cancelled_find:
  "find_input demo_cancelled 7 ''in'' = Some (demo_row\<lparr>wi_status := ''cancelled'', wi_sequence := 2\<rparr>)"
  unfolding demo_cancelled_def
  by (simp add: demo_defs demo_cancel_def ledger_eval Let_def del: sorted_json.simps)

lemma demo_cancelled_reached: "(ledger_step demo_env)\<^sup>*\<^sup>* (empty_ledger [7]) demo_cancelled"
  using demo_cancel_write demo_reached by (auto intro: rtranclp.rtrancl_into_rtrancl write_step)

theorem cancelled_final_witness:
  "\<exists>s. find_input (demo_cancelled\<lparr>lg_workspaces := []\<rparr>) 7 ''in'' = Some s \<and> wi_status s = ''cancelled''
     \<and> wi_current_version s = 1
     \<and> events_of (demo_cancelled\<lparr>lg_workspaces := []\<rparr>) 7 ''in'' = events_of demo_cancelled 7 ''in''"
proof -
  have "(ledger_step demo_env)\<^sup>*\<^sup>* demo_cancelled (demo_cancelled\<lparr>lg_workspaces := []\<rparr>)"
    by (rule r_into_rtranclp) (rule workspace_step [OF refl])
  from cancelled_final [OF demo_cancelled_reached demo_cancelled_find _ this]
  show ?thesis by (simp add: demo_row_def)
qed

text \<open>What the contract of a question allows as an answer.\<close>

definition blank_answer :: "input_answer \<Rightarrow> bool" where
  "blank_answer a = (an_choice_id a = None \<and> (\<forall>t. an_text a = Some t \<longrightarrow> trim t = []))"

definition answer_allowed :: "input_contract \<Rightarrow> input_answer \<Rightarrow> bool" where
  "answer_allowed c a =
     ((\<forall>i. an_choice_id a = Some i \<longrightarrow> i \<in> ch_id ` set (choices c))
      \<and> (\<forall>t. an_text a = Some t \<and> t \<noteq> [] \<longrightarrow> allow_text c)
      \<and> (blank_answer a \<longrightarrow> allow_no_answer_yet c))"

lemma validate_answer_Inr:
  "validate_answer env c a = Inr b \<longleftrightarrow>
     str_len (json_to_string env (answer_json a)) \<le> MAX_ANSWER_BYTES \<and> answer_allowed c a \<and> b = blank_answer a"
  by (auto simp: validate_answer_def answer_allowed_def blank_answer_def Let_def split: option.splits if_splits)

text \<open>
  An answer is accepted only from the owner, for the version on display, while the input is
  open, and only when the contract of that version allows it; the input becomes answered unless
  the answer is blank, which leaves it open.
\<close>

theorem answer_accepted:
  assumes "write_input env lg w (Some i) kind actor (Answer q) t fi fe = Inr (rc, lg1)"
    and "find_request lg w (as_request_id q) = None"
  shows "kind = OwnerUi \<and> (\<exists>r v. find_input lg w i = Some r \<and> wi_status r = ''open''
    \<and> as_version q = wi_current_version r \<and> find_version lg w i (as_version q) = Some v
    \<and> answer_allowed (vr_contract v) (as_answer q)
    \<and> rc_status rc = (if blank_answer (as_answer q) then ''open'' else ''answered''))"
  using assms(1)
proof (cases rule: write_input_cases)
  case (replay e)
  with assms(2) show ?thesis by simp
next
  case (commit prep lg1')
  have pe: "prepare_existing env lg w (Some i) kind actor (Answer q) = Inr (prep, lg1')"
    using commit(2) by simp
  then obtain r where found: "find_input lg w i = Some r" and pa: "prepare_answer env lg w i kind q r = Inr prep"
    by (auto simp: prepare_existing_def result_iffs get_input_def)
  obtain v na where r: "kind = OwnerUi" "wi_status r = ''open''"
      "as_version q = wi_current_version r" "find_version lg w i (wi_current_version r) = Some v"
      "validate_answer env (vr_contract v) (as_answer q) = Inr na"
      "prep = \<lparr>pr_input = (if na then r else r\<lparr>wi_status := ''answered''\<rparr>), pr_event_type = ''answer_submitted'',
         pr_payload = JObj [(''answer'', answer_json (as_answer q)), (''no_answer_yet'', JBool na),
           (''content_hash'', JStr (vr_content_hash v))], pr_content = None, pr_new_generation = False\<rparr>"
    using pa unfolding prepare_answer_def result_iffs by blast
  moreover have "rc_status rc = wi_status (pr_input prep)"
    by (rule commit_write_shape [OF commit(3)]) (simp add: receipt_def)
  ultimately have "rc_status rc = (if na then ''open'' else ''answered'')" by simp
  with found r show ?thesis by (simp add: validate_answer_Inr)
qed

theorem answer_accepted_witness:
  "\<exists>v. find_version demo_ledger 7 ''in'' 1 = Some v
     \<and> answer_allowed (vr_contract v) \<lparr>an_choice_id = Some ''yes'', an_text = None\<rparr>"
proof -
  have "find_request demo_ledger 7 ''r2'' = None"
    by (simp add: demo_defs find_request_def select_one_def)
  with answer_accepted [OF demo_answer_write [unfolded demo_answer_def]] show ?thesis by auto
qed

section \<open>Tamper evidence\<close>












section \<open>Writes do not fail in the database\<close>

text \<open>The ids drawn by a write are new.\<close>

definition fresh_ids :: "ledger \<Rightarrow> string \<Rightarrow> string \<Rightarrow> bool" where
  "fresh_ids lg fi fe = (fi \<notin> wi_id ` set (lg_inputs lg) \<and> fe \<notin> ev_id ` set (lg_events lg)
     \<and> fe \<notin> av_generation ` set (lg_availability lg))"

lemma input_owner:
  assumes keys: "keys_inv lg" and r: "r \<in> set (lg_inputs lg)"
  shows "e \<in> set (lg_events lg) \<Longrightarrow> ev_input_id e = wi_id r \<Longrightarrow> ev_workspace_id e = wi_workspace_id r"
    and "v \<in> set (lg_versions lg) \<Longrightarrow> vr_input_id v = wi_id r \<Longrightarrow> vr_workspace_id v = wi_workspace_id r"
proof -
  show "ev_workspace_id e = wi_workspace_id r" if e: "e \<in> set (lg_events lg)" "ev_input_id e = wi_id r"
  proof -
    obtain s where "s \<in> set (lg_inputs lg)" "is_input (ev_workspace_id e) (ev_input_id e) s"
      using keys e(1) by (auto simp: keys_inv_def)
    with distinct_input_eq [OF keys _ r, of s] e(2) show ?thesis by (simp add: is_input_iff)
  qed
  show "vr_workspace_id v = wi_workspace_id r" if v: "v \<in> set (lg_versions lg)" "vr_input_id v = wi_id r"
  proof -
    obtain s where "s \<in> set (lg_inputs lg)" "is_input (vr_workspace_id v) (vr_input_id v) s"
      using keys v(1) by (auto simp: keys_inv_def)
    with distinct_input_eq [OF keys _ r, of s] v(2) show ?thesis by (simp add: is_input_iff)
  qed
qed

lemma chain_bound: "chain env prev n es \<Longrightarrow> e \<in> set es \<Longrightarrow> ev_sequence e \<le> n + int (length es)"
  using chain_sequences [of env prev n es] by (metis atLeastAtMost_iff image_eqI list.set_map set_upto)

lemma start_generation_total:
  "\<not> (\<exists>a\<in>set (lg_availability lg). av_generation a = ev) \<Longrightarrow> \<exists>lg'. start_generation lg w input ev now = Inr lg'"
  by (simp add: start_generation_def Let_def)

lemma commit_succeeds:
  assumes st: "store_inv env lg" and ok: "prepared_ok lg w prep"
    and ids: "fe \<notin> ev_id ` set (lg_events lg)" "fe \<notin> av_generation ` set (lg_availability lg)"
    and rid: "find_request lg w rid = None"
  shows "\<exists>rc lg'. commit_write env w kind actor rid rh now fe prep lg = Inr (rc, lg')"
proof -
  let ?i = "wi_id (pr_input prep)"
  define input where "input = (pr_input prep)\<lparr>wi_sequence := wi_sequence (pr_input prep) + 1\<rparr>"
  obtain r where r: "r \<in> set (lg_inputs lg)" "is_input w ?i r" "wi_sequence (pr_input prep) = wi_sequence r"
    using ok by (auto simp: prepared_ok_def)
  have keys: "keys_inv lg" using st by (simp add: store_inv_def)
  have log: "chain env [] 0 (events_of lg w ?i)" "wi_sequence r = int (length (events_of lg w ?i))"
      "map vr_version (versions_of lg w ?i) = [1..int (length (versions_of lg w ?i))]"
    using st r(1,2) by (auto simp: store_inv_def log_inv_def is_input_iff Let_def)
  have ev: "ev_sequence e \<le> wi_sequence r" if "e \<in> set (lg_events lg)" "ev_input_id e = ?i" for e
  proof -
    have "e \<in> set (events_of lg w ?i)"
      using that input_owner(1) [OF keys r(1), of e] r(2) by (simp add: events_of_def is_input_iff)
    from chain_bound [OF log(1) this] log(2) show ?thesis by simp
  qed
  have vr: "vr_version v \<le> int (length (versions_of lg w ?i))"
    if "v \<in> set (lg_versions lg)" "vr_input_id v = ?i" for v
  proof -
    have "v \<in> set (versions_of lg w ?i)"
      using that input_owner(2) [OF keys r(1), of v] r(2) by (simp add: versions_of_def is_input_iff)
    then have "vr_version v \<in> set [1..int (length (versions_of lg w ?i))]"
      unfolding log(3) [symmetric] by simp
    then show ?thesis by simp
  qed
  obtain lg1 where lg1: "(case pr_content prep of None \<Rightarrow> Inr lg | Some c \<Rightarrow> insert_version env lg w input c) = Inr lg1"
      "lg_events lg1 = lg_events lg" "lg_availability lg1 = lg_availability lg" "lg_inputs lg1 = lg_inputs lg"
  proof (cases "pr_content prep")
    case (Some c)
    have "\<not> (\<exists>v\<in>set (lg_versions lg). vr_input_id v = wi_id input \<and> vr_version v = wi_current_version input)"
      using vr ok Some by (fastforce simp: input_def prepared_ok_def)
    then obtain lg2 where "insert_version env lg w input c = Inr lg2" by (simp add: insert_version_def)
    with Some show thesis by (intro that [of lg2]) (auto dest: insert_version_Inr)
  qed (use that in simp)
  define event where "event = write_event lg1 w input kind actor (pr_event_type prep)
    (json_set ''show_at'' (json_opt_str (wi_show_at input)) (json_set ''status'' (JStr (wi_status input)) (pr_payload prep)))
    rid rh now fe"
  have "\<not> event_conflicts (event\<lparr>ev_hash := h, ev_cursor := c\<rparr>) q" if "q \<in> set (lg_events lg)" for q h c
  proof -
    have "ev_input_id q = ?i \<longrightarrow> ev_sequence q \<noteq> wi_sequence r + 1" using ev [OF that] by auto
    moreover have "ev_id q \<noteq> fe" using ids(1) that by auto
    moreover have "\<not> (ev_workspace_id q = w \<and> ev_request_id q = rid)"
      using rid that by (auto simp: find_request_def select_one_None)
    ultimately show ?thesis
      using r(3) by (simp add: event_conflicts_def event_def write_event_def input_def)
  qed
  then obtain e lg2 where lg2: "insert_event env lg1 event = Inr (e, lg2)" "ev_id e = fe"
      "lg_availability lg2 = lg_availability lg"
    using lg1 by (auto simp: insert_event_def Let_def event_def write_event_def)
  define lg4 where "lg4 = (if pr_new_generation prep \<or> wi_status input \<noteq> ''open''
    then finish_open_availability (update_input lg2 w input now) w (wi_id input) now
    else update_input lg2 w input now)"
  have "\<not> (\<exists>a\<in>set (lg_availability lg4). av_generation a = fe)"
    using ids(2) lg2(3) by (auto simp: lg4_def update_input_def finish_open_availability_def bex_update_where
        set_update_where)
  then have "\<exists>lg5. (if pr_new_generation prep then start_generation lg4 w input (ev_id e) now else Inr lg4) = Inr lg5"
    using lg2(2) start_generation_total [of lg4 fe w input now] by simp
  then obtain lg5 where g: "(if pr_new_generation prep then start_generation lg4 w input (ev_id e) now else Inr lg4) = Inr lg5"
    by blast
  have "commit_write env w kind actor rid rh now fe prep lg = Inr (receipt env e (wi_status input), lg5)"
    unfolding commit_write_def Let_def input_def [symmetric]
    by (simp only: lg1(1) bind_err_simps lg2(1) [unfolded event_def] prod.case lg4_def [symmetric] g)
  then show ?thesis by blast
qed


lemma find_version_current:
  assumes inv: "ledger_inv env lg" and r: "find_input lg w i = Some r"
  shows "\<exists>v. find_version lg w i (wi_current_version r) = Some v"
proof -
  have "r \<in> set (lg_inputs lg)" "wi_workspace_id r = w" "wi_id r = i"
    using find_input_Some [OF r] by (simp_all add: is_input_iff)
  then have vs: "map vr_version (versions_of lg w i) = [1..int (length (versions_of lg w i))]"
      "wi_current_version r = int (length (versions_of lg w i))" "versions_of lg w i \<noteq> []"
    using ledger_inv_input [OF inv, of r] by (auto simp: log_inv_def projection_inv_def Let_def)
  then have "wi_current_version r \<in> set (map vr_version (versions_of lg w i))"
    unfolding vs by (cases "versions_of lg w i") auto
  then show ?thesis
    by (cases "find_version lg w i (wi_current_version r)")
      (auto simp: find_version_def select_one_None versions_of_def)
qed


lemma last_event_exists:
  assumes inv: "ledger_inv env lg" and r: "find_input lg w i = Some r"
  shows "events_of lg w i \<noteq> [] \<and> last_event lg w i = Some (last (events_of lg w i))"
proof -
  have "r \<in> set (lg_inputs lg)" "wi_workspace_id r = w" "wi_id r = i"
    using find_input_Some [OF r] by (simp_all add: is_input_iff)
  then have "chain env [] 0 (events_of lg w i)" "events_of lg w i \<noteq> []"
    using ledger_inv_input [OF inv, of r] by (auto simp: log_inv_def projection_inv_def Let_def)
  then show ?thesis by (simp add: last_event_def chain_last)
qed











section \<open>Closing and undoing\<close>

lemma find_version_bound:
  assumes inv: "ledger_inv env lg" and r: "find_input lg w i = Some r" and v: "find_version lg w i n = Some v"
  shows "n \<le> wi_current_version r"
proof -
  have ri: "r \<in> set (lg_inputs lg)" "wi_workspace_id r = w" "wi_id r = i"
    using find_input_Some [OF r] by (simp_all add: is_input_iff)
  have "v \<in> set (versions_of lg w i)" "vr_version v = n"
    using select_one_Some [OF v [unfolded find_version_def]] by (auto simp: versions_of_def)
  then have "n \<in> set (map vr_version (versions_of lg w i))" by auto
  with ledger_inv_input [OF inv ri(1)] ri(2,3) show ?thesis
    by (simp add: log_inv_def projection_inv_def Let_def del: list.set_map)
qed

lemma prepare_status_closed:
  assumes "prepare_status kind q r = Inr prep" and "st_status q = ''closed''"
  shows "live_status (wi_status r)"
    and "prep = \<lparr>pr_input = r\<lparr>wi_status := ''closed''\<rparr>, pr_event_type = ''closed'',
      pr_payload = JObj [(''prior_status'', JStr (wi_status r)), (''reason'', json_opt_str (st_reason q))],
      pr_content = None, pr_new_generation = False\<rparr>"
  using assms by (auto simp: prepare_status_def result_iffs Let_def)

text \<open>What closing leaves for the undo to find.\<close>

lemma owner_close:
  assumes wr: "write_input env lg w (Some i) OwnerUi actor (Status q) t fi fe = Inr (rc, lg1)"
    and q: "st_status q = ''closed''" and none: "find_request lg w (st_request_id q) = None"
    and inv: "ledger_inv env lg" and r: "find_input lg w i = Some r"
  shows "live_status (wi_status r)" "lg_versions lg1 = lg_versions lg"
    and "\<exists>r1. find_input lg1 w i = Some r1 \<and> wi_status r1 = ''closed'' \<and> wi_sequence r1 = wi_sequence r + 1
      \<and> wi_current_version r1 = wi_current_version r \<and> wi_id r1 = i \<and> wi_workspace_id r1 = w"
    and "\<exists>e. last_event lg1 w i = Some e \<and> ev_event_type e = ''closed'' \<and> ev_actor_kind e = ''owner_ui''
      \<and> ev_actor e = actor \<and> as_str (json_get (ev_payload e) ''prior_status'') = Some (wi_status r)"
proof -
  obtain prep where pe: "prepare_existing env lg w (Some i) OwnerUi actor (Status q) = Inr (prep, lg)"
      and cw: "commit_write env w OwnerUi actor (st_request_id q) (request_hash_of env (Some i) OwnerUi actor (Status q))
         (utc_string env t) fe prep lg = Inr (rc, lg1)"
    using wr
  proof (cases rule: write_input_cases)
    case (commit prep lg')
    then have "prepare_existing env lg w (Some i) OwnerUi actor (Status q) = Inr (prep, lg')" by simp
    moreover from this have "lg' = lg" by (auto elim: prepare_existing_Inr)
    ultimately show thesis using commit by (intro that) auto
  qed (use none in simp)
  have ps: "prepare_status OwnerUi q r = Inr prep"
    using pe r by (auto simp: prepare_existing_def result_iffs get_input_def)
  note prep = prepare_status_closed [OF ps q]
  have ri: "wi_workspace_id r = w" "wi_id r = i" using find_input_Some [OF r] by (simp_all add: is_input_iff)
  show "live_status (wi_status r)" by (rule prep(1))
  obtain e where e: "lg_events lg1 = lg_events lg @ [stored_event e]"
      "ev_workspace_id e = w" "ev_input_id e = wi_id (pr_input prep)"
      "ev_payload e = json_set ''show_at'' (json_opt_str (wi_show_at (pr_input prep)))
         (json_set ''status'' (JStr (wi_status (pr_input prep))) (pr_payload prep))"
      "ev_event_type e = pr_event_type prep" "ev_actor_kind e = actor_kind_str OwnerUi" "ev_actor e = actor"
    and v: "case pr_content prep of None \<Rightarrow> lg_versions lg1 = lg_versions lg
     | Some c \<Rightarrow> \<exists>v. lg_versions lg1 = lg_versions lg @ [v] \<and> vr_workspace_id v = w
         \<and> vr_input_id v = wi_id (pr_input prep) \<and> vr_version v = wi_current_version (pr_input prep)
         \<and> vr_title v = ct_title c \<and> vr_html v = ct_html c \<and> vr_contract v = ct_contract c"
    by (rule commit_write_shape [OF cw]) (rule that; assumption)
  show "lg_versions lg1 = lg_versions lg" using v prep(2) by simp
  have r1: "find_input lg1 w i = Some (commit_row prep (utc_string env t) fe r)"
    using commit_write_find [OF cw, of w i] r ri prep(2) by (simp add: is_input_iff)
  then show "\<exists>r1. find_input lg1 w i = Some r1 \<and> wi_status r1 = ''closed'' \<and> wi_sequence r1 = wi_sequence r + 1
      \<and> wi_current_version r1 = wi_current_version r \<and> wi_id r1 = i \<and> wi_workspace_id r1 = w"
    using prep(2) ri by simp
  have "last (events_of lg1 w i) = stored_event e"
    using e(1-3) prep(2) ri by (simp add: events_of_def)
  then have "last_event lg1 w i = Some (stored_event e)"
    using last_event_exists [OF write_input_inv [OF wr inv] r1] by simp
  moreover have "as_str (json_get (ev_payload e) ''prior_status'') = Some (wi_status r)"
    by (simp add: e(4) prep(2) json_set_def json_get_def map_of_entries_set)
  then have "as_str (json_get (sorted_json (ev_payload e)) ''prior_status'') = Some (wi_status r)"
    by (rule as_str_sorted)
  ultimately show "\<exists>e. last_event lg1 w i = Some e \<and> ev_event_type e = ''closed'' \<and> ev_actor_kind e = ''owner_ui''
      \<and> ev_actor e = actor \<and> as_str (json_get (ev_payload e) ''prior_status'') = Some (wi_status r)"
    using e(5-7) prep(2) by simp
qed

text \<open>
  C31.  Undo: after the owner closes an input, the same owner can undo the closing; the undo
  commits, gives the input back the status it had, and publishes the version that was on
  display again as the next version.
\<close>

theorem close_undo_roundtrip:
  assumes "(ledger_step env)\<^sup>*\<^sup>* (empty_ledger ws) lg" and "find_input lg w i = Some r"
    and "write_input env lg w (Some i) OwnerUi actor (Status q) t fi fe = Inr (rc, lg1)"
    and "st_status q = ''closed''" and "find_request lg w (st_request_id q) = None"
    and "st_expected_sequence u = wi_sequence r + 1" and "find_request lg1 w (st_request_id u) = None"
    and "well_formed_key (st_request_id u) actor" and "fresh_ids lg1 fi' fe'"
  shows "\<exists>rc2 lg2 r2 v v2. write_input env lg1 w (Some i) OwnerUi actor (Undo u) t' fi' fe' = Inr (rc2, lg2)
    \<and> find_input lg2 w i = Some r2 \<and> wi_status r2 = wi_status r
    \<and> wi_current_version r2 = wi_current_version r + 1
    \<and> find_version lg w i (wi_current_version r) = Some v
    \<and> find_version lg2 w i (wi_current_version r + 1) = Some v2
    \<and> vr_title v2 = vr_title v \<and> vr_html v2 = vr_html v \<and> vr_contract v2 = vr_contract v"
proof -
  have inv: "ledger_inv env lg" using assms(1) by (rule reached_inv)
  have inv1: "ledger_inv env lg1" using assms(3) inv by (rule write_input_inv)
  note close = owner_close [OF assms(3,4,5) inv assms(2)]
  obtain r1 where r1: "find_input lg1 w i = Some r1" "wi_status r1 = ''closed''" "wi_sequence r1 = wi_sequence r + 1"
      "wi_current_version r1 = wi_current_version r" "wi_id r1 = i" "wi_workspace_id r1 = w"
    using close(3) by blast
  obtain e where e: "last_event lg1 w i = Some e" "ev_event_type e = ''closed''" "ev_actor_kind e = ''owner_ui''"
      "ev_actor e = actor" "as_str (json_get (ev_payload e) ''prior_status'') = Some (wi_status r)"
    using close(4) by blast
  obtain v where v: "find_version lg w i (wi_current_version r) = Some v"
    using find_version_current [OF inv assms(2)] by blast
  then have v1: "find_version lg1 w i (wi_current_version r) = Some v"
    using close(2) by (simp add: find_version_def)
  define snapshot where "snapshot = \<lparr>ct_title = vr_title v, ct_html = vr_html v, ct_contract = vr_contract v\<rparr>"
  define prep where "prep = \<lparr>pr_input = r1\<lparr>wi_status := wi_status r, wi_current_version := wi_current_version r + 1\<rparr>,
     pr_event_type = ''version_published'',
     pr_payload = JObj [(''undo_event_id'', JStr (ev_id e)), (''content'', content_json snapshot)],
     pr_content = Some snapshot, pr_new_generation = (wi_status r = ''open'')\<rparr>"
  have pe: "prepare_existing env lg1 w (Some i) OwnerUi actor (Undo u) = Inr (prep, lg1)"
    using r1 e v1 close(1) assms(6)
    by (simp add: prepare_existing_def prepare_undo_def get_input_def ok_or_def return_if_def Let_def
        prep_def snapshot_def)
  have "prepared_ok lg1 w prep" using prepare_existing_ok [OF pe inv1] by simp
  then obtain rc2 lg2 where cw: "commit_write env w OwnerUi actor (st_request_id u)
      (request_hash_of env (Some i) OwnerUi actor (Undo u)) (utc_string env t') fe' prep lg1 = Inr (rc2, lg2)"
    using commit_succeeds [of env lg1 w prep fe' "st_request_id u" OwnerUi actor
        "request_hash_of env (Some i) OwnerUi actor (Undo u)" "utc_string env t'"] inv1 assms(7,9)
    by (auto simp: ledger_inv_def fresh_ids_def)
  have "write_input env lg1 w (Some i) OwnerUi actor (Undo u) t' fi' fe' = Inr (rc2, lg2)"
    using assms(7,8) write_input_workspaces [OF assms(3)] pe cw
    by (simp add: write_input_def well_formed_key_def return_if_def Let_def)
  moreover have "find_input lg2 w i = Some (commit_row prep (utc_string env t') fe' r1)"
    using commit_write_find [OF cw, of w i] r1 by (simp add: is_input_iff prep_def)
  moreover obtain v2 where v2: "lg_versions lg2 = lg_versions lg1 @ [v2]" "vr_workspace_id v2 = w" "vr_input_id v2 = i"
      "vr_version v2 = wi_current_version r + 1" "vr_title v2 = vr_title v" "vr_html v2 = vr_html v"
      "vr_contract v2 = vr_contract v"
    by (rule commit_write_shape [OF cw]) (use that r1 in \<open>auto simp: prep_def snapshot_def\<close>)
  moreover have "find_version lg1 w i (wi_current_version r + 1) = None"
    using find_version_bound [OF inv1 r1(1), of "wi_current_version r + 1"] r1(4) by (cases "find_version lg1 w i (wi_current_version r + 1)") auto
  then have "find_version lg2 w i (wi_current_version r + 1) = Some v2"
    using v2 by (simp add: find_version_def select_one_snoc)
  ultimately show ?thesis using v by (auto simp: prep_def)
qed


definition demo_closed :: ledger where
  "demo_closed = (case write_input demo_env demo_ledger 7 (Some ''in'') OwnerUi ''owner'' demo_close 6 ''x'' ''ev2'' of
     Inr (_, lg) \<Rightarrow> lg | Inl _ \<Rightarrow> demo_ledger)"

lemma demo_close_write:
  "\<exists>rc. write_input demo_env demo_ledger 7 (Some ''in'') OwnerUi ''owner'' demo_close 6 ''x'' ''ev2'' = Inr (rc, demo_closed)"
  unfolding demo_closed_def
  by (simp add: demo_defs demo_close_def ledger_eval Let_def del: sorted_json.simps)

lemma demo_closed_fresh: "find_request demo_closed 7 ''r4'' = None" "fresh_ids demo_closed ''x'' ''ev3''"
  unfolding demo_closed_def fresh_ids_def
  by (simp_all add: demo_defs demo_close_def ledger_eval Let_def del: sorted_json.simps)

text \<open>The owner closes the input of the small ledger and undoes it.\<close>

theorem close_undo_roundtrip_witness:
  "\<exists>rc2 lg2 r2. write_input demo_env demo_closed 7 (Some ''in'') OwnerUi ''owner''
       (Undo \<lparr>st_request_id = ''r4'', st_expected_sequence = 2, st_status = [], st_reason = None\<rparr>) 7 ''x'' ''ev3''
       = Inr (rc2, lg2)
     \<and> find_input lg2 7 ''in'' = Some r2 \<and> wi_status r2 = ''open'' \<and> wi_current_version r2 = 2"
proof -
  obtain rc where "write_input demo_env demo_ledger 7 (Some ''in'') OwnerUi ''owner'' demo_close 6 ''x'' ''ev2'' = Inr (rc, demo_closed)"
    using demo_close_write by blast
  note w = close_undo_roundtrip [OF demo_reached demo_find this [unfolded demo_close_def], where fi' = "''x''" and fe' = "''ev3''" and t' = 7
      and u = "\<lparr>st_request_id = ''r4'', st_expected_sequence = 2, st_status = [], st_reason = None\<rparr>"]
  have "find_request demo_ledger 7 ''r3'' = None" by (simp add: demo_defs find_request_def select_one_def)
  moreover have "well_formed_key ''r4'' ''owner''"
    by (simp add: well_formed_key_def str_len_def utf8_width_def code_point_def)
  ultimately show ?thesis using w demo_closed_fresh by (simp add: demo_row_def) blast
qed

end
