(* ===== verification/InputDelivery.thy ===== *)
theory InputDelivery
  imports InputSafety
begin

text \<open>
  Release of scheduled inputs, notification claims and the paged event feed: a release is
  bounded and only touches due inputs, a claim excludes its competitors until it expires, a
  stale claim cannot finish, and following the cursor of the feed neither loses nor repeats an
  event.
\<close>

section \<open>Release\<close>

lemma release_one_events:
  assumes "release_one env now lg d fresh = Inr lg'"
  shows "\<exists>e. lg_events lg' = lg_events lg @ [e] \<and> ev_event_type e = ''available'' \<and> ev_workspace_id e = du_workspace d
    \<and> ev_input_id e = du_input d"
  by (rule release_one_steps [OF assms]) (auto simp: available_event_def)

lemma release_loop_events:
  "release_loop env now lg ds fresh k = Inr lg' \<Longrightarrow>
     \<exists>es. lg_events lg' = lg_events lg @ es \<and> length es = length ds
       \<and> map (\<lambda>e. (ev_workspace_id e, ev_input_id e)) es = map (\<lambda>d. (du_workspace d, du_input d)) ds
       \<and> (\<forall>e\<in>set es. ev_event_type e = ''available'')"
proof (induction ds arbitrary: lg k)
  case (Cons d ds)
  then obtain lg1 where 1: "release_one env now lg d (fresh k) = Inr lg1"
      and 2: "release_loop env now lg1 ds fresh (Suc k) = Inr lg'"
    by (auto simp: bind_err_Inr_iff)
  from Cons.IH [OF 2] release_one_events [OF 1] obtain e es where
    "lg_events lg' = lg_events lg @ (e # es)" "length es = length ds"
    "map (\<lambda>e. (ev_workspace_id e, ev_input_id e)) (e # es) = map (\<lambda>d. (du_workspace d, du_input d)) (d # ds)"
    "\<forall>x\<in>set (e # es). ev_event_type x = ''available''"
    by auto
  then show ?case by (intro exI [of _ "e # es"]) simp
qed simp

lemma due_rows_due:
  assumes "d \<in> set (due_rows lg now)"
  obtains a i where "i \<in> set (lg_inputs lg)" "wi_workspace_id i = du_workspace d" "wi_id i = du_input d"
    "wi_status i = ''open''" "shown now i" "a \<in> set (lg_availability lg)" "av_finished_at a = None"
    "av_available_event_id a = None" "wi_availability_generation i = Some (av_generation a)"
proof -
  have "d \<in> set (due_pairs lg now (lg_availability lg))"
    using assms by (auto simp: due_rows_pairs dest: in_set_takeD)
  then obtain a i where "a \<in> set (lg_availability lg)" "i \<in> set (lg_inputs lg)" "current_pair lg now a i"
      "av_available_event_id a = None" "d = due_of a i"
    by (rule due_pairs_mem)
  then show thesis by (intro that [of i a]) (auto simp: current_pair_def due_of_def)
qed

text \<open>
  A release appends one \<open>available\<close> event for each of at most a hundred inputs, and each of
  them is open, its time has come, and its current generation was neither released nor finished
  before.
\<close>

theorem release_due_bounded:
  assumes "release_due env lg t fresh = Inr (n, lg')"
  shows "n \<le> 100 \<and> (\<exists>es. lg_events lg' = lg_events lg @ es \<and> length es = n
    \<and> (\<forall>e\<in>set es. ev_event_type e = ''available'' \<and> (\<exists>i\<in>set (lg_inputs lg). \<exists>a\<in>set (lg_availability lg).
          is_input (ev_workspace_id e) (ev_input_id e) i \<and> wi_status i = ''open'' \<and> shown (utc_string env t) i
          \<and> wi_availability_generation i = Some (av_generation a)
          \<and> av_available_event_id a = None \<and> av_finished_at a = None)))"
proof -
  let ?now = "utc_string env t"
  have n: "n = length (due_rows lg ?now)" and loop: "release_loop env ?now lg (due_rows lg ?now) fresh 0 = Inr lg'"
    using assms by (auto simp: release_due_def Let_def bind_err_Inr_iff)
  obtain es where es: "lg_events lg' = lg_events lg @ es" "length es = n"
      "map (\<lambda>e. (ev_workspace_id e, ev_input_id e)) es = map (\<lambda>d. (du_workspace d, du_input d)) (due_rows lg ?now)"
      "\<forall>e\<in>set es. ev_event_type e = ''available''"
    using release_loop_events [OF loop] n by blast
  have "\<exists>i\<in>set (lg_inputs lg). \<exists>a\<in>set (lg_availability lg). is_input (ev_workspace_id e) (ev_input_id e) i
      \<and> wi_status i = ''open'' \<and> shown ?now i \<and> wi_availability_generation i = Some (av_generation a)
      \<and> av_available_event_id a = None \<and> av_finished_at a = None" if "e \<in> set es" for e
  proof -
    have "(ev_workspace_id e, ev_input_id e) \<in> set (map (\<lambda>d. (du_workspace d, du_input d)) (due_rows lg ?now))"
      unfolding es(3) [symmetric] using that by force
    then obtain d where d: "d \<in> set (due_rows lg ?now)" "ev_workspace_id e = du_workspace d" "ev_input_id e = du_input d"
      by auto
    show ?thesis by (rule due_rows_due [OF d(1)]) (use d in \<open>auto simp: is_input_iff\<close>)
  qed
  moreover have "n \<le> 100" using n by (simp add: due_rows_def)
  ultimately show ?thesis using es by blast
qed

section \<open>Claims\<close>

lemma claim_notification_Some:
  assumes "claim_notification env lg t token = (Some claim, lg')"
  obtains a where "a \<in> set (lg_availability lg)" "claimable lg (utc_string env t) a"
    "claim = \<lparr>nc_generation = av_generation a, nc_workspace_id = av_workspace_id a, nc_token = token\<rparr>"
    "lg' = lg\<lparr>lg_availability := update_where (\<lambda>b. av_generation b = av_generation a)
       (\<lambda>b. b\<lparr>av_claim_token := Some token, av_claim_until := Some (utc_string env (t + 60))\<rparr>) (lg_availability lg)\<rparr>"
  using assms by (auto simp: claim_notification_def Let_def split: option.splits dest!: limit_one_Some)

text \<open>
  A claim is exclusive: until it expires no later claim obtains the generation again, and
  once somebody else has claimed it under another token the former holder can no longer finish
  it.
\<close>

theorem claim_exclusive_until_expiry:
  assumes "claim_notification env lg t token = (Some claim, lg1)"
  shows "(utc_string env t2 < utc_string env (t + 60) \<longrightarrow>
      claim_notification env lg1 t2 token2 = (Some claim2, lg2) \<longrightarrow> nc_generation claim2 \<noteq> nc_generation claim)
    \<and> (claim_notification env lg1 t2 token2 = (Some claim2, lg2) \<longrightarrow> nc_generation claim2 = nc_generation claim
        \<longrightarrow> token2 \<noteq> token \<longrightarrow> finish_notification env lg2 t3 claim = (False, lg2))"
proof -
  obtain a :: availability_row where a: "claim = \<lparr>nc_generation = av_generation a, nc_workspace_id = av_workspace_id a, nc_token = token\<rparr>"
      "lg1 = lg\<lparr>lg_availability := update_where (\<lambda>b. av_generation b = av_generation a)
       (\<lambda>b. b\<lparr>av_claim_token := Some token, av_claim_until := Some (utc_string env (t + 60))\<rparr>) (lg_availability lg)\<rparr>"
    by (rule claim_notification_Some [OF assms]) (rule that; assumption)
  have "nc_generation claim2 \<noteq> nc_generation claim"
    if early: "utc_string env t2 < utc_string env (t + 60)"
      and c2: "claim_notification env lg1 t2 token2 = (Some claim2, lg2)"
  proof -
    obtain b where b: "b \<in> set (lg_availability lg1)" "claimable lg1 (utc_string env t2) b"
        "nc_generation claim2 = av_generation b"
      by (rule claim_notification_Some [OF c2]) (rule that; simp)
    have "av_generation b \<noteq> av_generation a"
    proof
      assume "av_generation b = av_generation a"
      with b(1) have "av_claim_until b = Some (utc_string env (t + 60))"
        by (auto simp: a(2) set_update_where split: if_splits)
      with b(2) early show False by (auto simp: claimable_def)
    qed
    with b(3) a(1) show ?thesis by simp
  qed
  moreover have "finish_notification env lg2 t3 claim = (False, lg2)"
    if c2: "claim_notification env lg1 t2 token2 = (Some claim2, lg2)"
      and same: "nc_generation claim2 = nc_generation claim" and tok: "token2 \<noteq> token"
  proof -
    obtain b :: availability_row where b: "claim2 = \<lparr>nc_generation = av_generation b, nc_workspace_id = av_workspace_id b, nc_token = token2\<rparr>"
        "lg2 = lg1\<lparr>lg_availability := update_where (\<lambda>c. av_generation c = av_generation b)
         (\<lambda>c. c\<lparr>av_claim_token := Some token2, av_claim_until := Some (utc_string env (t2 + 60))\<rparr>) (lg_availability lg1)\<rparr>"
      by (rule claim_notification_Some [OF c2]) (rule that; assumption)
    have dead: "\<forall>c\<in>set (lg_availability lg2). \<not> claim_live now claim c" for now
      using same tok a(1) b by (auto simp: claim_live_def set_update_where)
    then have "rows_affected (claim_live now claim) (lg_availability lg2) = 0" for now
      by (simp add: sql_simps)
    with dead show ?thesis
      by (simp add: finish_notification_def Let_def update_where_none)
  qed
  ultimately show ?thesis by blast
qed


section \<open>The event feed\<close>

text \<open>The events a reader of the feed still has to see after a cursor.\<close>

definition feed :: "ledger \<Rightarrow> uuid \<Rightarrow> string option \<Rightarrow> int \<Rightarrow> input_event list" where
  "feed lg w iid cursor = filter (\<lambda>e. ev_workspace_id e = w \<and> ev_cursor e > cursor
     \<and> (case iid of None \<Rightarrow> True | Some i \<Rightarrow> ev_input_id e = i)) (lg_events lg)"

lemma filter_after_take:
  fixes key :: "'a \<Rightarrow> int"
  assumes "sorted_wrt (<) (map key xs)" and "take n xs \<noteq> []"
  shows "filter (\<lambda>x. key x > key (last (take n xs))) xs = drop n xs"
proof -
  define ys where "ys = take n xs"
  have xs: "xs = ys @ drop n xs" by (simp add: ys_def)
  have sorted: "sorted_wrt (<) (map key (ys @ drop n xs))" using assms(1) xs by simp
  obtain zs l where ys: "ys = zs @ [l]" using assms(2) by (cases ys rule: rev_cases) (auto simp: ys_def)
  have "filter (\<lambda>x. key x > key l) ys = []"
    using sorted unfolding ys by (auto simp: sorted_wrt_append filter_empty_conv)
  moreover have "filter (\<lambda>x. key x > key l) (drop n xs) = drop n xs"
    using sorted unfolding ys by (auto simp: sorted_wrt_append filter_id_conv)
  moreover have "filter (\<lambda>x. key x > key l) xs
      = filter (\<lambda>x. key x > key l) ys @ filter (\<lambda>x. key x > key l) (drop n xs)"
    using xs by (metis filter_append)
  ultimately show ?thesis using ys by (simp add: ys_def)
qed

lemma sorted_wrt_filter_map: "sorted_wrt (<) (map key xs) \<Longrightarrow> sorted_wrt (<) (map key (filter p xs))"
  for key :: "'a \<Rightarrow> int"
  by (induction xs) auto

lemma feed_sorted:
  assumes "ledger_inv env lg"
  shows "sorted_wrt (<) (map ev_cursor (feed lg w iid c))"
  using assms by (auto simp: feed_def ledger_inv_def store_inv_def events_inv_def intro: sorted_wrt_filter_map)

text \<open>
  C33.  Reading the feed page by page is complete: a page followed by what is left after its
  cursor is exactly what was left before, in order, with nothing lost or repeated, and every
  page of a feed that is not exhausted makes progress.
\<close>

theorem events_paging:
  assumes "(ledger_step env)\<^sup>*\<^sup>* (empty_ledger ws) lg"
  shows "feed lg w iid c = ep_events (events_page lg w iid c limit)
      @ feed lg w iid (ep_next_cursor (events_page lg w iid c limit))
    \<and> (feed lg w iid c \<noteq> [] \<longrightarrow> ep_events (events_page lg w iid c limit) \<noteq> [])"
proof -
  have sorted: "sorted_wrt (<) (map ev_cursor (feed lg w iid c))"
    using feed_sorted [OF reached_inv [OF assms]] .
  then have "order_by ev_cursor (feed lg w iid c) = feed lg w iid c"
    by (auto simp: order_by_def intro!: sort_key_id_if_sorted strict_sorted_imp_sorted)
  then have page: "ep_events (events_page lg w iid c limit) = take (clamp_limit limit) (feed lg w iid c)"
    by (simp add: events_page_def feed_def Let_def)
  have pos: "0 < clamp_limit limit" by (simp add: clamp_limit_def)
  show ?thesis
  proof (cases "feed lg w iid c = []")
    case True
    then have "ep_next_cursor (events_page lg w iid c limit) = c"
      using page by (simp add: events_page_def Let_def)
    with True page show ?thesis by simp
  next
    case False
    then have ne: "take (clamp_limit limit) (feed lg w iid c) \<noteq> []" using pos by simp
    then have nxt: "ep_next_cursor (events_page lg w iid c limit) = ev_cursor (last (take (clamp_limit limit) (feed lg w iid c)))"
      using page by (simp add: events_page_def Let_def)
    have "last (take (clamp_limit limit) (feed lg w iid c)) \<in> set (feed lg w iid c)"
      using ne by (meson in_set_takeD last_in_set)
    then have "c < ep_next_cursor (events_page lg w iid c limit)" using nxt by (simp add: feed_def)
    then have "feed lg w iid (ep_next_cursor (events_page lg w iid c limit))
        = filter (\<lambda>e. ev_cursor e > ep_next_cursor (events_page lg w iid c limit)) (feed lg w iid c)"
      by (auto simp: feed_def intro!: filter_cong)
    also have "\<dots> = drop (clamp_limit limit) (feed lg w iid c)"
      unfolding nxt using filter_after_take [OF sorted ne] by simp
    finally show ?thesis using page ne by simp
  qed
qed

theorem events_paging_witness:
  "feed demo_ledger 7 None 0 = ep_events (events_page demo_ledger 7 None 0 1)
     @ feed demo_ledger 7 None (ep_next_cursor (events_page demo_ledger 7 None 0 1))
   \<and> ep_events (events_page demo_ledger 7 None 0 1) \<noteq> []"
proof -
  have "feed demo_ledger 7 None 0 \<noteq> []" by (simp add: feed_def demo_ledger_def demo_event_def)
  with events_paging [OF demo_reached, of 7 None 0 1] show ?thesis by blast
qed

text \<open>A claim of the small ledger's one generation, and a release that finds nothing due.\<close>

lemma demo_claim:
  "\<exists>lg'. claim_notification demo_env demo_ledger 50 ''tok''
     = (Some \<lparr>nc_generation = ''ev1'', nc_workspace_id = 7, nc_token = ''tok''\<rparr>, lg')"
  by (simp add: claim_notification_def Let_def claimable_def current_pair_def shown_def demo_defs order_by_def)

theorem claim_exclusive_until_expiry_witness:
  "\<exists>lg1. claim_notification demo_env demo_ledger 50 ''tok''
      = (Some \<lparr>nc_generation = ''ev1'', nc_workspace_id = 7, nc_token = ''tok''\<rparr>, lg1)
     \<and> (\<forall>claim2 lg2. claim_notification demo_env lg1 60 ''tok2'' = (Some claim2, lg2) \<longrightarrow> nc_generation claim2 \<noteq> ''ev1'')"
proof -
  obtain lg1 where c: "claim_notification demo_env demo_ledger 50 ''tok''
      = (Some \<lparr>nc_generation = ''ev1'', nc_workspace_id = 7, nc_token = ''tok''\<rparr>, lg1)"
    using demo_claim by blast
  have "utc_string demo_env 60 < utc_string demo_env (50 + 60)" by (simp add: demo_env_def)
  with claim_exclusive_until_expiry [OF c] c show ?thesis by fastforce
qed

definition scheduled_ledger :: ledger where
  "scheduled_ledger = demo_ledger\<lparr>lg_availability := [\<lparr>av_generation = ''ev1'', av_workspace_id = 7,
     av_input_id = ''in'', av_available_event_id = None, av_claim_token = None, av_claim_until = None,
     av_finished_at = None\<rparr>]\<rparr>"

lemma scheduled_release: "\<exists>lg'. release_due demo_env scheduled_ledger 5 (\<lambda>k. (''e'', ''q'')) = Inr (1, lg')"
  by (simp add: release_due_def due_rows_def order_by_def scheduled_ledger_def demo_defs Let_def current_pair_def
      shown_def release_one_def last_event_def events_of_def order_by_desc_def ok_or_def insert_event_def
      available_event_def event_conflicts_def del: sorted_json.simps)

theorem release_due_bounded_witness:
  "\<exists>n lg' es. release_due demo_env scheduled_ledger 5 (\<lambda>k. (''e'', ''q'')) = Inr (n, lg')
     \<and> lg_events lg' = lg_events scheduled_ledger @ es \<and> length es = 1 \<and> n \<le> 100
     \<and> (\<forall>e\<in>set es. ev_event_type e = ''available'')"
proof -
  obtain lg' where r: "release_due demo_env scheduled_ledger 5 (\<lambda>k. (''e'', ''q'')) = Inr (1, lg')"
    using scheduled_release by blast
  from release_due_bounded [OF r] r show ?thesis by blast
qed

end
