(* ===== verification/LoopAutomation.thy ===== *)
theory LoopAutomation
  imports Sessions
begin

text \<open>
  The tables of the loop automation (\<^verbatim>\<open>crates/db/src/models/loop_automation.rs\<close>): the policy of
  a workspace and its scheduled wake-ups.
\<close>

section \<open>Kinds of wake-ups\<close>

datatype wakeup_kind = RateLimitRetry | OverloadRetry | UsageLimitWake | Manual | Unknown

fun wakeup_kind_str :: "wakeup_kind \<Rightarrow> string" where
  "wakeup_kind_str RateLimitRetry = ''rate_limit_retry''"
| "wakeup_kind_str OverloadRetry = ''overload_retry''"
| "wakeup_kind_str UsageLimitWake = ''usage_limit_wake''"
| "wakeup_kind_str Manual = ''manual''"
| "wakeup_kind_str Unknown = ''unknown''"

definition wakeup_kind_parse :: "string \<Rightarrow> wakeup_kind" where
  "wakeup_kind_parse s =
     (if s = ''rate_limit_retry'' then RateLimitRetry
      else if s = ''overload_retry'' then OverloadRetry
      else if s = ''usage_limit_wake'' then UsageLimitWake
      else if s = ''manual'' then Manual
      else Unknown)"

lemma wakeup_kind_roundtrip [simp]: "wakeup_kind_parse (wakeup_kind_str k) = k"
  by (cases k) (simp_all add: wakeup_kind_parse_def)

section \<open>Policies\<close>

record loop_automation =
  la_workspace_id :: uuid
  la_enabled :: bool
  la_retry_interval_secs :: int
  la_continuation_prompt :: string
  la_max_attempts :: int
  la_attempts_used :: int
  la_updated_at :: datetime

type_synonym policy_table = "loop_automation list"

definition get_policy :: "policy_table \<Rightarrow> uuid \<Rightarrow> loop_automation option" where
  "get_policy ps w = select_one (\<lambda>p. la_workspace_id p = w) ps"

definition upsert_policy ::
  "policy_table \<Rightarrow> uuid \<Rightarrow> bool \<Rightarrow> int \<Rightarrow> string \<Rightarrow> int \<Rightarrow> datetime \<Rightarrow> policy_table" where
  "upsert_policy ps w enabled interval prompt max_attempts now =
     (if \<exists>p\<in>set ps. la_workspace_id p = w
      then update_where (\<lambda>p. la_workspace_id p = w)
        (\<lambda>p. p\<lparr>la_enabled := enabled, la_retry_interval_secs := interval, la_continuation_prompt := prompt,
                la_max_attempts := max_attempts, la_attempts_used := 0, la_updated_at := now\<rparr>) ps
      else ps @ [\<lparr>la_workspace_id = w, la_enabled = enabled, la_retry_interval_secs = interval,
                  la_continuation_prompt = prompt, la_max_attempts = max_attempts, la_attempts_used = 0,
                  la_updated_at = now\<rparr>])"

definition list_enabled :: "policy_table \<Rightarrow> loop_automation list" where
  "list_enabled ps = filter la_enabled ps"

definition cap_reached :: "loop_automation \<Rightarrow> bool" where
  "cap_reached p = (la_max_attempts p > 0 \<and> la_attempts_used p \<ge> la_max_attempts p)"

definition increment_attempts :: "policy_table \<Rightarrow> uuid \<Rightarrow> datetime \<Rightarrow> policy_table" where
  "increment_attempts ps w now =
     update_where (\<lambda>p. la_workspace_id p = w)
       (\<lambda>p. p\<lparr>la_attempts_used := la_attempts_used p + 1, la_updated_at := now\<rparr>) ps"

section \<open>Wake-ups\<close>

text \<open>A row; the column \<open>kind\<close> holds the text of the kind, which the reads parse.\<close>

record scheduled_wakeup =
  sw_id :: uuid
  sw_workspace_id :: uuid
  sw_fire_at :: datetime
  sw_kind_text :: string
  sw_prompt :: "string option"
  sw_attempt :: int
  sw_fired_at :: "datetime option"
  sw_created_at :: datetime

definition sw_kind :: "scheduled_wakeup \<Rightarrow> wakeup_kind" where
  "sw_kind wk = wakeup_kind_parse (sw_kind_text wk)"

type_synonym wakeup_table = "scheduled_wakeup list"

definition create_wakeup ::
  "wakeup_table \<Rightarrow> uuid \<Rightarrow> uuid \<Rightarrow> datetime \<Rightarrow> wakeup_kind \<Rightarrow> string option \<Rightarrow> int \<Rightarrow> datetime \<Rightarrow> wakeup_table" where
  "create_wakeup ws fresh w fire_at kind prompt attempt now =
     ws @ [\<lparr>sw_id = fresh, sw_workspace_id = w, sw_fire_at = fire_at, sw_kind_text = wakeup_kind_str kind,
            sw_prompt = prompt, sw_attempt = attempt, sw_fired_at = None, sw_created_at = now\<rparr>]"

definition find_wakeup :: "wakeup_table \<Rightarrow> uuid \<Rightarrow> scheduled_wakeup option" where
  "find_wakeup ws i = select_one (\<lambda>wk. sw_id wk = i) ws"

definition list_due :: "wakeup_table \<Rightarrow> datetime \<Rightarrow> scheduled_wakeup list" where
  "list_due ws now = order_by sw_fire_at (filter (\<lambda>wk. sw_fired_at wk = None \<and> sw_fire_at wk \<le> now) ws)"

definition has_pending :: "wakeup_table \<Rightarrow> uuid \<Rightarrow> wakeup_kind \<Rightarrow> bool" where
  "has_pending ws w kind = (rows_affected (\<lambda>wk. sw_workspace_id wk = w
     \<and> sw_kind_text wk = wakeup_kind_str kind \<and> sw_fired_at wk = None) ws > 0)"

definition list_for_workspace :: "wakeup_table \<Rightarrow> uuid \<Rightarrow> bool \<Rightarrow> scheduled_wakeup list" where
  "list_for_workspace ws w include_fired =
     order_by (\<lambda>wk. (sw_fired_at wk \<noteq> None, sw_fire_at wk))
       (filter (\<lambda>wk. sw_workspace_id wk = w \<and> (include_fired \<or> sw_fired_at wk = None)) ws)"

definition mark_fired :: "wakeup_table \<Rightarrow> uuid \<Rightarrow> datetime \<Rightarrow> wakeup_table" where
  "mark_fired ws i now = update_where (\<lambda>wk. sw_id wk = i) (\<lambda>wk. wk\<lparr>sw_fired_at := Some now\<rparr>) ws"

definition delete_wakeup :: "wakeup_table \<Rightarrow> uuid \<Rightarrow> wakeup_table" where
  "delete_wakeup ws i = delete_where (\<lambda>wk. sw_id wk = i) ws"

definition delete_pending_for_workspace :: "wakeup_table \<Rightarrow> uuid \<Rightarrow> wakeup_table" where
  "delete_pending_for_workspace ws w = delete_where (\<lambda>wk. sw_workspace_id wk = w \<and> sw_fired_at wk = None) ws"

end
