(* ===== verification/LimitDetect.thy ===== *)
theory LimitDetect
  imports LoopAutomation
begin

text \<open>
  Reading a terminal pane for a limit banner
  (\<^verbatim>\<open>crates/local-deployment/src/loop_supervisor.rs\<close>): which limit, when it resets, in which
  zone, and when to wake.  An index into the text counts its characters; the code's byte
  offsets only ever stand next to ASCII characters.
\<close>

section \<open>Constants and signals\<close>

definition USAGE_BACKOFF_SECS :: int where
  "USAGE_BACKOFF_SECS = 1800"

definition USAGE_POST_RESET_BUFFER_SECS :: int where
  "USAGE_POST_RESET_BUFFER_SECS = 300"

definition OVERLOAD_BACKOFF_SECS :: int where
  "OVERLOAD_BACKOFF_SECS = 240"

definition DEFAULT_CONTINUATION :: string where
  "DEFAULT_CONTINUATION = ''Continue.''"

datatype limit_signal = RateLimited | Overloaded | UsageLimited "datetime option"

fun signal_kind :: "limit_signal \<Rightarrow> wakeup_kind" where
  "signal_kind RateLimited = RateLimitRetry"
| "signal_kind Overloaded = OverloadRetry"
| "signal_kind (UsageLimited _) = UsageLimitWake"

section \<open>Numbers\<close>

definition digit_value :: "char \<Rightarrow> nat" where
  "digit_value c = code_point c - 48"

definition decimal :: "string \<Rightarrow> nat" where
  "decimal s = foldl (\<lambda>n c. 10 * n + digit_value c) 0 s"

text \<open>The leading digits of a text, two at most.\<close>

definition two_digits :: "string \<Rightarrow> string" where
  "two_digits s = takeWhile is_ascii_digit (take 2 s)"

section \<open>The clock\<close>

fun ampm_len :: "nat \<Rightarrow> string \<Rightarrow> nat" where
  "ampm_len letters [] = 0"
| "ampm_len letters (c # s) =
     (if c \<in> {CHR ''a'', CHR ''p'', CHR ''m''} \<and> letters < 2 then Suc (ampm_len (Suc letters) s)
      else if c \<in> {CHR ''.'', CHR '' ''} then Suc (ampm_len letters s)
      else 0)"

definition advance_past_ampm :: "string \<Rightarrow> nat \<Rightarrow> nat" where
  "advance_past_ampm s i = i + ampm_len 0 (drop i s)"

definition parse_clock_after :: "string \<Rightarrow> (nat \<times> nat \<times> nat) option" where
  "parse_clock_after s =
     (let h_start = length (takeWhile (\<lambda>c. \<not> is_ascii_digit c) s) in
      if h_start \<ge> length s then None
      else
        let hd = two_digits (drop h_start s);
            i = h_start + length hd;
            hour = decimal hd;
            md = (if i < length s \<and> s ! i = CHR '':'' then two_digits (drop (i + 1) s) else []);
            (minute, i) = (if md \<noteq> [] then (decimal md, i + 1 + length md) else (0, i));
            marker = filter (\<lambda>c. \<not> is_whitespace c \<and> c \<noteq> CHR ''.'') (take 6 (drop i s));
            (hour, i) =
              (if starts_with marker ''pm'' then ((if hour < 12 then hour + 12 else hour), advance_past_ampm s i)
               else if starts_with marker ''am'' then ((if hour = 12 then 0 else hour), advance_past_ampm s i)
               else (hour, i))
        in if hour > 23 \<or> minute > 59 then None else Some (hour, minute, i))"

section \<open>The zone\<close>

text \<open>The minutes after \<open>i\<close> digits of hours: \<open>":MM"\<close> or a bare tail \<open>"MM"\<close>.\<close>

definition offset_minutes :: "string \<Rightarrow> nat \<Rightarrow> nat" where
  "offset_minutes rest i =
     (if i < length rest \<and> rest ! i = CHR '':'' then
        (let mm = filter is_ascii_digit (take 2 (drop (i + 1) rest)) in
         if mm \<noteq> [] then decimal mm else 0)
      else if i < length rest \<and> is_ascii_digit (rest ! i) then
        (let tail = drop i rest in
         if length tail \<ge> 2 \<and> is_ascii_digit (tail ! 1) then decimal (take 2 tail) else 0)
      else 0)"

definition parse_signed_offset :: "string \<Rightarrow> int option" where
  "parse_signed_offset s =
     (case (case strip_prefix s ''+'' of
              Some r \<Rightarrow> Some (1, r)
            | None \<Rightarrow> (case strip_prefix s ''-'' of Some r \<Rightarrow> Some (-1, r) | None \<Rightarrow> None)) of
        None \<Rightarrow> None
      | Some (sign, rest) \<Rightarrow>
          (let i = length (two_digits rest) in
           if i = 0 then None
           else
             let hours = decimal (take i rest); minutes = offset_minutes rest i
             in if hours > 14 \<or> minutes > 59 then None
                else Some (sign * (int hours * 3600 + int minutes * 60))))"

definition parse_tz_offset_secs :: "string \<Rightarrow> int option" where
  "parse_tz_offset_secs s =
     (let t = trim_start_matches (\<lambda>c. c = CHR '' '' \<or> c = CHR ''('') s in
      case (case strip_prefix t ''utc'' of Some r \<Rightarrow> Some r | None \<Rightarrow> strip_prefix t ''gmt'') of
        Some rest \<Rightarrow>
          (let rest = trim_start_matches is_whitespace rest in
           if starts_with rest ''+'' \<or> starts_with rest ''-'' then parse_signed_offset rest
           else if trim_start_matches (\<lambda>c. c \<in> {CHR '')'', CHR '','', CHR ''.'', CHR '' ''}) rest = []
           then Some 0 else None)
      | None \<Rightarrow>
          if starts_with t ''z'' then Some 0
          else if starts_with t ''+'' \<or> starts_with t ''-'' then parse_signed_offset t
          else None)"

section \<open>The reset time\<close>

text \<open>
  \<open>FixedOffset::east_opt\<close> accepts offsets of less than a day; a local date and clock time
  of a fixed offset denote exactly one instant.
\<close>

definition east_opt :: "int \<Rightarrow> int option" where
  "east_opt secs = (if - 86400 < secs \<and> secs < 86400 then Some secs else None)"

definition local_clock :: "datetime \<Rightarrow> int \<Rightarrow> nat \<Rightarrow> nat \<Rightarrow> datetime" where
  "local_clock now zone hour minute =
     ((now + zone) div 86400) * 86400 + int hour * 3600 + int minute * 60 - zone"

definition parse_reset_at :: "string \<Rightarrow> datetime \<Rightarrow> int \<Rightarrow> datetime option" where
  "parse_reset_at text now default_tz =
     (let lower = to_lowercase text in
      case find_str lower ''reset'' of
        None \<Rightarrow> None
      | Some anchor \<Rightarrow>
          (let after = drop anchor lower in
           case parse_clock_after after of
             None \<Rightarrow> None
           | Some (hour, minute, clock_end) \<Rightarrow>
               (case (case parse_tz_offset_secs (drop clock_end after) of
                        Some secs \<Rightarrow> east_opt secs | None \<Rightarrow> Some default_tz) of
                  None \<Rightarrow> None
                | Some zone \<Rightarrow> Some (local_clock now zone hour minute))))"

definition usage_wake_at :: "datetime option \<Rightarrow> datetime \<Rightarrow> datetime" where
  "usage_wake_at reset_at now =
     (case reset_at of
        Some reset \<Rightarrow>
          (let fire = reset + USAGE_POST_RESET_BUFFER_SECS
           in if fire \<le> now then fire + 86400 else fire)
      | None \<Rightarrow> now + USAGE_BACKOFF_SECS)"

section \<open>The banner\<close>

text \<open>\<open>str::lines\<close>: split at line feeds, drop a final empty piece and a carriage return at the end.\<close>

definition strip_cr :: "string \<Rightarrow> string" where
  "strip_cr l = (if l \<noteq> [] \<and> last l = CHR 0x0D then butlast l else l)"

definition str_lines :: "string \<Rightarrow> string list" where
  "str_lines s =
     (let pieces = split_char (CHR 0x0A) s
      in map strip_cr (if last pieces = [] then butlast pieces else pieces))"

definition detect_limit_at :: "string \<Rightarrow> datetime \<Rightarrow> int \<Rightarrow> limit_signal option" where
  "detect_limit_at pane now default_tz =
     (let lower = to_lowercase pane in
      if contains lower ''temporarily limiting requests'' \<or> contains lower ''rate limited''
      then Some RateLimited
      else if contains lower ''usage limit'' \<or> contains lower ''hit your session limit''
           \<or> contains lower ''limit reached'' \<or> contains lower ''limit will reset''
           \<or> contains lower ''5-hour limit'' \<or> contains lower ''weekly limit''
           \<or> contains lower ''out of usage''
      then Some (UsageLimited (parse_reset_at pane now default_tz))
      else if \<exists>line\<in>set (str_lines lower). contains line ''overloaded'' \<and> contains line ''529''
      then Some Overloaded
      else None)"

section \<open>Bounds\<close>

lemma advance_past_ampm_le: "i \<le> length s \<Longrightarrow> advance_past_ampm s i \<le> length s"
proof -
  have "ampm_len n t \<le> length t" for n t
    by (induction n t rule: ampm_len.induct) auto
  from this [of 0 "drop i s"] show "i \<le> length s \<Longrightarrow> advance_past_ampm s i \<le> length s"
    by (simp add: advance_past_ampm_def)
qed

text \<open>A parsed clock time is a time of day.\<close>

lemma parse_clock_bounds:
  assumes "parse_clock_after s = Some (hour, minute, i)"
  shows "hour \<le> 23 \<and> minute \<le> 59"
  using assms by (auto simp: parse_clock_after_def Let_def split: if_splits prod.splits)

lemma parse_signed_offset_bounds:
  assumes "parse_signed_offset s = Some secs"
  shows "\<bar>secs\<bar> \<le> 14 * 3600 + 59 * 60"
proof -
  have "\<bar>(int h * 3600 + int m * 60)\<bar> \<le> 14 * 3600 + 59 * 60" if "\<not> 14 < h" "\<not> 59 < m" for h m
    using that by linarith
  with assms show ?thesis
    unfolding parse_signed_offset_def Let_def by (auto split: option.splits if_splits)
qed

lemma parse_tz_offset_bounds:
  assumes "parse_tz_offset_secs s = Some secs"
  shows "\<bar>secs\<bar> \<le> 14 * 3600 + 59 * 60"
  using assms
  by (auto simp: parse_tz_offset_secs_def Let_def split: option.splits if_splits
      dest: parse_signed_offset_bounds)

lemma local_clock_range:
  assumes "hour \<le> 23" and "minute \<le> 59"
  shows "now - 86400 < local_clock now zone hour minute \<and> local_clock now zone hour minute < now + 86400"
proof -
  define d where "d = (now + zone) div 86400"
  have "now + zone = d * 86400 + (now + zone) mod 86400" by (simp add: d_def)
  moreover have "0 \<le> (now + zone) mod 86400" "(now + zone) mod 86400 < 86400" by simp_all
  ultimately have "d * 86400 \<le> now + zone" "now + zone < d * 86400 + 86400" by linarith+
  moreover have "0 \<le> int hour * 3600 + int minute * 60" "int hour * 3600 + int minute * 60 < 86400"
    using assms by linarith+
  ultimately show ?thesis by (simp add: local_clock_def flip: d_def)
qed

lemma parse_reset_range:
  assumes "parse_reset_at text now tz = Some reset"
  shows "now - 86400 < reset \<and> reset < now + 86400"
  using assms
  by (auto simp: parse_reset_at_def Let_def local_clock_range dest!: parse_clock_bounds
      split: option.splits prod.splits)

lemma usage_wake_range:
  assumes "detect_limit_at pane now tz = Some (UsageLimited reset_at)"
  shows "now < usage_wake_at reset_at now \<and> usage_wake_at reset_at now \<le> now + 86400 + 300"
proof (cases reset_at)
  case None
  then show ?thesis by (simp add: usage_wake_at_def USAGE_BACKOFF_SECS_def)
next
  case (Some reset)
  have "parse_reset_at pane now tz = Some reset"
    using assms Some by (auto simp: detect_limit_at_def Let_def split: if_splits)
  from parse_reset_range [OF this] Some show ?thesis
    by (auto simp: usage_wake_at_def USAGE_POST_RESET_BUFFER_SECS_def Let_def)
qed

lemma usage_wake_future:
  "detect_limit_at pane now tz = Some (UsageLimited reset_at) \<Longrightarrow> now < usage_wake_at reset_at now"
  using usage_wake_range by blast

text \<open>
  C37.  The wake-up for a usage limit is always in the future, and never more than a day and the
  five minutes of the reset buffer away, whatever the pane shows.
\<close>

theorem usage_wake_bounds:
  assumes "detect_limit_at pane now tz = Some (UsageLimited reset_at)"
  shows "now < usage_wake_at reset_at now \<and> usage_wake_at reset_at now \<le> now + 86400 + 300"
  using assms by (rule usage_wake_range)

text \<open>A banner read at 15:00 UTC whose window resets at ten past three in the afternoon.\<close>

definition demo_pane :: string where
  "demo_pane = ''usage limit reached, resets 3:10pm (UTC)''"

lemma demo_pane_signal: "detect_limit_at demo_pane 54000 0 = Some (UsageLimited (Some 54600))"
  by code_simp

theorem usage_wake_bounds_witness: "(54000::int) < usage_wake_at (Some 54600) 54000 \<and> usage_wake_at (Some 54600) 54000 \<le> 140700"
  using usage_wake_bounds [OF demo_pane_signal] by simp

end
