(* ===== verification/LoopSupervisor.thy ===== *)
theory LoopSupervisor
  imports LimitDetect
begin

text \<open>
  The tick of the loop supervisor (\<^verbatim>\<open>crates/local-deployment/src/loop_supervisor.rs\<close>): delivering
  due wake-ups into the terminal panes, parking prompts that cannot be delivered, and
  scheduling new wake-ups.  What the tick finds outside the database, the panes, the delivery
  claims and the outcome of the calls that the code lets fail, is an argument.
\<close>

section \<open>State and surroundings\<close>

record loop_db =
  ld_policies :: policy_table
  ld_wakeups :: wakeup_table
  ld_sessions :: session_table
  ld_executions :: "execution_process list"

record pane_world =
  pw_session_exists :: "uuid \<Rightarrow> bool"
  pw_capture :: "uuid \<Rightarrow> string option"
  pw_claim_free :: "uuid \<Rightarrow> bool"
  pw_send_ok :: "uuid \<Rightarrow> string \<Rightarrow> bool"
  pw_local_offset :: int
  pw_get_ok :: "uuid \<Rightarrow> bool"
  pw_peek_ok :: "uuid \<Rightarrow> bool"
  pw_latest_ok :: "uuid \<Rightarrow> bool"
  pw_park_ok :: "uuid \<Rightarrow> bool"
  pw_increment_ok :: "uuid \<Rightarrow> bool"

definition detect_limit :: "pane_world \<Rightarrow> string \<Rightarrow> datetime \<Rightarrow> limit_signal option" where
  "detect_limit world pane now = detect_limit_at pane now (pw_local_offset world)"

section \<open>Parking\<close>

datatype repark_outcome = Parked | AlreadyParked | NoSession | ReparkFailed

definition repark_prompt :: "pane_world \<Rightarrow> loop_db \<Rightarrow> uuid \<Rightarrow> string \<Rightarrow> repark_outcome \<times> loop_db" where
  "repark_prompt world db w prompt =
     (if \<not> pw_peek_ok world w then (ReparkFailed, db)
      else case peek_pending_cli_prompt_for_workspace (ld_sessions db) w of
        Some _ \<Rightarrow> (AlreadyParked, db)
      | None \<Rightarrow>
          if \<not> pw_latest_ok world w then (ReparkFailed, db)
          else case find_latest_by_workspace_id (ld_sessions db) (ld_executions db) w of
            None \<Rightarrow> (NoSession, db)
          | Some session \<Rightarrow>
              if \<not> pw_park_ok world w then (ReparkFailed, db)
              else case set_pending_cli_prompt_if_empty (ld_sessions db) (ss_id session) prompt of
                (True, ss) \<Rightarrow> (Parked, db\<lparr>ld_sessions := ss\<rparr>)
              | (False, ss) \<Rightarrow> (AlreadyParked, db\<lparr>ld_sessions := ss\<rparr>))"

fun wakeup_stays_pending :: "repark_outcome \<Rightarrow> bool \<Rightarrow> bool" where
  "wakeup_stays_pending ReparkFailed is_limit = True"
| "wakeup_stays_pending AlreadyParked is_limit = (\<not> is_limit)"
| "wakeup_stays_pending Parked is_limit = False"
| "wakeup_stays_pending NoSession is_limit = False"

section \<open>Delivery\<close>

definition fire :: "loop_db \<Rightarrow> uuid \<Rightarrow> datetime \<Rightarrow> loop_db" where
  "fire db i now = db\<lparr>ld_wakeups := mark_fired (ld_wakeups db) i now\<rparr>"

text \<open>Parking a prompt that could not be delivered, and what becomes of its wake-up.\<close>

definition repark_and_fire :: "pane_world \<Rightarrow> datetime \<Rightarrow> loop_db \<Rightarrow> scheduled_wakeup \<Rightarrow> string \<Rightarrow> bool \<Rightarrow> loop_db" where
  "repark_and_fire world now db wk prompt is_limit =
     (case repark_prompt world db (sw_workspace_id wk) prompt of
        (outcome, db1) \<Rightarrow> if wakeup_stays_pending outcome is_limit then db1 else fire db1 (sw_id wk) now)"

definition wakeup_policy :: "pane_world \<Rightarrow> loop_db \<Rightarrow> uuid \<Rightarrow> loop_automation option" where
  "wakeup_policy world db w = (if pw_get_ok world w then get_policy (ld_policies db) w else None)"

definition wakeup_prompt :: "scheduled_wakeup \<Rightarrow> loop_automation option \<Rightarrow> string" where
  "wakeup_prompt wk policy =
     (case sw_prompt wk of Some p \<Rightarrow> p
      | None \<Rightarrow> (case policy of Some p \<Rightarrow> la_continuation_prompt p | None \<Rightarrow> DEFAULT_CONTINUATION))"

definition policy_allows :: "loop_automation option \<Rightarrow> bool" where
  "policy_allows policy = (case policy of None \<Rightarrow> False | Some p \<Rightarrow> la_enabled p \<and> \<not> cap_reached p)"

type_synonym keystrokes = "(uuid \<times> string) list"

definition deliver_one ::
  "pane_world \<Rightarrow> datetime \<Rightarrow> scheduled_wakeup \<Rightarrow> loop_db \<times> keystrokes \<Rightarrow> loop_db \<times> keystrokes" where
  "deliver_one world now wk state =
     (let (db, sent) = state;
          w = sw_workspace_id wk;
          policy = wakeup_policy world db w;
          is_limit = (sw_kind wk \<noteq> Manual);
          prompt = wakeup_prompt wk policy
      in if is_limit \<and> \<not> policy_allows policy then (fire db (sw_id wk) now, sent)
         else if \<not> pw_session_exists world w then (repark_and_fire world now db wk prompt is_limit, sent)
         else if is_limit \<and> pw_capture world w = None then (db, sent)
         else if is_limit \<and> \<not> (case pw_capture world w of None \<Rightarrow> False
                | Some pane \<Rightarrow> (case detect_limit world pane now of None \<Rightarrow> False
                    | Some sig \<Rightarrow> signal_kind sig = sw_kind wk))
         then (fire db (sw_id wk) now, sent)
         else if \<not> pw_claim_free world w then (db, sent)
         else if \<not> pw_peek_ok world w
                \<or> peek_pending_cli_prompt_for_workspace (ld_sessions db) w \<noteq> None then (db, sent)
         else if pw_send_ok world w prompt then
           (let db1 = (if is_limit \<and> pw_increment_ok world w
                       then db\<lparr>ld_policies := increment_attempts (ld_policies db) w now\<rparr> else db)
            in (fire db1 (sw_id wk) now, sent @ [(w, prompt)]))
         else (repark_and_fire world now db wk prompt is_limit, sent))"

text \<open>The loop; iteration \<open>k\<close> finds the surroundings \<open>worlds k\<close>.\<close>

fun deliver_loop ::
  "(nat \<Rightarrow> pane_world) \<Rightarrow> datetime \<Rightarrow> nat \<Rightarrow> scheduled_wakeup list \<Rightarrow> loop_db \<times> keystrokes \<Rightarrow> loop_db \<times> keystrokes" where
  "deliver_loop worlds now k [] state = state"
| "deliver_loop worlds now k (wk # wks) state =
     deliver_loop worlds now (Suc k) wks (deliver_one (worlds k) now wk state)"

definition deliver_due_wakeups ::
  "(nat \<Rightarrow> pane_world) \<Rightarrow> datetime \<Rightarrow> loop_db \<Rightarrow> loop_db \<times> keystrokes" where
  "deliver_due_wakeups worlds now db = deliver_loop worlds now 0 (list_due (ld_wakeups db) now) (db, [])"

section \<open>Detection\<close>

definition fire_time :: "loop_automation \<Rightarrow> limit_signal \<Rightarrow> datetime \<Rightarrow> datetime" where
  "fire_time policy signal now =
     (case signal of
        RateLimited \<Rightarrow> now + max (la_retry_interval_secs policy) 1
      | Overloaded \<Rightarrow> now + OVERLOAD_BACKOFF_SECS
      | UsageLimited reset_at \<Rightarrow> usage_wake_at reset_at now)"

definition schedule_one ::
  "pane_world \<Rightarrow> datetime \<Rightarrow> uuid \<Rightarrow> loop_automation \<Rightarrow> wakeup_table \<Rightarrow> wakeup_table" where
  "schedule_one world now fresh policy ws =
     (let w = la_workspace_id policy in
      if cap_reached policy then ws
      else if \<not> pw_session_exists world w then ws
      else case pw_capture world w of
             None \<Rightarrow> ws
           | Some pane \<Rightarrow>
               (case detect_limit_at pane now (pw_local_offset world) of
                  None \<Rightarrow> ws
                | Some signal \<Rightarrow>
                    (let kind = signal_kind signal in
                     if has_pending ws w kind then ws
                     else create_wakeup ws fresh w (fire_time policy signal now) kind None
                            (la_attempts_used policy + 1) now)))"

fun schedule_loop ::
  "(nat \<Rightarrow> pane_world) \<Rightarrow> datetime \<Rightarrow> (nat \<Rightarrow> uuid) \<Rightarrow> nat \<Rightarrow> loop_automation list \<Rightarrow> wakeup_table \<Rightarrow> wakeup_table" where
  "schedule_loop worlds now fresh k [] ws = ws"
| "schedule_loop worlds now fresh k (p # ps) ws =
     schedule_loop worlds now fresh (Suc k) ps (schedule_one (worlds k) now (fresh k) p ws)"

definition detect_and_schedule ::
  "(nat \<Rightarrow> pane_world) \<Rightarrow> datetime \<Rightarrow> (nat \<Rightarrow> uuid) \<Rightarrow> loop_db \<Rightarrow> loop_db" where
  "detect_and_schedule worlds now fresh db =
     db\<lparr>ld_wakeups := schedule_loop worlds now fresh 0 (list_enabled (ld_policies db)) (ld_wakeups db)\<rparr>"

definition loop_tick ::
  "(nat \<Rightarrow> pane_world) \<Rightarrow> (nat \<Rightarrow> pane_world) \<Rightarrow> datetime \<Rightarrow> (nat \<Rightarrow> uuid) \<Rightarrow> loop_db \<Rightarrow> loop_db \<times> keystrokes" where
  "loop_tick worlds worlds2 now fresh db =
     (case deliver_due_wakeups worlds now db of
        (db1, sent) \<Rightarrow> (detect_and_schedule worlds2 now fresh db1, sent))"

section \<open>What one delivery does\<close>

lemma fire_sel [simp]:
  "ld_sessions (fire db i now) = ld_sessions db" "ld_policies (fire db i now) = ld_policies db"
  "ld_executions (fire db i now) = ld_executions db"
  "ld_wakeups (fire db i now) = mark_fired (ld_wakeups db) i now"
  by (simp_all add: fire_def)

lemma repark_prompt_cases:
  assumes "repark_prompt world db w prompt = (outcome, db')"
  shows "ld_policies db' = ld_policies db \<and> ld_wakeups db' = ld_wakeups db \<and> prompts_kept (ld_sessions db) (ld_sessions db')
    \<and> map ss_workspace_id (ld_sessions db') = map ss_workspace_id (ld_sessions db)
    \<and> (outcome = Parked \<longrightarrow> (\<exists>s\<in>set (ld_sessions db'). ss_workspace_id s = w \<and> ss_pending_cli_prompt s = Some prompt))
    \<and> (outcome = NoSession \<longrightarrow> (\<forall>s\<in>set (ld_sessions db'). ss_workspace_id s \<noteq> w))"
proof (cases "\<exists>session. find_latest_by_workspace_id (ld_sessions db) (ld_executions db) w = Some session
    \<and> pw_peek_ok world w \<and> pw_latest_ok world w \<and> pw_park_ok world w
    \<and> peek_pending_cli_prompt_for_workspace (ld_sessions db) w = None")
  case True
  then obtain session where s: "find_latest_by_workspace_id (ld_sessions db) (ld_executions db) w = Some session"
      "pw_peek_ok world w" "pw_latest_ok world w" "pw_park_ok world w"
      "peek_pending_cli_prompt_for_workspace (ld_sessions db) w = None"
    by blast
  define p where "p = (\<lambda>s::session_row. ss_id s = ss_id session \<and> ss_pending_cli_prompt s = None)"
  have mem: "session \<in> set (ld_sessions db)" "ss_workspace_id session = w"
    using find_latest_Some [OF s(1)] by simp_all
  then have hit: "p session" using s(5) by (simp add: p_def peek_None_iff)
  have "0 < rows_affected p (ld_sessions db)" using mem hit by (auto simp: rows_affected_pos)
  then have "set_pending_cli_prompt_if_empty (ld_sessions db) (ss_id session) prompt
      = (True, update_where p (\<lambda>s. s\<lparr>ss_pending_cli_prompt := Some prompt\<rparr>) (ld_sessions db))"
    by (simp add: set_pending_cli_prompt_if_empty_def Let_def p_def)
  then have park: "outcome = Parked" "db' = db\<lparr>ld_sessions := update_where p
      (\<lambda>s. s\<lparr>ss_pending_cli_prompt := Some prompt\<rparr>) (ld_sessions db)\<rparr>"
    using assms s by (simp_all add: repark_prompt_def)
  have "prompts_kept (ld_sessions db) (ld_sessions db')"
    by (auto simp: park prompts_kept_def set_update_where p_def)
  moreover have "\<exists>s\<in>set (ld_sessions db'). ss_workspace_id s = w \<and> ss_pending_cli_prompt s = Some prompt"
    unfolding park using mem hit by (simp add: bex_update_where) (rule bexI [of _ session]; simp)
  ultimately show ?thesis by (simp add: park map_key_update_where)
next
  case False
  then have "db' = db \<and> outcome \<noteq> Parked"
    using assms by (auto simp: repark_prompt_def split: if_splits option.splits)
  moreover have "outcome = NoSession \<longrightarrow> (\<forall>s\<in>set (ld_sessions db). ss_workspace_id s \<noteq> w)"
    using assms False by (auto simp: repark_prompt_def find_latest_None split: if_splits option.splits bool.splits prod.splits)
  ultimately show ?thesis by (auto simp: prompts_kept_refl)
qed


lemma repark_and_fire_frame:
  "ld_policies (repark_and_fire world now db wk prompt lim) = ld_policies db"
  "prompts_kept (ld_sessions db) (ld_sessions (repark_and_fire world now db wk prompt lim))"
  "map ss_workspace_id (ld_sessions (repark_and_fire world now db wk prompt lim)) = map ss_workspace_id (ld_sessions db)"
  "ld_wakeups (repark_and_fire world now db wk prompt lim) \<in> {ld_wakeups db, mark_fired (ld_wakeups db) (sw_id wk) now}"
proof -
  obtain outcome db1 where r: "repark_prompt world db (sw_workspace_id wk) prompt = (outcome, db1)"
    by (cases "repark_prompt world db (sw_workspace_id wk) prompt")
  note f = repark_prompt_cases [OF r]
  show "ld_policies (repark_and_fire world now db wk prompt lim) = ld_policies db"
    "prompts_kept (ld_sessions db) (ld_sessions (repark_and_fire world now db wk prompt lim))"
    "map ss_workspace_id (ld_sessions (repark_and_fire world now db wk prompt lim)) = map ss_workspace_id (ld_sessions db)"
    "ld_wakeups (repark_and_fire world now db wk prompt lim) \<in> {ld_wakeups db, mark_fired (ld_wakeups db) (sw_id wk) now}"
    using f by (simp_all add: repark_and_fire_def r)
qed


section \<open>No prompt is lost\<close>

text \<open>
  A wake-up of a prompt is settled: still pending, typed, parked, or nobody is there to park
  it for.
\<close>

definition settled :: "scheduled_wakeup \<Rightarrow> string \<Rightarrow> loop_db \<times> keystrokes \<Rightarrow> bool" where
  "settled wk p state = (case state of (db, sent) \<Rightarrow>
     (\<exists>x\<in>set (ld_wakeups db). sw_id x = sw_id wk \<and> sw_fired_at x = None)
     \<or> (sw_workspace_id wk, p) \<in> set sent
     \<or> (\<exists>s\<in>set (ld_sessions db). ss_workspace_id s = sw_workspace_id wk \<and> ss_pending_cli_prompt s = Some p)
     \<or> sw_workspace_id wk \<notin> set (map ss_workspace_id (ld_sessions db)))"

lemma pending_mark_fired:
  "i \<noteq> j \<Longrightarrow> (\<exists>x\<in>set ws. sw_id x = i \<and> sw_fired_at x = None)
     \<Longrightarrow> \<exists>x\<in>set (mark_fired ws j now). sw_id x = i \<and> sw_fired_at x = None"
  unfolding mark_fired_def bex_update_where by force

text \<open>The four outcomes of a delivery for the tables.\<close>

lemma deliver_one_cases:
  assumes "deliver_one world now wk (db, sent) = (db', sent')"
  obtains (none) "db' = db"
  | (fired) "db' = fire db (sw_id wk) now"
  | (reparked) prompt lim where "db' = repark_and_fire world now db wk prompt lim"
  | (counted) p where "db' = fire (db\<lparr>ld_policies := increment_attempts (ld_policies db) (sw_workspace_id wk) now\<rparr>) (sw_id wk) now"
      "get_policy (ld_policies db) (sw_workspace_id wk) = Some p" "\<not> cap_reached p"
proof -
  consider "db' = db" | "db' = fire db (sw_id wk) now"
    | "db' = repark_and_fire world now db wk (wakeup_prompt wk (wakeup_policy world db (sw_workspace_id wk))) (sw_kind wk \<noteq> Manual)"
    | "db' = fire (db\<lparr>ld_policies := increment_attempts (ld_policies db) (sw_workspace_id wk) now\<rparr>) (sw_id wk) now"
        "policy_allows (wakeup_policy world db (sw_workspace_id wk))"
    using assms by (auto simp: deliver_one_def Let_def split: if_splits)
  then show thesis
    by cases (auto simp: policy_allows_def wakeup_policy_def split: option.splits if_splits
        intro: none fired reparked counted)
qed

lemma deliver_one_frame:
  assumes "deliver_one world now wk (db, sent) = (db', sent')"
  shows "prompts_kept (ld_sessions db) (ld_sessions db')"
    and "map ss_workspace_id (ld_sessions db') = map ss_workspace_id (ld_sessions db)"
    and "ld_wakeups db' \<in> {ld_wakeups db, mark_fired (ld_wakeups db) (sw_id wk) now}"
    and "\<exists>more. sent' = sent @ more"
proof -
  have "prompts_kept (ld_sessions db) (ld_sessions db')
      \<and> map ss_workspace_id (ld_sessions db') = map ss_workspace_id (ld_sessions db)
      \<and> ld_wakeups db' \<in> {ld_wakeups db, mark_fired (ld_wakeups db) (sw_id wk) now}"
    using assms
  proof (cases rule: deliver_one_cases)
    case (reparked prompt lim)
    then show ?thesis by (simp only: repark_and_fire_frame simp_thms)
  qed (simp_all add: prompts_kept_refl)
  then show "prompts_kept (ld_sessions db) (ld_sessions db')"
    "map ss_workspace_id (ld_sessions db') = map ss_workspace_id (ld_sessions db)"
    "ld_wakeups db' \<in> {ld_wakeups db, mark_fired (ld_wakeups db) (sw_id wk) now}" by blast+
  show "\<exists>more. sent' = sent @ more"
    using assms by (auto simp: deliver_one_def Let_def split: if_splits)
qed

lemma deliver_other_pending:
  assumes d: "deliver_one world now other (db, sent) = (db', sent')" and other: "sw_id other \<noteq> sw_id wk"
    and pend: "\<exists>x\<in>set (ld_wakeups db). sw_id x = sw_id wk \<and> sw_fired_at x = None"
  shows "\<exists>x\<in>set (ld_wakeups db'). sw_id x = sw_id wk \<and> sw_fired_at x = None"
proof (cases "ld_wakeups db' = ld_wakeups db")
  case False
  then have "ld_wakeups db' = mark_fired (ld_wakeups db) (sw_id other) now"
    using deliver_one_frame(3) [OF d] by simp
  then show ?thesis using pending_mark_fired [OF other [symmetric] pend] by simp
qed (use pend in simp)

lemma deliver_other_settled:
  assumes d: "deliver_one world now other (db, sent) = (db', sent')" and other: "sw_id other \<noteq> sw_id wk"
    and s: "settled wk p (db, sent)"
  shows "settled wk p (db', sent')"
proof -
  note f = deliver_one_frame [OF d]
  consider (pending) "\<exists>x\<in>set (ld_wakeups db). sw_id x = sw_id wk \<and> sw_fired_at x = None"
    | (sent) "(sw_workspace_id wk, p) \<in> set sent"
    | (parked) "\<exists>s\<in>set (ld_sessions db). ss_workspace_id s = sw_workspace_id wk \<and> ss_pending_cli_prompt s = Some p"
    | (nobody) "sw_workspace_id wk \<notin> set (map ss_workspace_id (ld_sessions db))"
    using s by (auto simp: settled_def)
  then show ?thesis
  proof cases
    case pending
    then show ?thesis using deliver_other_pending [OF d other] by (simp add: settled_def)
  next
    case parked
    then show ?thesis using f(1) by (auto simp: settled_def prompts_kept_def)
  next
    case nobody
    then have "sw_workspace_id wk \<notin> set (map ss_workspace_id (ld_sessions db'))" unfolding f(2) .
    then show ?thesis by (simp add: settled_def)
  qed (use f(4) in \<open>auto simp: settled_def\<close>)
qed

lemma deliver_own_settled:
  assumes d: "deliver_one world now wk (db, sent) = (db', sent')"
    and wk: "sw_kind wk = Manual" "sw_prompt wk = Some p" and s: "settled wk p (db, sent)"
    and pend: "\<exists>x\<in>set (ld_wakeups db). sw_id x = sw_id wk \<and> sw_fired_at x = None"
  shows "settled wk p (db', sent')"
proof -
  have prompt: "wakeup_prompt wk policy = p" for policy using wk(2) by (simp add: wakeup_prompt_def)
  have repark: "settled wk p (repark_and_fire world now db wk p False, sent)"
  proof -
    obtain outcome db1 where r: "repark_prompt world db (sw_workspace_id wk) p = (outcome, db1)"
      by (cases "repark_prompt world db (sw_workspace_id wk) p")
    note c = repark_prompt_cases [OF r]
    show ?thesis
    proof (cases outcome)
      case Parked
      with c show ?thesis by (auto simp: settled_def repark_and_fire_def r)
    next
      case NoSession
      with c show ?thesis by (auto simp: settled_def repark_and_fire_def r)
    qed (use c pend in \<open>auto simp: settled_def repark_and_fire_def r\<close>)
  qed
  from d wk(1) consider "db' = repark_and_fire world now db wk p False \<and> sent' = sent"
    | "db' = db \<and> sent' = sent" | "(sw_workspace_id wk, p) \<in> set sent'"
    by (auto simp: deliver_one_def Let_def prompt split: if_splits)
  then show ?thesis using repark s by cases (auto simp: settled_def)
qed

lemma deliver_loop_settled:
  assumes "sw_kind wk = Manual" and "sw_prompt wk = Some p"
  shows "distinct (map sw_id wks) \<Longrightarrow> (\<forall>x\<in>set wks. sw_id x = sw_id wk \<longrightarrow> x = wk) \<Longrightarrow>
     settled wk p state \<Longrightarrow>
     (wk \<in> set wks \<longrightarrow> (\<exists>x\<in>set (ld_wakeups (fst state)). sw_id x = sw_id wk \<and> sw_fired_at x = None))
     \<Longrightarrow> settled wk p (deliver_loop worlds now k wks state)"
proof (induction wks arbitrary: state k)
  case (Cons x wks)
  obtain db sent where st: "state = (db, sent)" by (cases state)
  obtain db1 sent1 where d: "deliver_one (worlds k) now x (db, sent) = (db1, sent1)"
    by (cases "deliver_one (worlds k) now x (db, sent)")
  show ?case
  proof (cases "sw_id x = sw_id wk")
    case True
    then have x: "x = wk" using Cons.prems(2) by simp
    then have "settled wk p (db1, sent1)"
      using deliver_own_settled [OF d [unfolded x] assms] Cons.prems(3,4) st by simp
    moreover have "wk \<notin> set wks" using Cons.prems(1) x by auto
    ultimately show ?thesis using Cons.IH [of "(db1, sent1)"] Cons.prems(1,2) st d by simp
  next
    case False
    then have "settled wk p (db1, sent1)" using deliver_other_settled [OF d] Cons.prems(3) st by blast
    moreover have "wk \<in> set wks \<longrightarrow> (\<exists>x\<in>set (ld_wakeups db1). sw_id x = sw_id wk \<and> sw_fired_at x = None)"
      using Cons.prems(4) st deliver_other_pending [OF d False] by simp
    ultimately show ?thesis using Cons.IH [of "(db1, sent1)"] Cons.prems(1,2) st d by simp
  qed
qed simp

lemma deliver_loop_prompts:
  "prompts_kept (ld_sessions (fst state)) (ld_sessions (fst (deliver_loop worlds now k wks state)))"
proof (induction wks arbitrary: state k)
  case (Cons x wks)
  obtain db sent where st: "state = (db, sent)" by (cases state)
  obtain db1 sent1 where d: "deliver_one (worlds k) now x (db, sent) = (db1, sent1)"
    by (cases "deliver_one (worlds k) now x (db, sent)")
  from deliver_one_frame(1) [OF d] Cons.IH [of "(db1, sent1)"] show ?case
    using st d by (auto intro: prompts_kept_trans)
qed (simp add: prompts_kept_refl)

text \<open>
  No prompt is lost: after a pass over the due wake-ups every prompt that was parked is
  still parked as it was, and a wake-up with a prompt of the user's is still pending, has been
  typed, has been parked, or its workspace has no session at all.
\<close>

theorem user_prompts_survive:
  assumes "distinct (map sw_id (ld_wakeups db))" and "wk \<in> set (ld_wakeups db)" and "sw_fired_at wk = None"
    and "sw_kind wk = Manual" and "sw_prompt wk = Some p"
  shows "settled wk p (deliver_due_wakeups worlds now db)
    \<and> prompts_kept (ld_sessions db) (ld_sessions (fst (deliver_due_wakeups worlds now db)))"
proof -
  let ?due = "list_due (ld_wakeups db) now"
  have "distinct (map sw_id (filter (\<lambda>wk. sw_fired_at wk = None \<and> sw_fire_at wk \<le> now) (ld_wakeups db)))"
    using assms(1) by (rule distinct_map_filter)
  then have dist: "distinct (map sw_id ?due)"
    by (simp add: list_due_def order_by_def distinct_sort_map)
  have uniq: "\<forall>x\<in>set ?due. sw_id x = sw_id wk \<longrightarrow> x = wk"
    using distinct_key_eq [OF assms(1)] assms(2) by (auto simp: list_due_def)
  have pend: "\<exists>x\<in>set (ld_wakeups db). sw_id x = sw_id wk \<and> sw_fired_at x = None"
    using assms(2,3) by blast
  then have "settled wk p (db, [])" by (simp add: settled_def)
  then show ?thesis
    using deliver_loop_settled [OF assms(4,5) dist uniq, of "(db, [])"] pend
      deliver_loop_prompts [of "(db, [])"]
    by (simp add: deliver_due_wakeups_def)
qed


section \<open>The cap on attempts\<close>

definition attempts_ok :: "policy_table \<Rightarrow> bool" where
  "attempts_ok ps = (distinct (map la_workspace_id ps)
     \<and> (\<forall>p\<in>set ps. la_max_attempts p > 0 \<longrightarrow> la_attempts_used p \<le> la_max_attempts p))"

lemma increment_attempts_ok:
  assumes ok: "attempts_ok ps" and p: "get_policy ps w = Some p" "\<not> cap_reached p"
  shows "attempts_ok (increment_attempts ps w now)"
proof -
  have p': "p \<in> set ps" "la_workspace_id p = w"
    using p(1) by (auto simp: get_policy_def dest: select_one_Some)
  have same: "q = p" if "q \<in> set ps" "la_workspace_id q = w" for q
    using distinct_key_eq [of la_workspace_id ps q p] ok that p' by (simp add: attempts_ok_def)
  have "la_attempts_used q \<le> la_max_attempts q" if q: "q \<in> set (increment_attempts ps w now)" "la_max_attempts q > 0" for q
    using q(1) unfolding increment_attempts_def
  proof (rule in_update_whereE)
    assume "q \<in> set ps" "la_workspace_id q \<noteq> w"
    with ok q(2) show ?thesis by (simp add: attempts_ok_def)
  next
    fix r assume "r \<in> set ps" "la_workspace_id r = w"
      "q = r\<lparr>la_attempts_used := la_attempts_used r + 1, la_updated_at := now\<rparr>"
    with same p(2) q(2) show ?thesis by (auto simp: cap_reached_def)
  qed
  with ok show ?thesis
    by (simp add: attempts_ok_def increment_attempts_def map_key_update_where)
qed

text \<open>
  The cap holds: a pass over the due wake-ups, however many are due for one workspace, never
  takes the attempts of a capped policy beyond its maximum.
\<close>

theorem attempts_capped:
  assumes "attempts_ok (ld_policies db)"
  shows "attempts_ok (ld_policies (fst (deliver_due_wakeups worlds now db)))"
proof -
  have "attempts_ok (ld_policies (fst state)) \<Longrightarrow> attempts_ok (ld_policies (fst (deliver_loop worlds now k wks state)))"
    for wks k state
  proof (induction wks arbitrary: k state)
    case (Cons x wks)
    obtain db sent where st: "state = (db, sent)" by (cases state)
    obtain db1 sent1 where d: "deliver_one (worlds k) now x (db, sent) = (db1, sent1)"
      by (cases "deliver_one (worlds k) now x (db, sent)")
    have "attempts_ok (ld_policies db1)"
      using d
    proof (cases rule: deliver_one_cases)
      case (counted p)
      with Cons.prems st increment_attempts_ok show ?thesis by simp
    qed (use Cons.prems st in \<open>simp_all add: repark_and_fire_frame\<close>)
    with Cons.IH [of "(db1, sent1)"] st d show ?case by simp
  qed simp
  from this [of "(db, [])"] assms show ?thesis by (simp add: deliver_due_wakeups_def)
qed

section \<open>Scheduling\<close>

definition pending_keys :: "wakeup_table \<Rightarrow> (uuid \<times> string) list" where
  "pending_keys ws = map (\<lambda>x. (sw_workspace_id x, sw_kind_text x))
     (filter (\<lambda>x. sw_fired_at x = None \<and> sw_kind x \<noteq> Manual) ws)"

lemma schedule_one_cases:
  assumes "schedule_one world now fresh p ws = ws'"
  obtains (same) "ws' = ws"
  | (new) signal pane where "ws' = create_wakeup ws fresh (la_workspace_id p) (fire_time p signal now) (signal_kind signal) None (la_attempts_used p + 1) now"
      "\<not> has_pending ws (la_workspace_id p) (signal_kind signal)" "\<not> cap_reached p"
      "pw_capture world (la_workspace_id p) = Some pane" "detect_limit_at pane now (pw_local_offset world) = Some signal"
  using assms by (auto simp: schedule_one_def Let_def split: if_splits option.splits)

lemma fire_time_future:
  assumes "detect_limit_at pane now tz = Some signal"
  shows "now < fire_time p signal now"
proof (cases signal)
  case (UsageLimited reset_at)
  then show ?thesis
    using assms parse_reset_range usage_wake_future by (simp add: fire_time_def)
qed (auto simp: fire_time_def OVERLOAD_BACKOFF_SECS_def)

lemma signal_kind_not_manual [simp]: "signal_kind s \<noteq> Manual"
  by (cases s) simp_all

lemma schedule_loop_inv:
  "distinct (pending_keys ws) \<Longrightarrow>
     distinct (pending_keys (schedule_loop worlds now fresh k ps ws))
     \<and> (\<exists>new. schedule_loop worlds now fresh k ps ws = ws @ new
          \<and> (\<forall>x\<in>set new. now < sw_fire_at x \<and> sw_fired_at x = None \<and> sw_kind x \<noteq> Manual
               \<and> (\<exists>p\<in>set ps. la_workspace_id p = sw_workspace_id x \<and> \<not> cap_reached p)))"
proof (induction ps arbitrary: k ws)
  case (Cons p ps)
  define ws1 where "ws1 = schedule_one (worlds k) now (fresh k) p ws"
  have step: "distinct (pending_keys ws1) \<and> (\<exists>new. ws1 = ws @ new
      \<and> (\<forall>x\<in>set new. now < sw_fire_at x \<and> sw_fired_at x = None \<and> sw_kind x \<noteq> Manual
           \<and> la_workspace_id p = sw_workspace_id x \<and> \<not> cap_reached p))"
    using ws1_def [symmetric]
  proof (cases rule: schedule_one_cases)
    case same
    then show ?thesis using Cons.prems by simp
  next
    case (new signal pane)
    have "(la_workspace_id p, wakeup_kind_str (signal_kind signal)) \<notin> set (pending_keys ws)"
      using new(2) by (auto simp: has_pending_def rows_affected_pos pending_keys_def)
    with new Cons.prems fire_time_future [OF new(5), of p] show ?thesis
      by (auto simp: create_wakeup_def pending_keys_def sw_kind_def)
  qed
  then obtain new1 where new1: "ws1 = ws @ new1" "\<forall>x\<in>set new1. now < sw_fire_at x \<and> sw_fired_at x = None
      \<and> sw_kind x \<noteq> Manual \<and> la_workspace_id p = sw_workspace_id x \<and> \<not> cap_reached p"
    by blast
  from Cons.IH [of ws1 "Suc k"] step obtain new2 where new2:
    "distinct (pending_keys (schedule_loop worlds now fresh (Suc k) ps ws1))"
    "schedule_loop worlds now fresh (Suc k) ps ws1 = ws1 @ new2"
    "\<forall>x\<in>set new2. now < sw_fire_at x \<and> sw_fired_at x = None \<and> sw_kind x \<noteq> Manual
       \<and> (\<exists>p\<in>set ps. la_workspace_id p = sw_workspace_id x \<and> \<not> cap_reached p)"
    by blast
  have "\<forall>x\<in>set (new1 @ new2). now < sw_fire_at x \<and> sw_fired_at x = None \<and> sw_kind x \<noteq> Manual
      \<and> (\<exists>q\<in>set (p # ps). la_workspace_id q = sw_workspace_id x \<and> \<not> cap_reached q)"
    using new1(2) new2(3) by auto
  with new1(1) new2(1,2) show ?case by (simp flip: ws1_def)
qed simp

text \<open>
  Scheduling keeps at most one pending automatic wake-up for a workspace and a kind of
  limit; what it adds lies in the future and belongs to a policy that is enabled and under its
  cap, and it changes nothing else.
\<close>

theorem schedule_deduplicated:
  assumes "distinct (pending_keys (ld_wakeups db))"
  shows "distinct (pending_keys (ld_wakeups (detect_and_schedule worlds now fresh db)))
    \<and> (\<exists>new. detect_and_schedule worlds now fresh db = db\<lparr>ld_wakeups := ld_wakeups db @ new\<rparr>
        \<and> (\<forall>x\<in>set new. now < sw_fire_at x \<and> sw_fired_at x = None \<and> sw_kind x \<noteq> Manual
             \<and> (\<exists>p\<in>set (ld_policies db). la_workspace_id p = sw_workspace_id x \<and> la_enabled p \<and> \<not> cap_reached p)))"
proof -
  obtain new where "distinct (pending_keys (ld_wakeups (detect_and_schedule worlds now fresh db)))"
      "schedule_loop worlds now fresh 0 (list_enabled (ld_policies db)) (ld_wakeups db) = ld_wakeups db @ new"
      "\<forall>x\<in>set new. now < sw_fire_at x \<and> sw_fired_at x = None \<and> sw_kind x \<noteq> Manual
         \<and> (\<exists>p\<in>set (list_enabled (ld_policies db)). la_workspace_id p = sw_workspace_id x \<and> \<not> cap_reached p)"
    using schedule_loop_inv [OF assms, of worlds now fresh 0 "list_enabled (ld_policies db)"]
    by (auto simp: detect_and_schedule_def)
  then show ?thesis
    by (intro conjI exI [of _ new]) (auto simp: detect_and_schedule_def list_enabled_def)
qed


section \<open>A small state for the witnesses\<close>

definition demo_world :: pane_world where
  "demo_world = \<lparr>pw_session_exists = (\<lambda>_. True), pw_capture = (\<lambda>_. Some demo_pane), pw_claim_free = (\<lambda>_. True),
     pw_send_ok = (\<lambda>_ _. True), pw_local_offset = 0, pw_get_ok = (\<lambda>_. True), pw_peek_ok = (\<lambda>_. True),
     pw_latest_ok = (\<lambda>_. True), pw_park_ok = (\<lambda>_. True), pw_increment_ok = (\<lambda>_. True)\<rparr>"

definition demo_policy :: loop_automation where
  "demo_policy = \<lparr>la_workspace_id = 1, la_enabled = True, la_retry_interval_secs = 60,
     la_continuation_prompt = ''go on'', la_max_attempts = 3, la_attempts_used = 2, la_updated_at = 0\<rparr>"

definition demo_wakeup :: scheduled_wakeup where
  "demo_wakeup = \<lparr>sw_id = 9, sw_workspace_id = 1, sw_fire_at = 50000, sw_kind_text = ''usage_limit_wake'',
     sw_prompt = None, sw_attempt = 1, sw_fired_at = None, sw_created_at = 0\<rparr>"

definition demo_ping :: scheduled_wakeup where
  "demo_ping = \<lparr>sw_id = 8, sw_workspace_id = 1, sw_fire_at = 50000, sw_kind_text = ''manual'',
     sw_prompt = Some ''ping'', sw_attempt = 1, sw_fired_at = None, sw_created_at = 0\<rparr>"

definition demo_db :: loop_db where
  "demo_db = \<lparr>ld_policies = [demo_policy], ld_wakeups = [demo_ping, demo_wakeup],
     ld_sessions = [\<lparr>ss_id = 5, ss_workspace_id = 1, ss_executor = None, ss_agent_working_dir = None, ss_created_at = 0, ss_pending_cli_prompt = None\<rparr>],
     ld_executions = []\<rparr>"



theorem user_prompts_survive_witness:
  "settled demo_ping ''ping'' (deliver_due_wakeups (\<lambda>_. demo_world) 54000 demo_db)"
  using user_prompts_survive [of demo_db demo_ping "''ping''"]
  by (simp add: demo_db_def demo_ping_def demo_wakeup_def sw_kind_def wakeup_kind_parse_def)

theorem attempts_capped_witness:
  "attempts_ok (ld_policies (fst (deliver_due_wakeups (\<lambda>_. demo_world) 54000 demo_db)))"
  by (rule attempts_capped) (simp add: attempts_ok_def demo_db_def demo_policy_def)

theorem schedule_deduplicated_witness:
  "distinct (pending_keys (ld_wakeups (detect_and_schedule (\<lambda>_. demo_world) 54000 (\<lambda>k. k) demo_db)))"
proof -
  have "distinct (pending_keys (ld_wakeups demo_db))"
    by (simp add: pending_keys_def demo_db_def demo_ping_def demo_wakeup_def sw_kind_def wakeup_kind_parse_def)
  from schedule_deduplicated [OF this] show ?thesis by blast
qed

end
