(* ===== verification/PlainText.thy ===== *)
theory PlainText
  imports Prelude
begin

text \<open>
  The log processor for plain text (\<^verbatim>\<open>crates/executors/src/logs/plain_text_processor.rs\<close>): its line
  buffer, the processing of a chunk with formatter, transformation, boundary predicate, size
  and time splitting, and the patches it emits.  The pluggable functions are fields of the
  processor, as in the code.
\<close>

section \<open>The buffer\<close>

definition newline :: char where
  "newline = CHR 0x0A"


fun split_inclusive :: "string \<Rightarrow> string list" where
  "split_inclusive [] = []"
| "split_inclusive (c # s) =
     (if c = newline then [c] # split_inclusive s
      else case split_inclusive s of [] \<Rightarrow> [[c]] | p # ps \<Rightarrow> (c # p) # ps)"











section \<open>The processor\<close>


















section \<open>The buffer keeps the text\<close>


lemma concat_split_inclusive [simp]: "concat (split_inclusive s) = s"
  by (induction s) (auto split: list.split)







section \<open>The conversation the patches build\<close>














section \<open>The time gap\<close>




end
