(* ===== verification/MsgStore.thy ===== *)
theory MsgStore
  imports Prelude
begin

text \<open>
  The message store of an execution (\<^verbatim>\<open>crates/utils/src/msg_store.rs\<close>) with its log messages
  (\<^verbatim>\<open>crates/utils/src/log_msg.rs\<close>) and the provider of entry indexes that is seeded from it
  (\<^verbatim>\<open>crates/executors/src/logs/utils/entry_index.rs\<close>).  The serialised length of a patch is a
  parameter, and so is what the broadcast receiver of a subscriber hands out.
\<close>

section \<open>Log messages\<close>

text \<open>An operation of a JSON patch: the code looks at the path of an \<open>add\<close> only.\<close>

datatype 'v patch_operation = OpAdd string 'v | OpOther 'v

datatype 'v log_msg =
    Stdout string
  | Stderr string
  | JsonPatch "'v patch_operation list"
  | SessionId string
  | MessageId string
  | NativeUuid string
  | Ready
  | Finished

fun log_msg_name :: "'v log_msg \<Rightarrow> string" where
  "log_msg_name (Stdout _) = ''stdout''"
| "log_msg_name (Stderr _) = ''stderr''"
| "log_msg_name (JsonPatch _) = ''json_patch''"
| "log_msg_name (SessionId _) = ''session_id''"
| "log_msg_name (MessageId _) = ''message_id''"
| "log_msg_name (NativeUuid _) = ''native_uuid''"
| "log_msg_name Ready = ''ready''"
| "log_msg_name Finished = ''finished''"

definition OVERHEAD :: nat where
  "OVERHEAD = 8"

fun approx_bytes :: "('v patch_operation list \<Rightarrow> nat option) \<Rightarrow> 'v log_msg \<Rightarrow> nat" where
  "approx_bytes json_len (Stdout s) = str_len ''stdout'' + str_len s + OVERHEAD"
| "approx_bytes json_len (Stderr s) = str_len ''stderr'' + str_len s + OVERHEAD"
| "approx_bytes json_len (JsonPatch p) =
     str_len ''json_patch'' + (case json_len p of Some n \<Rightarrow> n | None \<Rightarrow> 2) + OVERHEAD"
| "approx_bytes json_len (SessionId s) = str_len ''session_id'' + str_len s + OVERHEAD"
| "approx_bytes json_len (MessageId s) = str_len ''message_id'' + str_len s + OVERHEAD"
| "approx_bytes json_len (NativeUuid s) = str_len ''native_uuid'' + str_len s + OVERHEAD"
| "approx_bytes json_len Ready = str_len ''ready'' + OVERHEAD"
| "approx_bytes json_len Finished = str_len ''finished'' + OVERHEAD"

section \<open>The store\<close>

text \<open>\<open>usize\<close> on the 64-bit targets; \<open>saturating_sub\<close> is subtraction on the natural numbers.\<close>

definition usize_max :: nat where
  "usize_max = 2 ^ 64 - 1"

definition saturating_add :: "nat \<Rightarrow> nat \<Rightarrow> nat" where
  "saturating_add a b = min (a + b) usize_max"

record 'v stored_msg =
  sm_msg :: "'v log_msg"
  sm_bytes :: nat

record 'v msg_store =
  ms_history :: "'v stored_msg list"
  ms_total_bytes :: nat

definition msg_store_new :: "'v msg_store" where
  "msg_store_new = \<lparr>ms_history = [], ms_total_bytes = 0\<rparr>"

text \<open>The loop of \<open>push\<close> that makes room: on the list of kept messages and their total.\<close>

fun make_room :: "nat \<Rightarrow> nat \<Rightarrow> 'v stored_msg list \<Rightarrow> nat \<Rightarrow> 'v stored_msg list \<times> nat" where
  "make_room budget bytes [] used = ([], used)"
| "make_room budget bytes (front # rest) used =
     (if saturating_add used bytes > budget
      then make_room budget bytes rest (used - sm_bytes front)
      else (front # rest, used))"

text \<open>\<open>push\<close>: the new store and the message that is broadcast.\<close>

definition push ::
  "nat \<Rightarrow> ('v patch_operation list \<Rightarrow> nat option) \<Rightarrow> 'v log_msg \<Rightarrow> 'v msg_store \<Rightarrow> 'v log_msg \<times> 'v msg_store" where
  "push budget json_len msg st =
     (let bytes = approx_bytes json_len msg;
          (kept, used) = make_room budget bytes (ms_history st) (ms_total_bytes st);
          history = kept @ [\<lparr>sm_msg = msg, sm_bytes = bytes\<rparr>]
      in (sm_msg (last history), \<lparr>ms_history = history, ms_total_bytes = saturating_add used bytes\<rparr>))"

definition push_stdout where "push_stdout budget json_len s = push budget json_len (Stdout s)"

definition push_patch where "push_patch budget json_len p = push budget json_len (JsonPatch p)"

definition push_session_id where "push_session_id budget json_len s = push budget json_len (SessionId s)"

definition push_message_id where "push_message_id budget json_len s = push budget json_len (MessageId s)"

definition push_native_uuid where "push_native_uuid budget json_len s = push budget json_len (NativeUuid s)"

definition push_finished where "push_finished budget json_len = push budget json_len Finished"

definition get_history :: "'v msg_store \<Rightarrow> 'v log_msg list" where
  "get_history st = map sm_msg (ms_history st)"

text \<open>What a receiver of the broadcast channel hands out: a message, or the number it missed.\<close>

datatype 'v received = Received "'v log_msg" | Lagged nat

fun live_msg :: "'v received \<Rightarrow> 'v log_msg option" where
  "live_msg (Received m) = Some m"
| "live_msg (Lagged n) = None"

definition history_plus_stream :: "'v msg_store \<Rightarrow> 'v received list \<Rightarrow> 'v log_msg list" where
  "history_plus_stream st rx = get_history st @ List.map_filter live_msg rx"

fun stdout_msg :: "'v log_msg \<Rightarrow> string option" where
  "stdout_msg (Stdout s) = Some s"
| "stdout_msg _ = None"

fun stderr_msg :: "'v log_msg \<Rightarrow> string option" where
  "stderr_msg (Stderr s) = Some s"
| "stderr_msg _ = None"

definition not_finished :: "'v log_msg \<Rightarrow> bool" where
  "not_finished m = (case m of Finished \<Rightarrow> False | _ \<Rightarrow> True)"

definition stdout_chunked_stream :: "'v msg_store \<Rightarrow> 'v received list \<Rightarrow> string list" where
  "stdout_chunked_stream st rx = List.map_filter stdout_msg (takeWhile not_finished (history_plus_stream st rx))"

definition stderr_chunked_stream :: "'v msg_store \<Rightarrow> 'v received list \<Rightarrow> string list" where
  "stderr_chunked_stream st rx = List.map_filter stderr_msg (takeWhile not_finished (history_plus_stream st rx))"

text \<open>The task of \<open>spawn_forwarder\<close> on the items of its stream: an error becomes a line of standard error.\<close>

fun forward ::
  "nat \<Rightarrow> ('v patch_operation list \<Rightarrow> nat option) \<Rightarrow> (string + 'v log_msg) list \<Rightarrow> 'v msg_store \<Rightarrow> 'v msg_store" where
  "forward budget json_len [] st = st"
| "forward budget json_len (next # stream) st =
     forward budget json_len stream
       (snd (push budget json_len
         (case next of Inr msg \<Rightarrow> msg | Inl e \<Rightarrow> Stderr (''stream error: '' @ e)) st))"

section \<open>Entry indexes\<close>

text \<open>\<open>str::parse::<usize>\<close>: an optional plus sign and decimal digits, within the range.\<close>

definition digit_of :: "char \<Rightarrow> nat" where
  "digit_of c = code_point c - 48"

definition parse_usize :: "string \<Rightarrow> nat option" where
  "parse_usize s =
     (let digits = (case s of c # cs \<Rightarrow> (if c = CHR ''+'' then cs else s) | [] \<Rightarrow> []);
          n = foldl (\<lambda>n c. 10 * n + digit_of c) 0 digits
      in if digits \<noteq> [] \<and> list_all is_ascii_digit digits \<and> n \<le> usize_max then Some n else None)"

definition entry_index_of :: "'v patch_operation \<Rightarrow> nat option" where
  "entry_index_of op =
     (case op of
        OpAdd path _ \<Rightarrow> (case strip_prefix path ''/entries/'' of None \<Rightarrow> None | Some n_str \<Rightarrow> parse_usize n_str)
      | OpOther _ \<Rightarrow> None)"

text \<open>\<open>find_map\<close>: the first operation that names an index.\<close>

definition patch_index :: "'v log_msg \<Rightarrow> nat option" where
  "patch_index msg =
     (case msg of JsonPatch p \<Rightarrow> limit_one (List.map_filter entry_index_of p) | _ \<Rightarrow> None)"

type_synonym entry_index_provider = nat

definition provider_new :: entry_index_provider where
  "provider_new = 0"

text \<open>\<open>next\<close>: \<open>fetch_add\<close> wraps around.\<close>

definition next_index :: "entry_index_provider \<Rightarrow> nat \<times> entry_index_provider" where
  "next_index p = (p, (p + 1) mod (usize_max + 1))"

definition current_index :: "entry_index_provider \<Rightarrow> nat" where
  "current_index p = p"

definition start_from :: "'v msg_store \<Rightarrow> entry_index_provider" where
  "start_from st =
     (case List.map_filter patch_index (get_history st) of
        [] \<Rightarrow> 0
      | i # is \<Rightarrow> saturating_add (fold max is i) 1)"

section \<open>What the store retains\<close>

text \<open>
  The specification of the history: the newest message, and before it as many messages in a
  row as fit into the budget.
\<close>

fun fitting :: "nat \<Rightarrow> ('a \<Rightarrow> nat) \<Rightarrow> 'a list \<Rightarrow> 'a list" where
  "fitting room size_of [] = []"
| "fitting room size_of (m # older) =
     (if size_of m \<le> room then m # fitting (room - size_of m) size_of older else [])"

definition retained :: "nat \<Rightarrow> ('a \<Rightarrow> nat) \<Rightarrow> 'a list \<Rightarrow> 'a list" where
  "retained budget size_of msgs =
     (case rev msgs of
        [] \<Rightarrow> []
      | newest # older \<Rightarrow> rev (newest # fitting (budget - size_of newest) size_of older))"

definition push_all ::
  "nat \<Rightarrow> ('v patch_operation list \<Rightarrow> nat option) \<Rightarrow> 'v log_msg list \<Rightarrow> 'v msg_store \<Rightarrow> 'v msg_store" where
  "push_all budget json_len msgs st = foldl (\<lambda>st m. snd (push budget json_len m st)) st msgs"

lemma fitting_all: "sum_list (map size_of l) \<le> room \<Longrightarrow> fitting room size_of l = l"
  by (induction l arbitrary: room) auto

lemma fitting_snoc: "room < sum_list (map size_of (l @ [x])) \<Longrightarrow> fitting room size_of (l @ [x]) = fitting room size_of l"
  by (induction l arbitrary: room) auto

lemma fitting_again: "r \<le> room \<Longrightarrow> fitting r size_of (fitting room size_of l) = fitting r size_of l"
  by (induction l arbitrary: r room) auto

lemma fitting_sum: "sum_list (map size_of (fitting room size_of l)) \<le> room"
  by (induction l arbitrary: room) (auto, metis le_diff_conv2 add.commute)


lemma retained_snoc:
  "retained budget size_of (msgs @ [m]) = rev (fitting (budget - size_of m) size_of (rev (retained budget size_of msgs))) @ [m]"
  by (cases msgs rule: rev_cases) (auto simp: retained_def fitting_again)

lemma make_room_fitting:
  assumes "budget < usize_max" and "\<forall>s\<in>set h. 0 < sm_bytes s" and "used = sum_list (map sm_bytes h)"
  shows "make_room budget bytes h used
    = (rev (fitting (budget - bytes) sm_bytes (rev h)), sum_list (map sm_bytes (fitting (budget - bytes) sm_bytes (rev h))))"
  using assms(2,3)
proof (induction h arbitrary: used)
  case (Cons front rest)
  have sat: "saturating_add used bytes > budget \<longleftrightarrow> used + bytes > budget"
    using assms(1) by (auto simp: saturating_add_def)
  show ?case
  proof (cases "used + bytes > budget")
    case True
    then have "budget - bytes < sum_list (map sm_bytes (rev rest @ [front]))"
      using Cons.prems by (auto simp: rev_map [symmetric])
    from fitting_snoc [OF this] Cons True sat show ?thesis by simp
  next
    case False
    then have "fitting (budget - bytes) sm_bytes (rev (front # rest)) = rev (front # rest)"
      using Cons.prems by (intro fitting_all) (simp add: rev_map [symmetric])
    then show ?thesis using False Cons.prems sat by (simp add: rev_map [symmetric])
  qed
qed simp

text \<open>The stored form of a message, and what holds of a store between two calls.\<close>

definition stored :: "('v patch_operation list \<Rightarrow> nat option) \<Rightarrow> 'v log_msg \<Rightarrow> 'v stored_msg" where
  "stored json_len m = \<lparr>sm_msg = m, sm_bytes = approx_bytes json_len m\<rparr>"

definition store_ok :: "('v patch_operation list \<Rightarrow> nat option) \<Rightarrow> 'v msg_store \<Rightarrow> bool" where
  "store_ok json_len st =
     (ms_total_bytes st = sum_list (map sm_bytes (ms_history st))
      \<and> (\<forall>s\<in>set (ms_history st). s = stored json_len (sm_msg s)))"

lemma approx_bytes_pos: "0 < approx_bytes json_len m"
  by (cases m) (simp_all add: OVERHEAD_def)

lemma approx_bytes_nz [simp]: "approx_bytes json_len m \<noteq> 0"
  using approx_bytes_pos [of json_len m] by simp

lemma stored_pos: "s = stored json_len (sm_msg s) \<Longrightarrow> 0 < sm_bytes s"
  by (metis approx_bytes_pos stored_def stored_msg.select_convs(2))

lemma fitting_stored: "fitting room sm_bytes (map (stored json_len) l) = map (stored json_len) (fitting room (approx_bytes json_len) l)"
  by (induction l arbitrary: room) (auto simp: stored_def)

lemma store_ok_map: "store_ok json_len st \<Longrightarrow> ms_history st = map (stored json_len) (get_history st)"
  by (simp add: store_ok_def get_history_def comp_def) (metis map_idI)

lemma push_kept:
  assumes "budget < usize_max" and "approx_bytes json_len m \<le> usize_max" and ok: "store_ok json_len st"
  defines "kept \<equiv> fitting (budget - approx_bytes json_len m) sm_bytes (rev (ms_history st))"
  shows "snd (push budget json_len m st) = \<lparr>ms_history = rev kept @ [stored json_len m],
    ms_total_bytes = sum_list (map sm_bytes kept) + approx_bytes json_len m\<rparr>"
proof -
  have pos: "\<forall>s\<in>set (ms_history st). 0 < sm_bytes s" using ok stored_pos by (auto simp: store_ok_def)
  have room: "make_room budget (approx_bytes json_len m) (ms_history st) (ms_total_bytes st)
      = (rev kept, sum_list (map sm_bytes kept))"
    using make_room_fitting [OF assms(1) pos, of "ms_total_bytes st"] ok by (simp add: store_ok_def kept_def)
  have sum: "sum_list (map sm_bytes kept) \<le> budget - approx_bytes json_len m"
    by (simp add: kept_def fitting_sum)
  have "sum_list (map sm_bytes kept) + approx_bytes json_len m \<le> usize_max"
    using sum assms(1,2) by linarith
  then show ?thesis using room by (simp add: push_def stored_def Let_def saturating_add_def)
qed

lemma push_retained:
  assumes "budget < usize_max" and "approx_bytes json_len m \<le> usize_max" and "store_ok json_len st"
    and "get_history st = retained budget (approx_bytes json_len) msgs"
  shows "store_ok json_len (snd (push budget json_len m st))
    \<and> get_history (snd (push budget json_len m st)) = retained budget (approx_bytes json_len) (msgs @ [m])"
proof -
  have "ms_history st = map (stored json_len) (retained budget (approx_bytes json_len) msgs)"
    using store_ok_map [OF assms(3)] assms(4) by simp
  then show ?thesis
    using push_kept [OF assms(1-3)]
    by (simp add: store_ok_def get_history_def retained_snoc rev_map fitting_stored) (auto simp: stored_def comp_def rev_map [symmetric])
qed

lemma push_all_retained:
  assumes "budget < usize_max" and "\<forall>m\<in>set msgs. approx_bytes json_len m \<le> usize_max"
  shows "store_ok json_len (push_all budget json_len msgs msg_store_new)
    \<and> get_history (push_all budget json_len msgs msg_store_new) = retained budget (approx_bytes json_len) msgs"
  using assms(2)
proof (induction msgs rule: rev_induct)
  case Nil
  show ?case by (simp add: push_all_def msg_store_new_def store_ok_def get_history_def retained_def)
next
  case (snoc m msgs)
  then show ?case using push_retained [OF assms(1), of json_len m] by (simp add: push_all_def)
qed

text \<open>
  C16.  The scrollback of a store is exactly the longest run of most recent messages that fits
  the byte budget, and always holds the newest message: whatever was pushed, \<open>get_history\<close>
  returns \<open>retained\<close> of it, the byte count kept beside it is the sum of the sizes, and unless a
  single message alone is larger, that sum is within the budget.
\<close>

theorem history_is_longest_recent_run:
  assumes "budget < usize_max" and "\<forall>m\<in>set msgs. approx_bytes json_len m \<le> usize_max"
  shows "get_history (push_all budget json_len msgs msg_store_new) = retained budget (approx_bytes json_len) msgs
    \<and> ms_total_bytes (push_all budget json_len msgs msg_store_new)
        = sum_list (map (approx_bytes json_len) (retained budget (approx_bytes json_len) msgs))
    \<and> (ms_total_bytes (push_all budget json_len msgs msg_store_new) \<le> budget
        \<or> length (get_history (push_all budget json_len msgs msg_store_new)) = 1)"
proof -
  let ?st = "push_all budget json_len msgs msg_store_new" and ?sz = "approx_bytes json_len"
  have ok: "store_ok json_len ?st" and h: "get_history ?st = retained budget ?sz msgs"
    using push_all_retained [OF assms] by auto
  have t: "ms_total_bytes ?st = sum_list (map ?sz (retained budget ?sz msgs))"
    using ok store_ok_map [OF ok] h by (simp add: store_ok_def comp_def stored_def)
  have "sum_list (map ?sz (retained budget ?sz msgs)) \<le> budget \<or> length (retained budget ?sz msgs) = 1"
  proof (cases msgs rule: rev_cases)
    case (snoc ms m)
    let ?old = "fitting (budget - ?sz m) ?sz (rev ms)"
    have sum: "sum_list (map ?sz ?old) \<le> budget - ?sz m" by (rule fitting_sum)
    show ?thesis
    proof (cases "?sz m \<le> budget")
      case True
      then show ?thesis using sum snoc by (simp add: retained_def rev_map [symmetric] le_diff_conv2)
    next
      case False
      then have "?old = []" using sum by (cases ?old) auto
      then show ?thesis using snoc by (simp add: retained_def)
    qed
  qed (simp add: retained_def)
  with h t show ?thesis by simp
qed

theorem history_is_longest_recent_run_witness:
  "get_history (push_all 40 (\<lambda>_. None) [Stdout ''first'', Stderr ''two'', Finished] msg_store_new)
     = [Stderr ''two'', Finished :: nat log_msg]"
  using history_is_longest_recent_run [of 40 "[Stdout ''first'', Stderr ''two'', Finished :: nat log_msg]" "\<lambda>_. None"]
  by (simp add: usize_max_def retained_def OVERHEAD_def str_len_def text_defs)

section \<open>History and live messages\<close>










section \<open>Fresh entry indexes\<close>

text \<open>The indexes a message adds.\<close>

fun added_indexes :: "'v log_msg \<Rightarrow> nat list" where
  "added_indexes (JsonPatch p) = List.map_filter entry_index_of p"
| "added_indexes _ = []"

lemma fold_max_ge: "i \<le> fold max is (j::nat) \<longleftrightarrow> i \<le> j \<or> (\<exists>k\<in>set is. i \<le> k)"
  by (induction "is" arbitrary: j) (auto simp: le_max_iff_disj)

text \<open>
  A provider seeded from a store never hands out an index of an entry that is in the
  store: if no patch of the history adds two entries, the first index it gives is larger than
  every index added so far.  (Of a patch that adds several entries the code reads the first.)
\<close>

theorem seeded_index_fresh:
  assumes "msg \<in> set (get_history st)" and "i \<in> set (added_indexes msg)" and "length (added_indexes msg) \<le> 1"
    and "\<forall>m\<in>set (get_history st). \<forall>j\<in>set (added_indexes m). j < usize_max"
  shows "i < fst (next_index (start_from st))"
proof -
  have one: "patch_index msg = Some i"
    using assms(2,3) by (cases msg) (auto simp: patch_index_def length_Suc_conv le_Suc_eq)
  then have mem: "i \<in> set (List.map_filter patch_index (get_history st))"
    using assms(1) by (force simp: map_filter_def)
  then obtain j "is" where l: "List.map_filter patch_index (get_history st) = j # is"
    by (cases "List.map_filter patch_index (get_history st)") auto
  have "k < usize_max" if k: "k \<in> set (j # is)" for k
  proof -
    obtain m where m: "m \<in> set (get_history st)" "patch_index m = Some k"
      using k unfolding l [symmetric] by (auto simp: map_filter_def)
    have "k \<in> set (added_indexes m)"
      using m(2) by (cases m) (auto simp: patch_index_def dest: limit_one_Some)
    with m assms(4) show ?thesis by blast
  qed
  then have "fold max is j < usize_max" by (metis (no_types, lifting) fold_max_ge linorder_not_le list.set_intros)
  moreover have "i \<le> fold max is j" using mem l by (auto simp: fold_max_ge)
  ultimately show ?thesis by (simp add: next_index_def start_from_def l saturating_add_def)
qed

theorem seeded_index_fresh_witness:
  "4 < fst (next_index (start_from (push_all 100 (\<lambda>_. None) [JsonPatch [OpAdd ''/entries/4'' (0::nat)]] msg_store_new)))"
  using seeded_index_fresh [of "JsonPatch [OpAdd ''/entries/4'' (0::nat)]"
      "push_all 100 (\<lambda>_. None) [JsonPatch [OpAdd ''/entries/4'' (0::nat)]] msg_store_new" 4]
  by (simp add: push_all_def msg_store_new_def push_def get_history_def entry_index_of_def strip_prefix_def
      parse_usize_def digit_of_def usize_max_def map_filter_simps text_defs)

end
