(* ===== verification/Approvals.thy ===== *)
theory Approvals
  imports Prelude "HOL-Library.Multiset"
begin

text \<open>
  Requests for a permission or an answer (\<^verbatim>\<open>crates/services/src/services/approvals.rs\<close>,
  \<^verbatim>\<open>crates/utils/src/approvals.rs\<close>) and the bridge through which an executor waits for them
  (\<^verbatim>\<open>approvals/executor_approvals.rs\<close>).  Responses, cancellations and the timeout watcher of a
  request run concurrently: each is a task that is advanced by its single accesses to the
  shared maps and channels, and a system is the shared state with all its tasks.
\<close>

section \<open>Requests and outcomes\<close>

record question_answer =
  qa_question :: string
  qa_answer :: "string list"

datatype approval_outcome =
    Approved
  | Denied "string option"
  | Answered "question_answer list"
  | TimedOut

record approval_request =
  ar_id :: string
  ar_tool_name :: string
  ar_execution_process_id :: uuid
  ar_created_at :: datetime
  ar_timeout_at :: datetime

definition APPROVAL_TIMEOUT_SECONDS :: duration where
  "APPROVAL_TIMEOUT_SECONDS = 36000"

definition request_new :: "string \<Rightarrow> datetime \<Rightarrow> string \<Rightarrow> uuid \<Rightarrow> approval_request" where
  "request_new fresh_id now tool_name ep =
     \<lparr>ar_id = fresh_id, ar_tool_name = tool_name, ar_execution_process_id = ep,
      ar_created_at = now, ar_timeout_at = now + APPROVAL_TIMEOUT_SECONDS\<rparr>"

text \<open>
  A oneshot channel, named by a number: its sender is unused, has sent, or is gone.  The
  waiter of a request is the receiver, with a timeout in place of a lost sender.
\<close>

datatype channel = Open | Sent approval_outcome | Dropped

record pending_approval =
  pa_execution_process_id :: uuid
  pa_tool_name :: string
  pa_is_question :: bool
  pa_created_at :: datetime
  pa_timeout_at :: datetime
  pa_response_tx :: nat

record tool_context =
  tc_tool_name :: string
  tc_execution_process_id :: uuid

record approval_info =
  ai_approval_id :: string
  ai_tool_name :: string
  ai_execution_process_id :: uuid
  ai_is_question :: bool
  ai_created_at :: datetime
  ai_timeout_at :: datetime

datatype approval_patch = PatchSnapshot "approval_info list" | PatchCreated approval_info | PatchResolved string

datatype approval_error = NotFound | AlreadyCompleted | NoExecutorSession string | InvalidStatus | Custom string

text \<open>
  The shared state.  The map of pending requests is kept as the list of its entries; every
  entry owns the sender of its channel.
\<close>

record approvals =
  ap_pending :: "(string \<times> pending_approval) list"
  ap_completed :: "string \<rightharpoonup> approval_outcome"
  ap_patches :: "approval_patch list"
  ap_channels :: "channel list"

definition approvals_new :: approvals where
  "approvals_new = \<lparr>ap_pending = [], ap_completed = Map.empty, ap_patches = [], ap_channels = []\<rparr>"

section \<open>Single accesses\<close>

definition send_tx :: "nat \<Rightarrow> approval_outcome \<Rightarrow> approvals \<Rightarrow> approvals" where
  "send_tx k outcome s =
     s\<lparr>ap_channels := (if k < length (ap_channels s) \<and> ap_channels s ! k = Open
         then (ap_channels s)[k := Sent outcome] else ap_channels s)\<rparr>"

definition drop_tx :: "nat \<Rightarrow> approvals \<Rightarrow> approvals" where
  "drop_tx k s =
     s\<lparr>ap_channels := (if k < length (ap_channels s) \<and> ap_channels s ! k = Open
         then (ap_channels s)[k := Dropped] else ap_channels s)\<rparr>"

definition pending_remove :: "string \<Rightarrow> approvals \<Rightarrow> pending_approval option \<times> approvals" where
  "pending_remove i s =
     (map_of (ap_pending s) i, s\<lparr>ap_pending := filter (\<lambda>e. fst e \<noteq> i) (ap_pending s)\<rparr>)"

text \<open>Inserting under a key in use drops the old value, and with it its sender.\<close>

definition pending_insert :: "string \<Rightarrow> pending_approval \<Rightarrow> approvals \<Rightarrow> approvals" where
  "pending_insert i p s =
     (case pending_remove i s of
        (None, s1) \<Rightarrow> s1\<lparr>ap_pending := ap_pending s1 @ [(i, p)]\<rparr>
      | (Some old, s1) \<Rightarrow> drop_tx (pa_response_tx old) (s1\<lparr>ap_pending := ap_pending s1 @ [(i, p)]\<rparr>))"

definition complete :: "string \<Rightarrow> approval_outcome \<Rightarrow> approvals \<Rightarrow> approvals" where
  "complete i outcome s = s\<lparr>ap_completed := (ap_completed s)(i \<mapsto> outcome)\<rparr>"

definition send_patch :: "approval_patch \<Rightarrow> approvals \<Rightarrow> approvals" where
  "send_patch patch s = s\<lparr>ap_patches := ap_patches s @ [patch]\<rparr>"

definition waiter :: "approvals \<Rightarrow> nat \<Rightarrow> approval_outcome option" where
  "waiter s k = (case ap_channels s ! k of Open \<Rightarrow> None | Sent outcome \<Rightarrow> Some outcome | Dropped \<Rightarrow> Some TimedOut)"

section \<open>The operations\<close>

fun validate_approval_response :: "approval_outcome \<Rightarrow> bool \<Rightarrow> approval_error + unit" where
  "validate_approval_response Approved is_question = (if is_question then Inl InvalidStatus else Inr ())"
| "validate_approval_response (Denied _) is_question = (if is_question then Inl InvalidStatus else Inr ())"
| "validate_approval_response (Answered _) is_question = (if \<not> is_question then Inl InvalidStatus else Inr ())"
| "validate_approval_response TimedOut is_question = Inr ()"

definition create_info :: "approval_request \<Rightarrow> bool \<Rightarrow> approval_info" where
  "create_info request is_question =
     \<lparr>ai_approval_id = ar_id request, ai_tool_name = ar_tool_name request,
      ai_execution_process_id = ar_execution_process_id request, ai_is_question = is_question,
      ai_created_at = ar_created_at request, ai_timeout_at = ar_timeout_at request\<rparr>"

text \<open>The first part of \<open>create_with_waiter\<close>: a new channel and the pending entry.\<close>

definition create_insert :: "approval_request \<Rightarrow> bool \<Rightarrow> approvals \<Rightarrow> nat \<times> approvals" where
  "create_insert request is_question s =
     (let tx = length (ap_channels s);
          p = \<lparr>pa_execution_process_id = ar_execution_process_id request, pa_tool_name = ar_tool_name request,
               pa_is_question = is_question, pa_created_at = ar_created_at request,
               pa_timeout_at = ar_timeout_at request, pa_response_tx = tx\<rparr>
      in (tx, pending_insert (ar_id request) p (s\<lparr>ap_channels := ap_channels s @ [Open]\<rparr>)))"

definition tool_ctx :: "pending_approval \<Rightarrow> tool_context" where
  "tool_ctx p = \<lparr>tc_tool_name = pa_tool_name p, tc_execution_process_id = pa_execution_process_id p\<rparr>"

definition respond_missing :: "string \<Rightarrow> approvals \<Rightarrow> approval_error" where
  "respond_missing i s = (if ap_completed s i \<noteq> None then AlreadyCompleted else NotFound)"

definition respond ::
  "string \<Rightarrow> approval_outcome \<Rightarrow> approvals \<Rightarrow> (approval_error + approval_outcome \<times> tool_context) \<times> approvals" where
  "respond i status s =
     (case pending_remove i s of
        (None, s1) \<Rightarrow> (Inl (respond_missing i s1), s1)
      | (Some p, s1) \<Rightarrow>
          (case validate_approval_response status (pa_is_question p) of
             Inl e \<Rightarrow> (Inl e, pending_insert i p s1)
           | Inr _ \<Rightarrow>
               let s2 = complete i status s1;
                   s3 = send_tx (pa_response_tx p) status s2;
                   s4 = send_patch (PatchResolved i) s3
               in (Inr (status, tool_ctx p), s4)))"

definition cancelled_outcome :: approval_outcome where
  "cancelled_outcome = Denied (Some ''Cancelled'')"

definition cancel :: "string \<Rightarrow> approvals \<Rightarrow> approvals" where
  "cancel i s =
     (case pending_remove i s of
        (None, s1) \<Rightarrow> s1
      | (Some p, s1) \<Rightarrow>
          drop_tx (pa_response_tx p) (send_patch (PatchResolved i) (complete i cancelled_outcome s1)))"

text \<open>The watcher of a request, from the moment its \<open>select!\<close> has chosen an outcome.\<close>

definition watcher_finish :: "string \<Rightarrow> approval_outcome \<Rightarrow> approvals \<Rightarrow> approvals" where
  "watcher_finish i outcome s =
     (let s1 = complete i outcome s in
      if outcome = TimedOut then
        (case pending_remove i s1 of
           (None, s2) \<Rightarrow> s2
         | (Some p, s2) \<Rightarrow> send_tx (pa_response_tx p) outcome (send_patch (PatchResolved i) s2))
      else s1)"

text \<open>The biased choice between the waiter and the deadline; \<open>None\<close> while neither is ready.\<close>

definition watcher_select :: "datetime \<Rightarrow> datetime \<Rightarrow> nat \<Rightarrow> approvals \<Rightarrow> approval_outcome option" where
  "watcher_select now deadline k s =
     (case waiter s k of
        Some resolved \<Rightarrow> Some resolved
      | None \<Rightarrow> if now \<ge> deadline then Some TimedOut else None)"

definition pending_infos :: "approvals \<Rightarrow> approval_info list" where
  "pending_infos s =
     map (\<lambda>(i, p). \<lparr>ai_approval_id = i, ai_tool_name = pa_tool_name p,
        ai_execution_process_id = pa_execution_process_id p, ai_is_question = pa_is_question p,
        ai_created_at = pa_created_at p, ai_timeout_at = pa_timeout_at p\<rparr>) (ap_pending s)"

definition get_pending_execution_process_ids :: "uuid list \<Rightarrow> approvals \<Rightarrow> uuid set" where
  "get_pending_execution_process_ids ids s =
     set (filter (\<lambda>ep. ep \<in> set ids) (map (pa_execution_process_id \<circ> snd) (ap_pending s)))"

section \<open>Concurrent tasks\<close>

datatype task =
    Creating approval_request bool nat
  | CreateDone approval_request bool nat
  | Responding string approval_outcome
  | RespondMissing string
  | RespondTaken string approval_outcome pending_approval
  | RespondRecorded string approval_outcome pending_approval
  | RespondSent string approval_outcome pending_approval
  | RespondDone string "nat option" "approval_error + approval_outcome \<times> tool_context"
  | Cancelling string
  | CancelTaken string pending_approval
  | CancelRecorded string pending_approval
  | CancelDone string
  | Watching string datetime nat
  | WatchDecided string approval_outcome
  | WatchRecorded string approval_outcome
  | WatchTaken string pending_approval
  | WatchPatched string pending_approval
  | WatchDone string

text \<open>
  One access of a task: the new shared state, what is left of the task, and the task it
  spawned.  A task that waits or has ended makes no step.
\<close>

fun step_task :: "datetime \<Rightarrow> task \<Rightarrow> approvals \<Rightarrow> (approvals \<times> task \<times> task list) option" where
  "step_task now (Creating request is_question k) s =
     Some (send_patch (PatchCreated (create_info request is_question)) s, CreateDone request is_question k,
       [Watching (ar_id request) (max (ar_timeout_at request) now) k])"
| "step_task now (Responding i status) s =
     (case pending_remove i s of
        (None, s1) \<Rightarrow> Some (s1, RespondMissing i, [])
      | (Some p, s1) \<Rightarrow> Some (s1, RespondTaken i status p, []))"
| "step_task now (RespondMissing i) s = Some (s, RespondDone i None (Inl (respond_missing i s)), [])"
| "step_task now (RespondTaken i status p) s =
     (case validate_approval_response status (pa_is_question p) of
        Inl e \<Rightarrow> Some (pending_insert i p s, RespondDone i None (Inl e), [])
      | Inr _ \<Rightarrow> Some (complete i status s, RespondRecorded i status p, []))"
| "step_task now (RespondRecorded i status p) s =
     Some (send_tx (pa_response_tx p) status s, RespondSent i status p, [])"
| "step_task now (RespondSent i status p) s =
     Some (send_patch (PatchResolved i) s, RespondDone i (Some (pa_response_tx p)) (Inr (status, tool_ctx p)), [])"
| "step_task now (Cancelling i) s =
     (case pending_remove i s of
        (None, s1) \<Rightarrow> Some (s1, CancelDone i, [])
      | (Some p, s1) \<Rightarrow> Some (s1, CancelTaken i p, []))"
| "step_task now (CancelTaken i p) s = Some (complete i cancelled_outcome s, CancelRecorded i p, [])"
| "step_task now (CancelRecorded i p) s =
     Some (drop_tx (pa_response_tx p) (send_patch (PatchResolved i) s), CancelDone i, [])"
| "step_task now (Watching i deadline k) s =
     (case watcher_select now deadline k s of
        None \<Rightarrow> None
      | Some outcome \<Rightarrow> Some (s, WatchDecided i outcome, []))"
| "step_task now (WatchDecided i outcome) s = Some (complete i outcome s, WatchRecorded i outcome, [])"
| "step_task now (WatchRecorded i outcome) s =
     (if outcome = TimedOut then
        (case pending_remove i s of
           (None, s1) \<Rightarrow> Some (s1, WatchDone i, [])
         | (Some p, s1) \<Rightarrow> Some (s1, WatchTaken i p, []))
      else Some (s, WatchDone i, []))"
| "step_task now (WatchTaken i p) s = Some (send_patch (PatchResolved i) s, WatchPatched i p, [])"
| "step_task now (WatchPatched i p) s = Some (send_tx (pa_response_tx p) TimedOut s, WatchDone i, [])"
| "step_task now t s = None"

inductive approvals_step :: "approvals \<times> task list \<Rightarrow> approvals \<times> task list \<Rightarrow> bool" where
  call_create: "create_insert request is_question s = (k, s1)
    \<Longrightarrow> approvals_step (s, ts) (s1, ts @ [Creating request is_question k])"
| call_respond: "approvals_step (s, ts) (s, ts @ [Responding i status])"
| call_cancel: "approvals_step (s, ts) (s, ts @ [Cancelling i])"
| advance: "step_task now t s = Some (s1, t1, spawned)
    \<Longrightarrow> approvals_step (s, us @ t # vs) (s1, us @ t1 # vs @ spawned)"

section \<open>The bridge of an executor\<close>

datatype approval_status = StatusPending | StatusApproved | StatusDenied "string option" | StatusTimedOut

datatype question_status = QuestionAnswered "question_answer list" | QuestionTimedOut

datatype executor_approval_error = RequestFailed string | BridgeCancelled

text \<open>What the two \<open>wait\<close> functions make of the outcome of their waiter.\<close>

fun wait_tool_approval :: "approval_outcome \<Rightarrow> executor_approval_error + approval_status" where
  "wait_tool_approval Approved = Inr StatusApproved"
| "wait_tool_approval (Denied reason) = Inr (StatusDenied reason)"
| "wait_tool_approval TimedOut = Inr StatusTimedOut"
| "wait_tool_approval (Answered _) = Inl (RequestFailed ''unexpected question response for permission request'')"

fun wait_question_answer :: "approval_outcome \<Rightarrow> executor_approval_error + question_status" where
  "wait_question_answer (Answered answers) = Inr (QuestionAnswered answers)"
| "wait_question_answer TimedOut = Inr QuestionTimedOut"
| "wait_question_answer Approved = Inl (RequestFailed ''unexpected permission response for question request'')"
| "wait_question_answer (Denied _) = Inl (RequestFailed ''unexpected permission response for question request'')"

section \<open>Who holds a sender\<close>

text \<open>
  The sender of an open channel is held by exactly one party: an entry of the pending map or
  a task that took such an entry.
\<close>

fun task_pending :: "task \<Rightarrow> pending_approval list" where
  "task_pending (RespondTaken i status p) = [p]"
| "task_pending (RespondRecorded i status p) = [p]"
| "task_pending (CancelTaken i p) = [p]"
| "task_pending (CancelRecorded i p) = [p]"
| "task_pending (WatchTaken i p) = [p]"
| "task_pending (WatchPatched i p) = [p]"
| "task_pending _ = []"

definition is_open :: "approvals \<Rightarrow> nat \<Rightarrow> bool" where
  "is_open s k = (k < length (ap_channels s) \<and> ap_channels s ! k = Open)"

definition fits :: "approval_outcome \<Rightarrow> bool \<Rightarrow> bool" where
  "fits outcome is_question = (validate_approval_response outcome is_question = Inr ())"

text \<open>
  With \<open>held\<close> the entries that tasks hold, and \<open>kind\<close> telling for each channel whether its
  request is a question.
\<close>

definition owned :: "approvals \<Rightarrow> pending_approval multiset \<Rightarrow> pending_approval multiset" where
  "owned s held = image_mset snd (mset (ap_pending s)) + held"

definition shared_inv :: "(nat \<Rightarrow> bool) \<Rightarrow> approvals \<Rightarrow> pending_approval multiset \<Rightarrow> bool" where
  "shared_inv kind s held =
     (distinct (map fst (ap_pending s))
      \<and> (\<forall>k. count (image_mset pa_response_tx (owned s held)) k = (if is_open s k then 1 else 0))
      \<and> (\<forall>p\<in>#owned s held. pa_is_question p = kind (pa_response_tx p))
      \<and> (\<forall>k<length (ap_channels s). \<forall>outcome. ap_channels s ! k = Sent outcome \<longrightarrow> fits outcome (kind k)))"

fun task_ok :: "(nat \<Rightarrow> bool) \<Rightarrow> approvals \<Rightarrow> task \<Rightarrow> bool" where
  "task_ok kind s (Creating request is_question k) = (k < length (ap_channels s) \<and> is_question = kind k)"
| "task_ok kind s (CreateDone request is_question k) = (k < length (ap_channels s) \<and> is_question = kind k)"
| "task_ok kind s (RespondRecorded i status p) = fits status (pa_is_question p)"
| "task_ok kind s (RespondSent i status p) =
     (pa_response_tx p < length (ap_channels s) \<and> ap_channels s ! pa_response_tx p = Sent status)"
| "task_ok kind s (RespondDone i (Some k) (Inr (outcome, _))) =
     (k < length (ap_channels s) \<and> ap_channels s ! k = Sent outcome)"
| "task_ok kind s _ = True"

definition held_by :: "task list \<Rightarrow> pending_approval multiset" where
  "held_by ts = mset (concat (map task_pending ts))"

definition system_inv :: "(nat \<Rightarrow> bool) \<Rightarrow> approvals \<times> task list \<Rightarrow> bool" where
  "system_inv kind sys =
     (shared_inv kind (fst sys) (held_by (snd sys)) \<and> (\<forall>t\<in>set (snd sys). task_ok kind (fst sys) t))"

text \<open>Channels only gain members, and one that is no longer open never changes.\<close>

definition channels_le :: "approvals \<Rightarrow> approvals \<Rightarrow> bool" where
  "channels_le s s' =
     (length (ap_channels s) \<le> length (ap_channels s')
      \<and> (\<forall>k<length (ap_channels s). ap_channels s ! k \<noteq> Open \<longrightarrow> ap_channels s' ! k = ap_channels s ! k))"

lemma channels_le_refl [simp]: "channels_le s s"
  by (simp add: channels_le_def)

lemma channels_le_trans: "channels_le s t \<Longrightarrow> channels_le t u \<Longrightarrow> channels_le s u"
  by (fastforce simp: channels_le_def)

lemma channels_le_same: "ap_channels s' = ap_channels s \<Longrightarrow> channels_le s s'"
  by (simp add: channels_le_def)

lemma task_ok_mono: "task_ok kind s t \<Longrightarrow> channels_le s s' \<Longrightarrow> task_ok kind s' t"
  by (cases "(kind, s, t)" rule: task_ok.cases) (auto simp: channels_le_def)

section \<open>Every access keeps the invariant\<close>

lemma unaffected_channels [simp]:
  "ap_channels (complete i outcome s) = ap_channels s" "ap_pending (complete i outcome s) = ap_pending s"
  "ap_channels (send_patch patch s) = ap_channels s" "ap_pending (send_patch patch s) = ap_pending s"
  by (simp_all add: complete_def send_patch_def)

lemma shared_inv_cong:
  "ap_channels s' = ap_channels s \<Longrightarrow> ap_pending s' = ap_pending s \<Longrightarrow> shared_inv kind s' held = shared_inv kind s held"
  by (simp add: shared_inv_def is_open_def owned_def)

lemma shared_inv_unaffected [simp]:
  "shared_inv kind (complete i outcome s) held = shared_inv kind s held"
  "shared_inv kind (send_patch patch s) held = shared_inv kind s held"
  by (rule shared_inv_cong; simp)+

lemma owned_add [simp]: "owned s (add_mset p held) = add_mset p (owned s held)"
  by (simp add: owned_def)

lemma owned_channels [simp]: "owned (s\<lparr>ap_channels := cs\<rparr>) held = owned s held"
  by (simp add: owned_def)

lemma mset_remove_key:
  "distinct (map fst xs) \<Longrightarrow> map_of xs i = Some p
    \<Longrightarrow> image_mset snd (mset xs) = add_mset p (image_mset snd (mset (filter (\<lambda>e. fst e \<noteq> i) xs)))"
proof (induction xs)
  case (Cons x xs)
  show ?case
  proof (cases "fst x = i")
    case True
    then have "i \<notin> fst ` set xs" using Cons.prems(1) by simp
    then have "filter (\<lambda>e. fst e \<noteq> i) xs = xs" by (metis (mono_tags, lifting) filter_True image_eqI)
    with True Cons.prems show ?thesis by (cases x) (simp del: mset_filter)
  next
    case False
    then show ?thesis using Cons by (cases x) (simp del: mset_filter)
  qed
qed simp

lemma pending_remove_None: "pending_remove i s = (None, s') \<Longrightarrow> s' = s \<and> i \<notin> fst ` set (ap_pending s)"
proof -
  assume r: "pending_remove i s = (None, s')"
  then have "i \<notin> fst ` set (ap_pending s)" by (auto simp: pending_remove_def map_of_eq_None_iff)
  moreover from this have "filter (\<lambda>e. fst e \<noteq> i) (ap_pending s) = ap_pending s"
    by (auto simp: filter_id_conv)
  ultimately show "s' = s \<and> i \<notin> fst ` set (ap_pending s)" using r by (simp add: pending_remove_def)
qed

lemma pending_remove_Some:
  assumes "pending_remove i s = (Some p, s')" and inv: "shared_inv kind s held"
  shows "shared_inv kind s' (add_mset p held) \<and> ap_channels s' = ap_channels s \<and> i \<notin> fst ` set (ap_pending s')"
proof -
  have s': "ap_pending s' = filter (\<lambda>e. fst e \<noteq> i) (ap_pending s)" "ap_channels s' = ap_channels s"
      "map_of (ap_pending s) i = Some p"
    using assms(1) by (auto simp: pending_remove_def)
  have d: "distinct (map fst (ap_pending s))" using inv by (simp add: shared_inv_def)
  have "owned s' (add_mset p held) = owned s held"
    using mset_remove_key [OF d s'(3)] s'(1) by (simp add: owned_def del: mset_filter)
  moreover have "distinct (map fst (ap_pending s'))" using d s' by (simp add: distinct_map_filter)
  ultimately show ?thesis
    using inv s'(1,2) unfolding shared_inv_def is_open_def by auto
qed

lemma held_open:
  assumes "shared_inv kind s (add_mset p held)"
  shows "is_open s (pa_response_tx p) \<and> pa_is_question p = kind (pa_response_tx p)"
proof -
  have "count (image_mset pa_response_tx (owned s (add_mset p held))) (pa_response_tx p)
      = (if is_open s (pa_response_tx p) then 1 else 0)"
    using assms unfolding shared_inv_def by blast
  then show ?thesis using assms by (auto simp: shared_inv_def split: if_splits)
qed

text \<open>The holder of a sender closes its channel, by sending or by dropping.\<close>

lemma close_channel:
  assumes inv: "shared_inv kind s (add_mset p held)" and c: "c \<noteq> Open"
    and fits: "\<And>outcome. c = Sent outcome \<Longrightarrow> fits outcome (kind (pa_response_tx p))"
    and s': "s' = s\<lparr>ap_channels := (ap_channels s)[pa_response_tx p := c]\<rparr>"
  shows "shared_inv kind s' held \<and> channels_le s s'
    \<and> pa_response_tx p < length (ap_channels s') \<and> ap_channels s' ! pa_response_tx p = c"
proof -
  let ?k = "pa_response_tx p"
  have k: "?k < length (ap_channels s)" "ap_channels s ! ?k = Open" using held_open [OF inv] by (auto simp: is_open_def)
  have cnt: "count (image_mset pa_response_tx (owned s (add_mset p held))) j
      = (if is_open s j then 1 else 0)" for j
    using inv by (simp only: shared_inv_def)
  have "count (image_mset pa_response_tx (owned s' held)) j = (if is_open s' j then 1 else 0)" for j
    using cnt [of j] k c by (cases "j = ?k") (auto simp: is_open_def s' nth_list_update split: if_splits)
  moreover have "fits outcome (kind j)" if "j < length (ap_channels s')" "ap_channels s' ! j = Sent outcome" for j outcome
    using that inv fits k by (cases "j = ?k") (auto simp: shared_inv_def s')
  ultimately show ?thesis
    using inv k c by (auto simp: shared_inv_def s' channels_le_def nth_list_update)
qed

lemma send_tx_inv:
  assumes "shared_inv kind s (add_mset p held)" and "fits outcome (pa_is_question p)"
  shows "shared_inv kind (send_tx (pa_response_tx p) outcome s) held \<and> channels_le s (send_tx (pa_response_tx p) outcome s)
    \<and> pa_response_tx p < length (ap_channels (send_tx (pa_response_tx p) outcome s))
    \<and> ap_channels (send_tx (pa_response_tx p) outcome s) ! pa_response_tx p = Sent outcome"
  using assms held_open [OF assms(1)]
  by (intro close_channel) (auto simp: send_tx_def is_open_def)

lemma drop_tx_inv:
  assumes "shared_inv kind s (add_mset p held)"
  shows "shared_inv kind (drop_tx (pa_response_tx p) s) held \<and> channels_le s (drop_tx (pa_response_tx p) s)"
  using close_channel [OF assms, of Dropped "drop_tx (pa_response_tx p) s"] held_open [OF assms]
  by (auto simp: drop_tx_def is_open_def)

lemma append_pending_inv:
  "shared_inv kind s (add_mset p held) \<Longrightarrow> i \<notin> fst ` set (ap_pending s)
    \<Longrightarrow> shared_inv kind (s\<lparr>ap_pending := ap_pending s @ [(i, p)]\<rparr>) held"
  by (simp add: shared_inv_def is_open_def owned_def)

lemma pending_insert_inv:
  assumes inv: "shared_inv kind s (add_mset p held)"
  shows "shared_inv kind (pending_insert i p s) held \<and> channels_le s (pending_insert i p s)"
proof (cases "pending_remove i s")
  case (Pair found s1)
  show ?thesis
  proof (cases found)
    case None
    then have "s1 = s" "i \<notin> fst ` set (ap_pending s)" using Pair pending_remove_None by auto
    then show ?thesis
      using Pair None append_pending_inv [OF inv] by (simp add: pending_insert_def channels_le_def)
  next
    case (Some old)
    let ?s2 = "s1\<lparr>ap_pending := ap_pending s1 @ [(i, p)]\<rparr>"
    from Some Pair pending_remove_Some inv have s1: "shared_inv kind s1 (add_mset p (add_mset old held))"
        "ap_channels s1 = ap_channels s" "i \<notin> fst ` set (ap_pending s1)"
      by (metis add_mset_commute)+
    from drop_tx_inv [OF append_pending_inv [OF s1(1,3)]] s1(2) Pair Some show ?thesis
      by (simp add: pending_insert_def channels_le_def)
  qed
qed

lemma step_task_inv:
  assumes step: "step_task now t s = Some (s', t', spawned)" and inv: "shared_inv kind s (mset (task_pending t) + held)"
    and ok: "task_ok kind s t"
  shows "shared_inv kind s' (mset (task_pending t') + held) \<and> channels_le s s' \<and> task_ok kind s' t'
    \<and> (\<forall>u\<in>set spawned. task_pending u = [] \<and> task_ok kind s' u)"
proof -
  note remove = pending_remove_Some [OF _ inv]
  show ?thesis
  proof (cases t)
    case (RespondTaken i status p)
    then show ?thesis
      using step inv pending_insert_inv [of kind s p held i]
      by (auto simp: fits_def channels_le_def split: sum.splits)
  next
    case (RespondRecorded i status p)
    then show ?thesis using step inv ok send_tx_inv [of kind s p held status] by auto
  next
    case (CancelRecorded i p)
    then show ?thesis
      using step inv drop_tx_inv [of kind "send_patch (PatchResolved i) s" p held] by (auto simp: channels_le_def)
  next
    case (WatchPatched i p)
    then show ?thesis using step inv send_tx_inv [of kind s p held TimedOut] by (auto simp: fits_def)
  qed (use step inv ok remove in \<open>auto simp: channels_le_def dest!: pending_remove_None split: prod.splits option.splits if_splits\<close>)
qed

lemma held_by_simps [simp]:
  "held_by [] = {#}" "held_by (t # ts) = mset (task_pending t) + held_by ts"
  "held_by (ts @ us) = held_by ts + held_by us"
  by (simp_all add: held_by_def)

lemma held_by_none: "\<forall>u\<in>set us. task_pending u = [] \<Longrightarrow> held_by us = {#}"
  by (induction us) simp_all

lemma advance_inv:
  assumes inv: "system_inv kind (s, us @ t # vs)" and step: "step_task now t s = Some (s', t', spawned)"
  shows "system_inv kind (s', us @ t' # vs @ spawned) \<and> channels_le s s'"
proof -
  have "shared_inv kind s (mset (task_pending t) + (held_by us + held_by vs))" and "task_ok kind s t"
    using inv by (simp_all add: system_inv_def ac_simps)
  from step_task_inv [OF step this] inv show ?thesis
    by (auto simp: system_inv_def held_by_none ac_simps intro: task_ok_mono)
qed

lemma task_ok_kind: "task_ok kind s t \<Longrightarrow> \<forall>k<length (ap_channels s). kind' k = kind k \<Longrightarrow> task_ok kind' s t"
  by (cases "(kind, s, t)" rule: task_ok.cases) auto

text \<open>A request opens a channel of its kind.\<close>

lemma create_inv:
  assumes inv: "system_inv kind (s, ts)" and c: "create_insert request is_question s = (k, s1)"
  shows "system_inv (kind(k := is_question)) (s1, ts @ [Creating request is_question k]) \<and> channels_le s s1"
proof -
  let ?kind = "kind(k := is_question)" and ?s0 = "s\<lparr>ap_channels := ap_channels s @ [Open]\<rparr>"
  define p where "p = \<lparr>pa_execution_process_id = ar_execution_process_id request, pa_tool_name = ar_tool_name request,
    pa_is_question = is_question, pa_created_at = ar_created_at request,
    pa_timeout_at = ar_timeout_at request, pa_response_tx = k\<rparr>"
  have k: "k = length (ap_channels s)" "s1 = pending_insert (ar_id request) p ?s0"
    using c by (auto simp: create_insert_def p_def Let_def)
  have old: "is_open s (pa_response_tx q)" if "q \<in># owned s (held_by ts)" for q
  proof -
    have "pa_response_tx q \<in># image_mset pa_response_tx (owned s (held_by ts))" using that by simp
    then have "count (image_mset pa_response_tx (owned s (held_by ts))) (pa_response_tx q) \<noteq> 0"
      by (metis count_eq_zero_iff)
    then show ?thesis using inv by (auto simp: system_inv_def shared_inv_def split: if_splits)
  qed
  have opened: "is_open ?s0 j \<longleftrightarrow> is_open s j \<or> j = k" for j
    by (auto simp: is_open_def k nth_append)
  have "shared_inv ?kind ?s0 (add_mset p (held_by ts))"
    using inv old opened k(1)
    by (fastforce simp: shared_inv_def system_inv_def p_def is_open_def nth_append)
  from pending_insert_inv [OF this] have p1: "shared_inv ?kind s1 (held_by ts)" "channels_le ?s0 s1"
    by (simp_all add: k)
  have "channels_le s ?s0" by (simp add: channels_le_def nth_append)
  then have le: "channels_le s s1" using p1(2) channels_le_trans by blast
  have "task_ok ?kind s1 t" if "t \<in> set ts" for t
    using that inv k(1) task_ok_mono [OF task_ok_kind [of kind s t ?kind] le] by (simp add: system_inv_def)
  moreover have "k < length (ap_channels s1)" using p1(2) k(1) by (simp add: channels_le_def)
  ultimately show ?thesis using p1(1) le by (simp add: system_inv_def)
qed

lemma approvals_step_inv:
  "approvals_step sys sys' \<Longrightarrow> system_inv kind sys
    \<Longrightarrow> \<exists>kind'. (\<forall>k<length (ap_channels (fst sys)). kind' k = kind k) \<and> system_inv kind' sys' \<and> channels_le (fst sys) (fst sys')"
proof (induction rule: approvals_step.induct)
  case (call_create request is_question s k s1 ts)
  then have "k = length (ap_channels s)" by (auto simp: create_insert_def Let_def)
  then have "\<forall>j<length (ap_channels s). (kind(k := is_question)) j = kind j" by simp
  with create_inv [OF call_create(2,1)] show ?case unfolding fst_conv by blast
next
  case (call_respond s ts i status)
  then show ?case by (intro exI [of _ kind]) (simp add: system_inv_def)
next
  case (call_cancel s ts i)
  then show ?case by (intro exI [of _ kind]) (simp add: system_inv_def)
next
  case (advance now t s s1 t1 spawned us vs)
  then show ?case using advance_inv by (intro exI [of _ kind]) auto
qed

interpretation approvals_machine: monotone_system approvals_step "\<lambda>sys. \<exists>kind. system_inv kind sys"
  "\<lambda>sys sys'. channels_le (fst sys) (fst sys')"
proof
  show "\<exists>kind. system_inv kind t" if "\<exists>kind. system_inv kind s" "approvals_step s t" for s t
    using that approvals_step_inv by blast
  show "channels_le (fst s) (fst t)" if "\<exists>kind. system_inv kind s" "approvals_step s t" for s t
    using that approvals_step_inv by blast
qed (auto intro: channels_le_trans)

lemma system_inv_new: "system_inv kind (approvals_new, [])"
  by (simp add: system_inv_def shared_inv_def owned_def approvals_new_def is_open_def)

lemma approvals_reached: "approvals_step\<^sup>*\<^sup>* (approvals_new, []) sys \<Longrightarrow> \<exists>kind. system_inv kind sys"
  using approvals_machine.reach_inv system_inv_new by blast

section \<open>Responses reach their waiter\<close>

text \<open>
  C9.  However responses, cancellations and timeouts of any number of requests interleave: a
  response that was accepted is the outcome of the waiter of that very request, now and in
  every later state.  No timeout and no second response can take its place.
\<close>

theorem accepted_response_delivered:
  assumes "approvals_step\<^sup>*\<^sup>* (approvals_new, []) (s, ts)" and "RespondDone i (Some k) (Inr (outcome, ctx)) \<in> set ts"
    and "approvals_step\<^sup>*\<^sup>* (s, ts) (s', ts')"
  shows "waiter s' k = Some outcome"
proof -
  obtain kind where inv: "system_inv kind (s, ts)" using approvals_reached [OF assms(1)] by blast
  with assms(2) have "k < length (ap_channels s) \<and> ap_channels s ! k = Sent outcome"
    by (auto simp: system_inv_def)
  moreover have "channels_le s s'"
    using approvals_machine.reach_le [OF assms(3)] inv by auto
  ultimately show ?thesis by (auto simp: channels_le_def waiter_def)
qed

text \<open>
  The error branches of the bridge for an outcome of the wrong kind are never taken: in
  every reachable state a permission request that is resolved ends approved, denied or timed
  out, and a question that is resolved ends answered or timed out.
\<close>

theorem bridge_outcome_kind:
  assumes "approvals_step\<^sup>*\<^sup>* (approvals_new, []) (s, ts)" and "CreateDone request is_question k \<in> set ts"
    and "waiter s k = Some outcome"
  shows "if is_question then \<exists>status. wait_question_answer outcome = Inr status
    else \<exists>status. wait_tool_approval outcome = Inr status"
proof -
  obtain kind where inv: "system_inv kind (s, ts)" using approvals_reached [OF assms(1)] by blast
  with assms(2) have k: "k < length (ap_channels s)" "is_question = kind k" by (auto simp: system_inv_def)
  have "fits outcome is_question"
    using inv k assms(3)
    by (auto simp: system_inv_def shared_inv_def waiter_def fits_def split: channel.splits)
  then show ?thesis by (cases outcome) (auto simp: fits_def split: if_splits)
qed

section \<open>Two schedules\<close>

text \<open>Running a task, one access after the other, while nothing else runs.\<close>

fun run_task :: "nat \<Rightarrow> datetime \<Rightarrow> task \<Rightarrow> approvals \<Rightarrow> approvals \<times> task" where
  "run_task 0 now t s = (s, t)"
| "run_task (Suc n) now t s =
     (case step_task now t s of None \<Rightarrow> (s, t) | Some (s1, t1, _) \<Rightarrow> run_task n now t1 s1)"

lemma respond_run: "\<exists>k. run_task 5 now (Responding i status) s = (snd (respond i status s), RespondDone i k (fst (respond i status s)))"
  by (auto simp: numeral_eq_Suc respond_def Let_def split: prod.splits option.splits sum.splits)

lemma cancel_run: "run_task 5 now (Cancelling i) s = (cancel i s, CancelDone i)"
  by (auto simp: numeral_eq_Suc cancel_def split: prod.splits option.splits)

lemma watch_run: "run_task 5 now (WatchDecided i outcome) s = (watcher_finish i outcome s, WatchDone i)"
  by (auto simp: numeral_eq_Suc watcher_finish_def Let_def split: prod.splits option.splits)

definition demo_request :: approval_request where
  "demo_request = request_new ''r1'' 0 ''Bash'' 7"

definition demo_pending :: pending_approval where
  "demo_pending = \<lparr>pa_execution_process_id = 7, pa_tool_name = ''Bash'', pa_is_question = False,
     pa_created_at = 0, pa_timeout_at = 36000, pa_response_tx = 0\<rparr>"

definition demo_created :: approvals where
  "demo_created = \<lparr>ap_pending = [(''r1'', demo_pending)], ap_completed = Map.empty,
     ap_patches = [PatchCreated (create_info demo_request False)], ap_channels = [Open]\<rparr>"

lemma demo_create_steps:
  "approvals_step\<^sup>*\<^sup>* (approvals_new, []) (demo_created, [CreateDone demo_request False 0, Watching ''r1'' 36000 0])"
proof -
  let ?s = "\<lparr>ap_pending = [(''r1'', demo_pending)], ap_completed = Map.empty, ap_patches = [], ap_channels = [Open]\<rparr>"
  have "approvals_step (approvals_new, []) (?s, [] @ [Creating demo_request False 0])"
    by (rule call_create) (simp add: create_insert_def pending_insert_def pending_remove_def approvals_new_def
        demo_request_def demo_pending_def request_new_def APPROVAL_TIMEOUT_SECONDS_def)
  moreover have "approvals_step (?s, [] @ Creating demo_request False 0 # [])
      (demo_created, [] @ CreateDone demo_request False 0 # [] @ [Watching ''r1'' 36000 0])"
    by (rule advance [of 0]) (simp add: demo_created_def send_patch_def demo_request_def request_new_def APPROVAL_TIMEOUT_SECONDS_def)
  ultimately show ?thesis by simp
qed

lemma reach_advance:
  assumes "approvals_step\<^sup>*\<^sup>* sys (s, ts)" and "j < length ts" and "step_task now (ts ! j) s = Some (s', t', [])"
    and "us = ts[j := t']"
  shows "approvals_step\<^sup>*\<^sup>* sys (s', us)"
proof -
  have "approvals_step (s, take j ts @ ts ! j # drop (Suc j) ts) (s', take j ts @ t' # drop (Suc j) ts @ [])"
    by (rule advance) (rule assms(3))
  then have "approvals_step (s, ts) (s', us)"
    using assms(2,4) by (simp add: id_take_nth_drop [symmetric] upd_conv_take_nth_drop)
  with assms(1) show ?thesis by (rule rtranclp.rtrancl_into_rtrancl)
qed

lemma demo_respond_steps:
  "\<exists>s. approvals_step\<^sup>*\<^sup>* (approvals_new, []) (s, [CreateDone demo_request False 0, Watching ''r1'' 36000 0,
    RespondDone ''r1'' (Some 0) (Inr (Approved, tool_ctx demo_pending))])"
proof -
  let ?ts = "\<lambda>t. [CreateDone demo_request False 0, Watching ''r1'' 36000 0, t]"
  let ?reach = "\<lambda>s t. approvals_step\<^sup>*\<^sup>* (approvals_new, []) (s, ?ts t)"
  let ?gone = "complete ''r1'' Approved (demo_created\<lparr>ap_pending := []\<rparr>)"
  have "?reach demo_created (Responding ''r1'' Approved)"
    using rtranclp.rtrancl_into_rtrancl [OF demo_create_steps call_respond] by simp
  then have "?reach (demo_created\<lparr>ap_pending := []\<rparr>) (RespondTaken ''r1'' Approved demo_pending)"
    by (rule reach_advance [of _ _ _ 2 0]) (simp_all add: pending_remove_def demo_created_def)
  then have "?reach ?gone (RespondRecorded ''r1'' Approved demo_pending)"
    by (rule reach_advance [of _ _ _ 2 0]) (simp_all add: demo_pending_def)
  then have "?reach (send_tx 0 Approved ?gone) (RespondSent ''r1'' Approved demo_pending)"
    by (rule reach_advance [of _ _ _ 2 0]) (simp_all add: demo_pending_def)
  then have "?reach (send_patch (PatchResolved ''r1'') (send_tx 0 Approved ?gone))
      (RespondDone ''r1'' (Some 0) (Inr (Approved, tool_ctx demo_pending)))"
    by (rule reach_advance [of _ _ _ 2 0]) (simp_all add: demo_pending_def)
  then show ?thesis by blast
qed

theorem accepted_response_delivered_witness:
  "\<exists>s ts. approvals_step\<^sup>*\<^sup>* (approvals_new, []) (s, ts) \<and> waiter s 0 = Some Approved"
proof -
  obtain s where r: "approvals_step\<^sup>*\<^sup>* (approvals_new, []) (s, [CreateDone demo_request False 0, Watching ''r1'' 36000 0,
      RespondDone ''r1'' (Some 0) (Inr (Approved, tool_ctx demo_pending))])"
    using demo_respond_steps by blast
  from accepted_response_delivered [OF r _ rtranclp.rtrancl_refl] have "waiter s 0 = Some Approved" by simp
  with r show ?thesis by blast
qed

theorem bridge_outcome_kind_witness:
  "\<exists>s ts outcome. approvals_step\<^sup>*\<^sup>* (approvals_new, []) (s, ts) \<and> CreateDone demo_request False 0 \<in> set ts
     \<and> waiter s 0 = Some outcome \<and> (\<exists>status. wait_tool_approval outcome = Inr status)"
proof -
  obtain s ts where r: "approvals_step\<^sup>*\<^sup>* (approvals_new, []) (s, ts)" "CreateDone demo_request False 0 \<in> set ts"
      "RespondDone ''r1'' (Some 0) (Inr (Approved, tool_ctx demo_pending)) \<in> set ts"
    using demo_respond_steps by fastforce
  obtain kind where "system_inv kind (s, ts)" using approvals_reached [OF r(1)] by blast
  with r(3) have "waiter s 0 = Some Approved" by (auto simp: system_inv_def waiter_def)
  with bridge_outcome_kind [OF r(1,2)] r show ?thesis by fastforce
qed


section \<open>Cancelled requests\<close>

text \<open>
  What a cancellation leaves behind: the caller of \<open>cancel\<close> records the denial
  \<open>Cancelled\<close>, but it drops the sender, so the waiter resolves as timed out, and the watcher of
  the request, which then wakes up, replaces the recorded denial by a timeout.
\<close>

theorem cancel_recorded_as_timeout:
  assumes "approvals_step\<^sup>*\<^sup>* (approvals_new, []) (s, ts)" and "map_of (ap_pending s) i = Some p"
  shows "ap_completed (cancel i s) i = Some (Denied (Some ''Cancelled''))
    \<and> waiter (cancel i s) (pa_response_tx p) = Some TimedOut
    \<and> watcher_select now deadline (pa_response_tx p) (cancel i s) = Some TimedOut
    \<and> ap_completed (watcher_finish i TimedOut (cancel i s)) i = Some TimedOut"
proof -
  obtain kind where inv: "system_inv kind (s, ts)" using approvals_reached [OF assms(1)] by blast
  obtain s1 where r: "pending_remove i s = (Some p, s1)" using assms(2) by (simp add: pending_remove_def)
  have open_tx: "is_open s1 (pa_response_tx p)"
    using inv pending_remove_Some [OF r, of kind "held_by ts"] held_open by (fastforce simp: system_inv_def)
  have c: "ap_completed (cancel i s) i = Some cancelled_outcome" "waiter (cancel i s) (pa_response_tx p) = Some TimedOut"
    using r open_tx by (simp_all add: cancel_def drop_tx_def is_open_def complete_def send_patch_def waiter_def)
  have "ap_completed (watcher_finish i TimedOut u) i = Some TimedOut" for u
    by (auto simp: watcher_finish_def complete_def send_tx_def send_patch_def pending_remove_def Let_def split: option.splits)
  with c show ?thesis by (simp add: cancelled_outcome_def watcher_select_def)
qed

theorem cancel_recorded_as_timeout_witness:
  "waiter (cancel ''r1'' demo_created) 0 = Some TimedOut
    \<and> ap_completed (watcher_finish ''r1'' TimedOut (cancel ''r1'' demo_created)) ''r1'' = Some TimedOut"
  using cancel_recorded_as_timeout [OF demo_create_steps, of "''r1''" demo_pending]
  by (simp add: demo_created_def demo_pending_def)

end
