(* ===== verification/PaneBinding.thy ===== *)
theory PaneBinding
  imports Sessions
begin

text \<open>
  Which terminal pane runs which session: the pane bindings
  (\<^verbatim>\<open>crates/db/src/models/cli_pane_binding.rs\<close>), and the two tables that tell the native session
  of an agent, the turns of the executors (\<^verbatim>\<open>coding_agent_turn.rs\<close>) and the links made from
  transcripts (\<^verbatim>\<open>claude_session_link.rs\<close>).
\<close>

section \<open>Turns and links\<close>

record coding_agent_turn =
  ct_id :: uuid
  ct_execution_process_id :: uuid
  ct_agent_session_id :: "string option"
  ct_agent_message_id :: "string option"
  ct_prompt :: "string option"
  ct_created_at :: datetime

record coding_agent_resume_info =
  ri_session_id :: string
  ri_message_id :: "string option"

text \<open>The join of executions and turns, newest execution first.\<close>

definition find_latest_session_info ::
  "coding_agent_turn list \<Rightarrow> execution_process list \<Rightarrow> uuid \<Rightarrow> coding_agent_resume_info option" where
  "find_latest_session_info turns eps sid =
     map_option (\<lambda>(ep, t). \<lparr>ri_session_id = the (ct_agent_session_id t), ri_message_id = ct_agent_message_id t\<rparr>)
       (limit_one (order_by_desc (\<lambda>(ep, t). ep_created_at ep)
         (filter (\<lambda>(ep, t). ep_id ep = ct_execution_process_id t \<and> ep_session_id ep = sid
              \<and> ep_run_reason ep = CodingAgent \<and> \<not> ep_dropped ep \<and> ct_agent_session_id t \<noteq> None)
            (List.product eps turns))))"

datatype claude_session_bound_via = ViaExecutor | ViaCliResume | ViaCliFresh | ViaManual

record claude_session_link =
  lk_claude_session_id :: string
  lk_session_id :: uuid
  lk_workspace_id :: uuid
  lk_cwd :: string
  lk_bound_via :: claude_session_bound_via
  lk_created_at :: datetime
  lk_foreign_writer_seen_at :: "datetime option"

type_synonym link_table = "claude_session_link list"

definition find_link :: "link_table \<Rightarrow> string \<Rightarrow> claude_session_link option" where
  "find_link links csid = select_one (\<lambda>l. lk_claude_session_id l = csid) links"

definition find_latest_for_session :: "link_table \<Rightarrow> uuid \<Rightarrow> claude_session_link option" where
  "find_latest_for_session links sid =
     limit_one (order_by_desc lk_created_at (filter (\<lambda>l. lk_session_id l = sid) links))"

section \<open>Pane bindings\<close>

datatype cli_pane_bound_via = CliResume | CliFresh

record cli_pane_binding =
  pb_id :: uuid
  pb_workspace_id :: uuid
  pb_session_id :: uuid
  pb_claude_session_id :: "string option"
  pb_bound_via :: cli_pane_bound_via
  pb_created_at :: datetime
  pb_released_at :: "datetime option"

type_synonym binding_table = "cli_pane_binding list"

definition pb_active :: "cli_pane_binding \<Rightarrow> bool" where
  "pb_active b = (pb_released_at b = None)"

definition release_set :: "datetime \<Rightarrow> cli_pane_binding \<Rightarrow> cli_pane_binding" where
  "release_set now b = b\<lparr>pb_released_at := Some now\<rparr>"

text \<open>The insertion fails on a used identifier or a second active binding of the workspace.\<close>

definition insert_binding :: "binding_table \<Rightarrow> cli_pane_binding \<Rightarrow> db_error + binding_table" where
  "insert_binding bs b =
     (if \<exists>c\<in>set bs. pb_id c = pb_id b then Inl DbError
      else if pb_active b \<and> (\<exists>c\<in>set bs. pb_active c \<and> pb_workspace_id c = pb_workspace_id b) then Inl DbError
      else Inr (bs @ [b]))"

definition find_binding :: "binding_table \<Rightarrow> uuid \<Rightarrow> cli_pane_binding option" where
  "find_binding bs i = select_one (\<lambda>b. pb_id b = i) bs"

definition record_launch ::
  "binding_table \<Rightarrow> uuid \<Rightarrow> datetime \<Rightarrow> uuid \<Rightarrow> uuid \<Rightarrow> string option \<Rightarrow> cli_pane_bound_via
     \<Rightarrow> db_error + (cli_pane_binding \<times> binding_table)" where
  "record_launch bs fresh now w sid csid via =
     (let bs1 = update_where (\<lambda>b. pb_workspace_id b = w \<and> pb_active b) (release_set now) bs
      in case insert_binding bs1 \<lparr>pb_id = fresh, pb_workspace_id = w, pb_session_id = sid,
             pb_claude_session_id = csid, pb_bound_via = via, pb_created_at = now, pb_released_at = None\<rparr> of
           Inl e \<Rightarrow> Inl e
         | Inr bs2 \<Rightarrow> (case find_binding bs2 fresh of None \<Rightarrow> Inl DbError | Some b \<Rightarrow> Inr (b, bs2)))"

definition find_active_for_workspace :: "binding_table \<Rightarrow> uuid \<Rightarrow> cli_pane_binding option" where
  "find_active_for_workspace bs w = select_one (\<lambda>b. pb_workspace_id b = w \<and> pb_active b) bs"

definition find_active_for_session :: "binding_table \<Rightarrow> uuid \<Rightarrow> cli_pane_binding option" where
  "find_active_for_session bs sid = select_one (\<lambda>b. pb_session_id b = sid \<and> pb_active b) bs"

definition list_active_bindings :: "binding_table \<Rightarrow> binding_table" where
  "list_active_bindings bs = order_by pb_created_at (filter pb_active bs)"

definition latest_pane_session_id :: "binding_table \<Rightarrow> execution_process list \<Rightarrow> uuid \<Rightarrow> string option" where
  "latest_pane_session_id bs eps sid =
     (case limit_one (order_by_desc pb_created_at (rev (filter (\<lambda>b. pb_session_id b = sid \<and> pb_claude_session_id b \<noteq> None
          \<and> \<not> (\<exists>ep\<in>set eps. ep_session_id ep = sid \<and> ep_run_reason ep = CodingAgent \<and> \<not> ep_dropped ep
                \<and> ep_created_at ep > pb_created_at b)) bs))) of
        None \<Rightarrow> None
      | Some b \<Rightarrow> pb_claude_session_id b)"

definition resume_session_id ::
  "binding_table \<Rightarrow> coding_agent_turn list \<Rightarrow> link_table \<Rightarrow> execution_process list \<Rightarrow> uuid \<Rightarrow> string option" where
  "resume_session_id bs turns links eps sid =
     (case latest_pane_session_id bs eps sid of
        Some csid \<Rightarrow> Some csid
      | None \<Rightarrow>
          (case find_latest_session_info turns eps sid of
             Some info \<Rightarrow> Some (ri_session_id info)
           | None \<Rightarrow> map_option lk_claude_session_id (find_latest_for_session links sid)))"

definition unbound_fresh :: "uuid \<Rightarrow> cli_pane_binding \<Rightarrow> bool" where
  "unbound_fresh i b = (pb_id b = i \<and> pb_active b \<and> pb_bound_via b = CliFresh \<and> pb_claude_session_id b = None)"

definition bind_discovered_sid :: "binding_table \<Rightarrow> uuid \<Rightarrow> string \<Rightarrow> bool \<times> binding_table" where
  "bind_discovered_sid bs i csid =
     (0 < rows_affected (unbound_fresh i) bs,
      update_where (unbound_fresh i) (\<lambda>b. b\<lparr>pb_claude_session_id := Some csid\<rparr>) bs)"

definition release_binding :: "binding_table \<Rightarrow> datetime \<Rightarrow> uuid \<Rightarrow> bool \<times> binding_table" where
  "release_binding bs now i =
     (let p = (\<lambda>b. pb_id b = i \<and> pb_active b)
      in (0 < rows_affected p bs, update_where p (release_set now) bs))"

section \<open>One pane per workspace\<close>

definition binding_inv :: "binding_table \<Rightarrow> bool" where
  "binding_inv bs = (distinct (map pb_id bs) \<and> distinct (map pb_workspace_id (filter pb_active bs)))"

text \<open>A statement that keeps identity and workspace of a binding and activates none.\<close>

locale binding_statement =
  fixes p :: "cli_pane_binding \<Rightarrow> bool" and f :: "cli_pane_binding \<Rightarrow> cli_pane_binding"
  assumes keeps_binding_id: "pb_id (f b) = pb_id b"
    and keeps_workspace: "pb_workspace_id (f b) = pb_workspace_id b"
    and activates_none: "p b \<Longrightarrow> pb_active (f b) \<Longrightarrow> pb_active b"
begin

lemma active_workspaces:
  "set (map pb_workspace_id (filter pb_active (update_where p f bs))) \<subseteq> set (map pb_workspace_id (filter pb_active bs))"
  using activates_none keeps_workspace by (fastforce simp: update_where_def)

lemma keeps_binding_inv: "binding_inv bs \<Longrightarrow> binding_inv (update_where p f bs)"
proof -
  have "distinct (map pb_workspace_id (filter pb_active bs))
      \<Longrightarrow> distinct (map pb_workspace_id (filter pb_active (update_where p f bs)))" for bs
  proof (induction bs)
    case (Cons b bs)
    with active_workspaces [of bs] show ?case
      by (auto simp: update_where_def keeps_workspace activates_none split: if_splits)
  qed (simp add: update_where_def)
  then show "binding_inv bs \<Longrightarrow> binding_inv (update_where p f bs)"
    by (simp add: binding_inv_def map_key_update_where keeps_binding_id)
qed

end

interpretation release_workspace_stmt: binding_statement "\<lambda>b. pb_workspace_id b = w \<and> pb_active b" "release_set now" for w now
  by unfold_locales (simp_all add: release_set_def pb_active_def)

interpretation release_one_stmt: binding_statement "\<lambda>b. pb_id b = i \<and> pb_active b" "release_set now" for i now
  by unfold_locales (simp_all add: release_set_def pb_active_def)

interpretation discover_stmt: binding_statement "unbound_fresh i" "\<lambda>b. b\<lparr>pb_claude_session_id := Some csid\<rparr>" for i csid
  by unfold_locales (simp_all add: pb_active_def)

lemma insert_binding_inv: "insert_binding bs b = Inr bs' \<Longrightarrow> binding_inv bs \<Longrightarrow> binding_inv bs'"
  by (fastforce simp: insert_binding_def binding_inv_def split: if_splits)

lemma record_launch_inv: "record_launch bs fresh now w sid csid via = Inr (b, bs') \<Longrightarrow> binding_inv bs \<Longrightarrow> binding_inv bs'"
  by (auto simp: record_launch_def Let_def split: sum.splits option.splits
      intro: insert_binding_inv release_workspace_stmt.keeps_binding_inv)

lemma release_binding_inv: "binding_inv bs \<Longrightarrow> binding_inv (snd (release_binding bs now i))"
  by (simp add: release_binding_def Let_def release_one_stmt.keeps_binding_inv)

lemma bind_discovered_inv: "binding_inv bs \<Longrightarrow> binding_inv (snd (bind_discovered_sid bs i csid))"
  by (simp add: bind_discovered_sid_def discover_stmt.keeps_binding_inv)

end
