(* ===== verification/CollabModel.thy ===== *)
theory CollabModel
  imports QueuedMessage SpawnReservation PaneBinding
begin

text \<open>
  The collaboration service (\<^verbatim>\<open>crates/services/src/services/cli_collab.rs\<close>): it decides, for each
  message to a session, whether the executor or the terminal pane may write, and starts the
  executor, pastes into the pane or keeps the message in the queue.  The service runs one
  operation at a time for a session (its session lock).
\<close>

section \<open>Evidence and leases\<close>

datatype sid_evidence = ConfirmedResume string | NoResumeArg | Ambiguous | UnknownSid

record probe_report =
  pr_pane_session_exists :: bool
  pr_agent_running :: "bool option"
  pr_agent_program :: "string option"
  pr_sid_evidence :: sid_evidence
  pr_probe_failed :: bool
  pr_only_active_claude_in_cwd :: "bool option"

definition probe_failed_report :: probe_report where
  "probe_failed_report =
     \<lparr>pr_pane_session_exists = False, pr_agent_running = None, pr_agent_program = None,
      pr_sid_evidence = UnknownSid, pr_probe_failed = True, pr_only_active_claude_in_cwd = None\<rparr>"

datatype writer_lease =
    LeaseExecutor
  | LeaseCli "string option" string
  | LeaseCliAmbiguous
  | LeaseFree
  | LeaseBusy

record retry_dispatch_context =
  rc_process_id :: uuid
  rc_force_when_dirty :: bool
  rc_perform_git_reset :: bool
  rc_reset_to_message_id :: "string option"

datatype collab_error =
    CollabDatabase db_error
  | CollabQueue queued_message_error
  | CollabSerialize
  | CollabWorkspaceMissing uuid
  | CollabExecutorClaimLost uuid
  | CollabPasteClaimLost uuid
  | CollabTransport uuid

datatype 'c dispatch_outcome =
    Started execution_process
  | OutcomeQueued "'c queue_status"
  | RoutedToCli "'c queue_status"
  | OutcomeConflict "'c queue_status"

datatype 'c queue_mutation = MutationStored "'c queue_status" | MutationConflict "'c queue_status"

datatype 'c prepared_slot = SlotNone | SlotStored session_queued_message | SlotConflict "'c queue_status"

definition DESTRUCTIVE_RETRY_START_FAILURE_REASON :: string where
  "DESTRUCTIVE_RETRY_START_FAILURE_REASON =
     ''Git reset completed, but the executor failed to start; message queued for retry''"

definition RESUME_SIGNAL_ATTEMPTS :: nat where
  "RESUME_SIGNAL_ATTEMPTS = 3"

definition PASTING_STARTUP_GRACE :: duration where
  "PASTING_STARTUP_GRACE = 5"

definition PASTE_ACK_HARD_CAP :: duration where
  "PASTE_ACK_HARD_CAP = 15 * 60"

section \<open>State and surroundings\<close>

text \<open>
  What the service did, in order.  Pastes, executor starts and resume signals are its effects
  on the outside; the leases it derived and the reservations it took and gave back are
  recorded between them.
\<close>

datatype collab_event =
    EvLease uuid writer_lease
  | EvReserved uuid string
  | EvReleased uuid string
  | EvPaste uuid uuid string string bool
  | EvDispatch uuid uuid string "retry_dispatch_context option" bool
  | EvSignal uuid string bool
  | EvNotify

record workspace_row =
  wk_id :: uuid
  wk_container_ref :: "string option"

record collab =
  cb_queue :: queue_table
  cb_reservations :: reservation_table
  cb_sessions :: session_table
  cb_workspaces :: "workspace_row list"
  cb_executions :: "execution_process list"
  cb_turns :: "coding_agent_turn list"
  cb_links :: link_table
  cb_bindings :: binding_table
  cb_signaled :: "uuid set"
  cb_events :: "collab_event list"
  cb_calls :: nat

text \<open>
  The outside, as the service finds it at its \<open>n\<close>-th call: the clock, fresh identifiers,
  whether a database call succeeds, the traits \<open>CliWriterProbe\<close>, \<open>CliPasteTransport\<close> and
  \<open>CliExecutorDispatcher\<close>, the file system, the serde functions for the configuration and the
  retry context, and which queued messages the imported transcripts acknowledge.
\<close>

datatype dispatch_result = DispatchOk execution_process | DispatchErr bool

record 'c collab_env =
  ce_now :: "nat \<Rightarrow> datetime"
  ce_fresh :: "nat \<Rightarrow> uuid"
  ce_fence :: "nat \<Rightarrow> string"
  ce_db_ok :: "nat \<Rightarrow> bool"
  ce_path_exists :: "nat \<Rightarrow> string \<Rightarrow> bool"
  ce_probe :: "nat \<Rightarrow> uuid \<Rightarrow> string \<Rightarrow> string option \<Rightarrow> cli_pane_binding option \<Rightarrow> bool \<Rightarrow> probe_report"
  ce_paste :: "nat \<Rightarrow> uuid \<Rightarrow> string \<Rightarrow> string \<Rightarrow> bool"
  ce_pane_alive :: "nat \<Rightarrow> uuid \<Rightarrow> bool option"
  ce_agent_running :: "nat \<Rightarrow> uuid \<Rightarrow> bool option"
  ce_signal :: "nat \<Rightarrow> uuid \<Rightarrow> string \<Rightarrow> bool"
  ce_dispatch :: "nat \<Rightarrow> session_row \<Rightarrow> string \<Rightarrow> 'c \<Rightarrow> retry_dispatch_context option \<Rightarrow> dispatch_result"
  ce_bound :: "nat \<Rightarrow> uuid \<Rightarrow> bool"
  ce_parse_config :: "string \<Rightarrow> 'c option"
  ce_config_json :: "'c \<Rightarrow> string option"
  ce_parse_context :: "string \<Rightarrow> retry_dispatch_context option"
  ce_context_json :: "retry_dispatch_context \<Rightarrow> string option"
  ce_executor_claim_owner :: string
  ce_paste_claim_owner :: string
  ce_routing_disabled :: bool

section \<open>Effectful computations\<close>

text \<open>A computation may fail, and keeps what it has changed before it fails.\<close>

type_synonym ('c, 'a) io = "'c collab_env \<Rightarrow> collab \<Rightarrow> (collab_error + 'a) \<times> collab"

definition return_io :: "'a \<Rightarrow> ('c, 'a) io" where
  "return_io x = (\<lambda>env s. (Inr x, s))"

definition fail_io :: "collab_error \<Rightarrow> ('c, 'a) io" where
  "fail_io e = (\<lambda>env s. (Inl e, s))"

definition bind_io :: "('c, 'a) io \<Rightarrow> ('a \<Rightarrow> ('c, 'b) io) \<Rightarrow> ('c, 'b) io" where
  "bind_io m f = (\<lambda>env s. case m env s of (Inl e, s1) \<Rightarrow> (Inl e, s1) | (Inr x, s1) \<Rightarrow> f x env s1)"

text \<open>Matching on the \<open>Result\<close> of a call instead of returning its error.\<close>

definition try_io :: "('c, 'a) io \<Rightarrow> ('c, collab_error + 'a) io" where
  "try_io m = (\<lambda>env s. case m env s of (r, s1) \<Rightarrow> (Inr r, s1))"

definition ask_io :: "('c collab_env \<Rightarrow> 'a) \<Rightarrow> ('c, 'a) io" where
  "ask_io f = (\<lambda>env s. (Inr (f env), s))"

definition next_call :: "collab \<Rightarrow> collab" where
  "next_call s = s\<lparr>cb_calls := cb_calls s + 1\<rparr>"

text \<open>A call to the outside.\<close>

definition call_io :: "('c collab_env \<Rightarrow> nat \<Rightarrow> 'a) \<Rightarrow> ('c, 'a) io" where
  "call_io f = (\<lambda>env s. (Inr (f env (cb_calls s)), next_call s))"

text \<open>A query, and a statement on a table, which fail together with the database.\<close>

definition query_io :: "(collab \<Rightarrow> 'a) \<Rightarrow> ('c, 'a) io" where
  "query_io f = (\<lambda>env s.
     if ce_db_ok env (cb_calls s) then (Inr (f s), next_call s)
     else (Inl (CollabDatabase DbError), next_call s))"

definition queue_io :: "(datetime \<Rightarrow> uuid \<Rightarrow> queue_table \<Rightarrow> db_error + ('a \<times> queue_table)) \<Rightarrow> ('c, 'a) io" where
  "queue_io f = (\<lambda>env s.
     if ce_db_ok env (cb_calls s) then
       (case f (ce_now env (cb_calls s)) (ce_fresh env (cb_calls s)) (cb_queue s) of
          Inl e \<Rightarrow> (Inl (CollabDatabase e), next_call s)
        | Inr (x, rows) \<Rightarrow> (Inr x, next_call (s\<lparr>cb_queue := rows\<rparr>)))
     else (Inl (CollabDatabase DbError), next_call s))"

definition binding_io :: "(datetime \<Rightarrow> binding_table \<Rightarrow> 'a \<times> binding_table) \<Rightarrow> ('c, 'a) io" where
  "binding_io f = (\<lambda>env s.
     if ce_db_ok env (cb_calls s) then
       (case f (ce_now env (cb_calls s)) (cb_bindings s) of (x, bs) \<Rightarrow> (Inr x, next_call (s\<lparr>cb_bindings := bs\<rparr>)))
     else (Inl (CollabDatabase DbError), next_call s))"

definition emit_io :: "collab_event \<Rightarrow> ('c, unit) io" where
  "emit_io e = (\<lambda>env s. (Inr (), s\<lparr>cb_events := cb_events s @ [e]\<rparr>))"

definition signaled_io :: "(uuid set \<Rightarrow> uuid set) \<Rightarrow> ('c, unit) io" where
  "signaled_io f = (\<lambda>env s. (Inr (), s\<lparr>cb_signaled := f (cb_signaled s)\<rparr>))"

definition is_signaled_io :: "uuid \<Rightarrow> ('c, bool) io" where
  "is_signaled_io i = (\<lambda>env s. (Inr (i \<in> cb_signaled s), s))"

definition lift_io :: "collab_error + 'a \<Rightarrow> ('c, 'a) io" where
  "lift_io r = (case r of Inl e \<Rightarrow> fail_io e | Inr x \<Rightarrow> return_io x)"

primrec for_io :: "'x list \<Rightarrow> ('x \<Rightarrow> ('c, unit) io) \<Rightarrow> ('c, unit) io" where
  "for_io [] f = return_io ()"
| "for_io (x # xs) f = bind_io (f x) (\<lambda>_. for_io xs f)"

section \<open>Reservations\<close>

definition acquire_io :: "uuid \<Rightarrow> ('c, workspace_spawn_reservation option) io" where
  "acquire_io w = (\<lambda>env s.
     if ce_db_ok env (cb_calls s) then
       (case acquire (cb_reservations s) (ce_fence env (cb_calls s)) w HolderExecutor (ce_now env (cb_calls s)) of
          (None, rows) \<Rightarrow> (Inr None, next_call (s\<lparr>cb_reservations := rows\<rparr>))
        | (Some r, rows) \<Rightarrow>
            (Inr (Some r), next_call (s\<lparr>cb_reservations := rows, cb_events := cb_events s @ [EvReserved w (rv_fence r)]\<rparr>)))
     else (Inl (CollabDatabase DbError), next_call s))"

definition release_io :: "uuid \<Rightarrow> string \<Rightarrow> ('c, bool) io" where
  "release_io w fence = (\<lambda>env s.
     if ce_db_ok env (cb_calls s) then
       (case release (cb_reservations s) w fence of
          (b, rows) \<Rightarrow> (Inr b, next_call (s\<lparr>cb_reservations := rows, cb_events := cb_events s @ [EvReleased w fence]\<rparr>)))
     else (Inl (CollabDatabase DbError), next_call s))"

end
