(* ===== verification/CliCollab.thy ===== *)
theory CliCollab
  imports CollabModel
begin

text \<open>
  The operations of \<open>CliCollabService\<close>, in the order of the source
  (\<^verbatim>\<open>crates/services/src/services/cli_collab.rs\<close>).
\<close>

section \<open>Deriving the writer lease\<close>

definition expected_sid :: "uuid \<Rightarrow> ('c, string option) io" where
  "expected_sid sid =
     bind_io (query_io (\<lambda>s. find_latest_session_info (cb_turns s) (cb_executions s) sid)) (\<lambda>info.
     case info of
       Some i \<Rightarrow> return_io (Some (ri_session_id i))
     | None \<Rightarrow> query_io (\<lambda>s. map_option lk_claude_session_id (find_latest_for_session (cb_links s) sid)))"

definition find_workspace :: "workspace_row list \<Rightarrow> uuid \<Rightarrow> workspace_row option" where
  "find_workspace ws w = select_one (\<lambda>x. wk_id x = w) ws"

definition effective_dir_io :: "session_row \<Rightarrow> workspace_row \<Rightarrow> ('c, string option) io" where
  "effective_dir_io session workspace =
     call_io (\<lambda>env n. case wk_container_ref workspace of
       None \<Rightarrow> None
     | Some root \<Rightarrow> effective_working_dir (ce_path_exists env n) session root)"

text \<open>The lease of a pane whose agent runs.\<close>

definition pane_lease ::
  "session_row \<Rightarrow> cli_pane_binding option \<Rightarrow> string option \<Rightarrow> probe_report \<Rightarrow> writer_lease" where
  "pane_lease session binding expected report =
     (case pr_agent_program report of
        None \<Rightarrow> LeaseBusy
      | Some program \<Rightarrow>
          (case binding of
             None \<Rightarrow> LeaseCliAmbiguous
           | Some b \<Rightarrow>
               if pb_session_id b \<noteq> ss_id session then LeaseCliAmbiguous
               else (case (expected, pr_sid_evidence report) of
                       (Some e, ConfirmedResume observed) \<Rightarrow>
                         if e = observed then LeaseCli (Some e) program else LeaseCliAmbiguous
                     | (None, NoResumeArg) \<Rightarrow>
                         if pb_claude_session_id b = None then LeaseCli None program else LeaseCliAmbiguous
                     | _ \<Rightarrow> LeaseCliAmbiguous)))"

definition lease_from_report ::
  "session_row \<Rightarrow> cli_pane_binding option \<Rightarrow> string option \<Rightarrow> probe_report \<Rightarrow> ('c, writer_lease) io" where
  "lease_from_report session binding expected report =
     (if pr_probe_failed report then return_io LeaseBusy
      else if \<not> pr_pane_session_exists report then return_io LeaseFree
      else case pr_agent_running report of
        None \<Rightarrow> return_io LeaseBusy
      | Some False \<Rightarrow>
          (case binding of
             None \<Rightarrow> return_io LeaseFree
           | Some b \<Rightarrow> bind_io (is_signaled_io (pb_id b)) (\<lambda>handoff_pending.
               return_io (if handoff_pending then LeaseCliAmbiguous else LeaseFree)))
      | Some True \<Rightarrow>
          bind_io (case binding of None \<Rightarrow> return_io () | Some b \<Rightarrow> signaled_io (\<lambda>ids. ids - {pb_id b})) (\<lambda>_.
          return_io (pane_lease session binding expected report)))"

definition lease_of :: "session_row \<Rightarrow> ('c, writer_lease) io" where
  "lease_of session =
     bind_io (try_io (query_io (\<lambda>s. has_running_coding_agent_for_session (cb_executions s) (ss_id session)))) (\<lambda>running.
     case running of
       Inl _ \<Rightarrow> return_io LeaseBusy
     | Inr True \<Rightarrow> return_io LeaseExecutor
     | Inr False \<Rightarrow>
     bind_io (try_io (query_io (\<lambda>s. find_active_for_workspace (cb_bindings s) (ss_workspace_id session)))) (\<lambda>bound.
     case bound of
       Inl _ \<Rightarrow> return_io LeaseBusy
     | Inr binding \<Rightarrow>
     bind_io (try_io (query_io (\<lambda>s. find_workspace (cb_workspaces s) (ss_workspace_id session)))) (\<lambda>found.
     case found of
       Inl _ \<Rightarrow> return_io LeaseBusy
     | Inr None \<Rightarrow> return_io LeaseBusy
     | Inr (Some workspace) \<Rightarrow>
     bind_io (effective_dir_io session workspace) (\<lambda>dir.
     case dir of
       None \<Rightarrow> return_io LeaseBusy
     | Some effective_dir \<Rightarrow>
     bind_io (try_io (expected_sid (ss_id session))) (\<lambda>expected.
     case expected of
       Inl _ \<Rightarrow> return_io LeaseBusy
     | Inr sid \<Rightarrow>
     bind_io (call_io (\<lambda>env n. ce_probe env n (ss_workspace_id session) effective_dir sid binding False)) (\<lambda>report.
     lease_from_report session binding sid report))))))"

definition derive_lease_locked :: "session_row \<Rightarrow> ('c, writer_lease) io" where
  "derive_lease_locked session =
     bind_io (lease_of session) (\<lambda>lease.
     bind_io (emit_io (EvLease (ss_id session) lease)) (\<lambda>_. return_io lease))"

section \<open>The slot of a session\<close>

definition status_from_row :: "(string \<Rightarrow> 'c option) \<Rightarrow> session_queued_message \<Rightarrow> collab_error + 'c queue_status" where
  "status_from_row parse_config row =
     (case try_from parse_config row of Inl e \<Rightarrow> Inl (CollabQueue e) | Inr m \<Rightarrow> Inr (from_message m))"

definition row_status :: "session_queued_message \<Rightarrow> ('c, 'c queue_status) io" where
  "row_status row = bind_io (ask_io (\<lambda>env. status_from_row (ce_parse_config env) row)) lift_io"

definition collab_status :: "uuid \<Rightarrow> ('c, 'c queue_status) io" where
  "collab_status sid =
     bind_io (query_io (\<lambda>s. find_active (cb_queue s) sid)) (\<lambda>active.
     case active of Some row \<Rightarrow> row_status row | None \<Rightarrow> return_io StatusEmpty)"

definition store_slot_result ::
  "uuid \<Rightarrow> string \<Rightarrow> 'c \<Rightarrow> retry_dispatch_context option \<Rightarrow> queued_message_source \<Rightarrow> bool
     \<Rightarrow> ('c, store_queued_message_result) io" where
  "store_slot_result sid prompt executor_config dispatch_context source replace =
     bind_io (ask_io (\<lambda>env. ce_config_json env executor_config)) (\<lambda>config_json.
     case config_json of
       None \<Rightarrow> fail_io CollabSerialize
     | Some config \<Rightarrow>
     bind_io (ask_io (\<lambda>env. case dispatch_context of None \<Rightarrow> Some None | Some c \<Rightarrow> map_option Some (ce_context_json env c)))
       (\<lambda>context_json.
     case context_json of
       None \<Rightarrow> fail_io CollabSerialize
     | Some context \<Rightarrow>
         queue_io (\<lambda>now fresh rows. store_with_context rows fresh now sid prompt (Some config) context source replace)))"

definition store_slot ::
  "uuid \<Rightarrow> string \<Rightarrow> 'c \<Rightarrow> retry_dispatch_context option \<Rightarrow> queued_message_source \<Rightarrow> bool
     \<Rightarrow> ('c, session_queued_message) io" where
  "store_slot sid prompt executor_config dispatch_context source replace =
     bind_io (store_slot_result sid prompt executor_config dispatch_context source replace) (\<lambda>result.
     return_io (case result of Stored row \<Rightarrow> row | Conflict row \<Rightarrow> row))"

definition prepare_existing_slot ::
  "uuid \<Rightarrow> string \<Rightarrow> 'c \<Rightarrow> retry_dispatch_context option \<Rightarrow> queued_message_source \<Rightarrow> bool
     \<Rightarrow> ('c, 'c prepared_slot) io" where
  "prepare_existing_slot sid prompt executor_config dispatch_context source replace =
     bind_io (query_io (\<lambda>s. find_active (cb_queue s) sid)) (\<lambda>found.
     case found of
       None \<Rightarrow> return_io SlotNone
     | Some active \<Rightarrow>
         if \<not> replace \<or> qm_state active \<noteq> Queued
         then bind_io (row_status active) (\<lambda>status. return_io (SlotConflict status))
         else bind_io (store_slot sid prompt executor_config dispatch_context source True) (\<lambda>row.
              return_io (SlotStored row)))"

definition queue_or_status ::
  "uuid \<Rightarrow> string \<Rightarrow> 'c \<Rightarrow> retry_dispatch_context option \<Rightarrow> queued_message_source
     \<Rightarrow> session_queued_message option \<Rightarrow> ('c, 'c dispatch_outcome) io" where
  "queue_or_status sid prompt executor_config dispatch_context source existing =
     bind_io (case existing of
         Some row \<Rightarrow> return_io row
       | None \<Rightarrow> store_slot sid prompt executor_config dispatch_context source False) (\<lambda>row.
     bind_io (row_status row) (\<lambda>status. return_io (OutcomeQueued status)))"

section \<open>Pasting into the pane\<close>

definition paste_io :: "session_row \<Rightarrow> string \<Rightarrow> string \<Rightarrow> ('c, bool) io" where
  "paste_io session program prompt =
     bind_io (call_io (\<lambda>env n. ce_paste env n (ss_workspace_id session) program prompt)) (\<lambda>ok.
     bind_io (emit_io (EvPaste (ss_id session) (ss_workspace_id session) program prompt ok)) (\<lambda>_. return_io ok))"

text \<open>\<open>paste_slot\<close> once the row is claimed.\<close>

definition paste_claimed_row :: "session_row \<Rightarrow> session_queued_message \<Rightarrow> string \<Rightarrow> string \<Rightarrow> ('c, 'c dispatch_outcome) io" where
  "paste_claimed_row session claimed program owner =
     bind_io (paste_io session program (qm_prompt claimed)) (\<lambda>ok.
     if ok then
       bind_io (queue_io (\<lambda>now _ rows. Inr (mark_pasted rows now (qm_id claimed) owner))) (\<lambda>marked.
       if \<not> marked then fail_io (CollabPasteClaimLost (qm_id claimed))
       else bind_io (collab_status (ss_id session)) (\<lambda>status. return_io (RoutedToCli status)))
     else
       bind_io (queue_io (\<lambda>now _ rows. Inr (requeue rows now (qm_id claimed)
          (Some ''CLI paste failed; queued for retry'')))) (\<lambda>_.
       bind_io (collab_status (ss_id session)) (\<lambda>status. return_io (OutcomeQueued status))))"

definition paste_slot ::
  "session_row \<Rightarrow> session_queued_message \<Rightarrow> string option \<Rightarrow> string \<Rightarrow> ('c, 'c dispatch_outcome) io" where
  "paste_slot session row claude_session_id program =
     bind_io (ask_io ce_paste_claim_owner) (\<lambda>owner.
     bind_io (queue_io (\<lambda>now _ rows. Inr (claim_for_paste rows now (qm_id row) claude_session_id owner))) (\<lambda>found.
     case found of
       None \<Rightarrow> bind_io (collab_status (ss_id session)) (\<lambda>status. return_io (OutcomeConflict status))
     | Some claimed \<Rightarrow> paste_claimed_row session claimed program owner))"

section \<open>Starting the executor\<close>

text \<open>The dispatcher starts an execution, which is then in the table of executions.\<close>

definition dispatch_io ::
  "session_row \<Rightarrow> string \<Rightarrow> 'c \<Rightarrow> retry_dispatch_context option \<Rightarrow> ('c, dispatch_result) io" where
  "dispatch_io session prompt executor_config dispatch_context = (\<lambda>env s.
     case ce_dispatch env (cb_calls s) session prompt executor_config dispatch_context of
       DispatchOk ep \<Rightarrow> (Inr (DispatchOk ep), next_call (s\<lparr>cb_executions := cb_executions s @ [ep],
         cb_events := cb_events s @ [EvDispatch (ss_id session) (ss_workspace_id session) prompt dispatch_context True]\<rparr>))
     | DispatchErr destructive \<Rightarrow> (Inr (DispatchErr destructive), next_call (s\<lparr>
         cb_events := cb_events s @ [EvDispatch (ss_id session) (ss_workspace_id session) prompt dispatch_context False]\<rparr>)))"

text \<open>
  The part of \<open>dispatch_executor_locked\<close> after the reservation, the second lease and the claim:
  what follows a start that succeeded, and one that failed.
\<close>

definition dispatch_started :: "session_queued_message option \<Rightarrow> execution_process \<Rightarrow> ('c, 'c dispatch_outcome) io" where
  "dispatch_started claimed ep =
     (case claimed of
        None \<Rightarrow> return_io (Started ep)
      | Some row \<Rightarrow>
          bind_io (ask_io ce_executor_claim_owner) (\<lambda>owner.
          bind_io (queue_io (\<lambda>now _ rows. Inr (mark_consumed rows now (qm_id row) owner))) (\<lambda>consumed.
          if consumed then return_io (Started ep) else fail_io (CollabExecutorClaimLost (qm_id row)))))"

definition dispatch_failed ::
  "session_row \<Rightarrow> string \<Rightarrow> 'c \<Rightarrow> retry_dispatch_context option \<Rightarrow> queued_message_source
     \<Rightarrow> session_queued_message option \<Rightarrow> bool \<Rightarrow> ('c, 'c dispatch_outcome) io" where
  "dispatch_failed session prompt executor_config dispatch_context source claimed destructive_reset_applied =
     (let failure_reason = (if destructive_reset_applied then DESTRUCTIVE_RETRY_START_FAILURE_REASON
          else ''executor start failed; queued for retry'')
      in case claimed of
           Some row \<Rightarrow>
             bind_io (queue_io (\<lambda>now _ rows. Inr (requeue rows now (qm_id row) (Some failure_reason)))) (\<lambda>_.
             bind_io (collab_status (ss_id session)) (\<lambda>status. return_io (OutcomeQueued status)))
         | None \<Rightarrow>
             if destructive_reset_applied then
               bind_io (store_slot (ss_id session) prompt executor_config dispatch_context source False) (\<lambda>row.
               bind_io (queue_io (\<lambda>now _ rows. Inr (set_failure_reason rows now (qm_id row) failure_reason))) (\<lambda>_.
               bind_io (collab_status (ss_id session)) (\<lambda>status. return_io (OutcomeQueued status))))
             else queue_or_status (ss_id session) prompt executor_config dispatch_context source None)"

definition dispatch_claimed ::
  "session_row \<Rightarrow> string \<Rightarrow> 'c \<Rightarrow> retry_dispatch_context option \<Rightarrow> queued_message_source
     \<Rightarrow> session_queued_message option \<Rightarrow> string \<Rightarrow> ('c, 'c dispatch_outcome) io" where
  "dispatch_claimed session prompt executor_config dispatch_context source claimed fence =
     bind_io (dispatch_io session prompt executor_config dispatch_context) (\<lambda>dispatched.
     bind_io (try_io (release_io (ss_workspace_id session) fence)) (\<lambda>_.
     case dispatched of
       DispatchOk ep \<Rightarrow> dispatch_started claimed ep
     | DispatchErr destructive_reset_applied \<Rightarrow>
         dispatch_failed session prompt executor_config dispatch_context source claimed destructive_reset_applied))"

text \<open>Claiming the row, if there is one, under the reservation.\<close>

definition dispatch_reserved ::
  "session_row \<Rightarrow> string \<Rightarrow> 'c \<Rightarrow> retry_dispatch_context option \<Rightarrow> queued_message_source
     \<Rightarrow> session_queued_message option \<Rightarrow> string \<Rightarrow> ('c, 'c dispatch_outcome) io" where
  "dispatch_reserved session prompt executor_config dispatch_context source existing fence =
     (case existing of
        None \<Rightarrow> dispatch_claimed session prompt executor_config dispatch_context source None fence
      | Some row \<Rightarrow>
          bind_io (ask_io ce_executor_claim_owner) (\<lambda>owner.
          bind_io (queue_io (\<lambda>now _ rows. Inr (claim_for_executor rows now (qm_id row) owner))) (\<lambda>found.
          case found of
            None \<Rightarrow>
              bind_io (try_io (release_io (ss_workspace_id session) fence)) (\<lambda>_.
              bind_io (collab_status (ss_id session)) (\<lambda>status. return_io (OutcomeConflict status)))
          | Some claimed \<Rightarrow>
              dispatch_claimed session prompt executor_config dispatch_context source (Some claimed) fence)))"

definition dispatch_executor_locked ::
  "session_row \<Rightarrow> string \<Rightarrow> 'c \<Rightarrow> retry_dispatch_context option \<Rightarrow> queued_message_source
     \<Rightarrow> session_queued_message option \<Rightarrow> ('c, 'c dispatch_outcome) io" where
  "dispatch_executor_locked session prompt executor_config dispatch_context source existing =
     bind_io (try_io (acquire_io (ss_workspace_id session))) (\<lambda>acquired.
     case acquired of
       Inl _ \<Rightarrow> queue_or_status (ss_id session) prompt executor_config dispatch_context source existing
     | Inr None \<Rightarrow> queue_or_status (ss_id session) prompt executor_config dispatch_context source existing
     | Inr (Some reservation) \<Rightarrow>
     bind_io (derive_lease_locked session) (\<lambda>lease.
     if lease \<noteq> LeaseFree then
       bind_io (release_io (ss_workspace_id session) (rv_fence reservation)) (\<lambda>_.
       queue_or_status (ss_id session) prompt executor_config dispatch_context source existing)
     else dispatch_reserved session prompt executor_config dispatch_context source existing (rv_fence reservation)))"

section \<open>The gate\<close>

definition deliver_by_lease ::
  "session_row \<Rightarrow> string \<Rightarrow> 'c \<Rightarrow> queued_message_source \<Rightarrow> retry_dispatch_context option
     \<Rightarrow> session_queued_message option \<Rightarrow> bool \<Rightarrow> writer_lease \<Rightarrow> ('c, 'c dispatch_outcome) io" where
  "deliver_by_lease session prompt executor_config source dispatch_context existing routing_disabled lease =
     (case lease of
        LeaseFree \<Rightarrow> dispatch_executor_locked session prompt executor_config dispatch_context source existing
      | LeaseCli claude_session_id program \<Rightarrow>
          if dispatch_context \<noteq> None \<or> routing_disabled
          then queue_or_status (ss_id session) prompt executor_config dispatch_context source existing
          else bind_io (case existing of
                   Some row \<Rightarrow> return_io row
                 | None \<Rightarrow> store_slot (ss_id session) prompt executor_config None source False) (\<lambda>row.
               paste_slot session row claude_session_id program)
      | _ \<Rightarrow> queue_or_status (ss_id session) prompt executor_config dispatch_context source existing)"

definition dispatch_gate_with_context ::
  "session_row \<Rightarrow> string \<Rightarrow> 'c \<Rightarrow> queued_message_source \<Rightarrow> bool \<Rightarrow> retry_dispatch_context option
     \<Rightarrow> ('c, 'c dispatch_outcome) io" where
  "dispatch_gate_with_context session prompt executor_config source replace dispatch_context =
     bind_io (prepare_existing_slot (ss_id session) prompt executor_config dispatch_context source replace) (\<lambda>slot.
     case slot of
       SlotConflict status \<Rightarrow> return_io (OutcomeConflict status)
     | _ \<Rightarrow>
         bind_io (derive_lease_locked session) (\<lambda>lease.
         bind_io (ask_io ce_routing_disabled) (\<lambda>routing_disabled.
         bind_io (deliver_by_lease session prompt executor_config source dispatch_context
             (case slot of SlotStored row \<Rightarrow> Some row | _ \<Rightarrow> None) routing_disabled lease) (\<lambda>outcome.
         bind_io (case outcome of OutcomeQueued _ \<Rightarrow> emit_io EvNotify | _ \<Rightarrow> return_io ()) (\<lambda>_.
         return_io outcome)))))"

definition dispatch_gate ::
  "session_row \<Rightarrow> string \<Rightarrow> 'c \<Rightarrow> queued_message_source \<Rightarrow> bool \<Rightarrow> ('c, 'c dispatch_outcome) io" where
  "dispatch_gate session prompt executor_config source replace =
     dispatch_gate_with_context session prompt executor_config source replace None"

definition dispatch_retry ::
  "session_row \<Rightarrow> string \<Rightarrow> 'c \<Rightarrow> queued_message_source \<Rightarrow> bool \<Rightarrow> retry_dispatch_context
     \<Rightarrow> ('c, 'c dispatch_outcome) io" where
  "dispatch_retry session prompt executor_config source replace retry =
     dispatch_gate_with_context session prompt executor_config source replace (Some retry)"

definition queue_message ::
  "session_row \<Rightarrow> string \<Rightarrow> 'c \<Rightarrow> queued_message_source \<Rightarrow> bool \<Rightarrow> ('c, 'c queue_mutation) io" where
  "queue_message session prompt executor_config source replace =
     bind_io (store_slot_result (ss_id session) prompt executor_config None source replace) (\<lambda>result.
     case result of
       Stored row \<Rightarrow>
         bind_io (row_status row) (\<lambda>status.
         bind_io (emit_io EvNotify) (\<lambda>_. return_io (MutationStored status)))
     | Conflict row \<Rightarrow> bind_io (row_status row) (\<lambda>status. return_io (MutationConflict status)))"

definition collab_cancel_queued :: "uuid \<Rightarrow> ('c, 'c queue_mutation) io" where
  "collab_cancel_queued sid =
     bind_io (queue_io (\<lambda>now _ rows. Inr (cancel_queued rows now sid))) (\<lambda>result.
     case result of
       CancelConflict row \<Rightarrow> bind_io (row_status row) (\<lambda>status. return_io (MutationConflict status))
     | _ \<Rightarrow> return_io (MutationStored StatusEmpty))"

section \<open>Handing the pane back\<close>

definition hold_after_abnormal_writer :: "session_queued_message \<Rightarrow> ('c, bool) io" where
  "hold_after_abnormal_writer row =
     (if qm_failure_reason row = Some ABNORMAL_EXECUTOR_QUEUE_HOLD then return_io True
      else bind_io (query_io (\<lambda>s. has_abnormal_coding_agent_completion_after (cb_executions s)
              (qm_session_id row) (qm_updated_at row))) (\<lambda>abnormal.
           if \<not> abnormal then return_io False
           else queue_io (\<lambda>now _ rows. Inr (set_failure_reason rows now (qm_id row) ABNORMAL_EXECUTOR_QUEUE_HOLD))))"

fun signal_attempts :: "nat \<Rightarrow> uuid \<Rightarrow> string \<Rightarrow> ('c, unit) io" where
  "signal_attempts 0 w sid = fail_io (CollabTransport w)"
| "signal_attempts (Suc n) w sid =
     bind_io (call_io (\<lambda>env k. ce_signal env k w sid)) (\<lambda>ok.
     bind_io (emit_io (EvSignal w sid ok)) (\<lambda>_.
     if ok then return_io () else signal_attempts n w sid))"

definition signal_resume_ready_with_retry :: "uuid \<Rightarrow> string \<Rightarrow> ('c, unit) io" where
  "signal_resume_ready_with_retry w sid = signal_attempts RESUME_SIGNAL_ATTEMPTS w sid"

definition resume_bound_pane :: "session_row \<Rightarrow> cli_pane_binding \<Rightarrow> ('c, bool) io" where
  "resume_bound_pane session binding =
     bind_io (case pb_claude_session_id binding of
         Some sid \<Rightarrow> return_io (Some sid)
       | None \<Rightarrow> expected_sid (ss_id session)) (\<lambda>found.
     case found of
       None \<Rightarrow> return_io True
     | Some sid \<Rightarrow>
         bind_io (if pb_bound_via binding = CliFresh \<and> pb_claude_session_id binding = None
             then binding_io (\<lambda>_ bs. bind_discovered_sid bs (pb_id binding) sid)
             else return_io True) (\<lambda>still_bound.
         if \<not> still_bound then return_io True
         else
           bind_io (signal_resume_ready_with_retry (ss_workspace_id session) sid) (\<lambda>_.
           bind_io (signaled_io (\<lambda>ids. insert (pb_id binding) ids)) (\<lambda>_. return_io True))))"

definition hold_or_resume_bound_pane_locked :: "session_row \<Rightarrow> cli_pane_binding \<Rightarrow> ('c, bool) io" where
  "hold_or_resume_bound_pane_locked session binding =
     bind_io (call_io (\<lambda>env n. ce_pane_alive env n (ss_workspace_id session))) (\<lambda>alive.
     case alive of
       None \<Rightarrow> fail_io (CollabTransport (ss_workspace_id session))
     | Some False \<Rightarrow>
         bind_io (binding_io (\<lambda>now bs. release_binding bs now (pb_id binding))) (\<lambda>_.
         bind_io (signaled_io (\<lambda>ids. ids - {pb_id binding})) (\<lambda>_. return_io False))
     | Some True \<Rightarrow>
         bind_io (call_io (\<lambda>env n. ce_agent_running env n (ss_workspace_id session))) (\<lambda>running.
         case running of
           Some True \<Rightarrow> bind_io (signaled_io (\<lambda>ids. ids - {pb_id binding})) (\<lambda>_. return_io True)
         | None \<Rightarrow> return_io True
         | Some False \<Rightarrow>
             bind_io (is_signaled_io (pb_id binding)) (\<lambda>signaled.
             if signaled then return_io True else resume_bound_pane session binding)))"

section \<open>Draining the queue\<close>

definition original_paste_binding_is_active :: "session_queued_message \<Rightarrow> ('c, bool) io" where
  "original_paste_binding_is_active row =
     (if \<not> was_requeued_from_pasted row then return_io False
      else case qm_pasted_at row of
        None \<Rightarrow> return_io False
      | Some pasted_at \<Rightarrow>
          query_io (\<lambda>s. case find_active_for_session (cb_bindings s) (qm_session_id row) of
            None \<Rightarrow> False
          | Some binding \<Rightarrow> pb_created_at binding \<le> pasted_at))"

definition find_session_io :: "uuid \<Rightarrow> ('c, session_row) io" where
  "find_session_io sid =
     bind_io (query_io (\<lambda>s. find_session (cb_sessions s) sid)) (\<lambda>found.
     case found of None \<Rightarrow> fail_io (CollabWorkspaceMissing sid) | Some session \<Rightarrow> return_io session)"

definition refuse_row :: "session_queued_message \<Rightarrow> string \<Rightarrow> ('c, bool) io" where
  "refuse_row row reason =
     bind_io (queue_io (\<lambda>now _ rows. Inr (set_failure_reason rows now (qm_id row) reason))) (\<lambda>_. return_io False)"

text \<open>\<open>drain_session\<close> from the derivation of the lease on.\<close>

definition drain_by_lease ::
  "session_row \<Rightarrow> session_queued_message \<Rightarrow> 'c \<Rightarrow> retry_dispatch_context option \<Rightarrow> writer_lease \<Rightarrow> ('c, bool) io" where
  "drain_by_lease session row executor_config dispatch_context lease =
     (case lease of
        LeaseCli claude_session_id program \<Rightarrow>
          if dispatch_context \<noteq> None then return_io False
          else
            bind_io (original_paste_binding_is_active row) (\<lambda>original.
            if original then return_io False
            else bind_io (paste_slot session row claude_session_id program) (\<lambda>routed.
                 return_io (case routed of RoutedToCli _ \<Rightarrow> True | _ \<Rightarrow> False)))
      | LeaseFree \<Rightarrow>
          bind_io (dispatch_executor_locked session (qm_prompt row) executor_config dispatch_context
              (qm_source row) (Some row)) (\<lambda>outcome.
          return_io (case outcome of Started _ \<Rightarrow> True | _ \<Rightarrow> False))
      | _ \<Rightarrow> return_io False)"

definition drain_row :: "session_queued_message \<Rightarrow> ('c, bool) io" where
  "drain_row row =
     bind_io (find_session_io (qm_session_id row)) (\<lambda>session.
     bind_io (ask_io (\<lambda>env. map_option (ce_parse_config env) (qm_executor_config row))) (\<lambda>config.
     case config of
       None \<Rightarrow> refuse_row row ''queued message has no executor configuration''
     | Some None \<Rightarrow> refuse_row row ''queued message has invalid executor configuration''
     | Some (Some executor_config) \<Rightarrow>
     bind_io (ask_io (\<lambda>env. case qm_dispatch_context row of
          None \<Rightarrow> Some None
        | Some raw \<Rightarrow> map_option Some (ce_parse_context env raw))) (\<lambda>context.
     case context of
       None \<Rightarrow> refuse_row row ''queued message has invalid dispatch context''
     | Some dispatch_context \<Rightarrow>
         bind_io (derive_lease_locked session) (drain_by_lease session row executor_config dispatch_context))))"

definition drain_session :: "uuid \<Rightarrow> ('c, bool) io" where
  "drain_session sid =
     bind_io (ask_io ce_routing_disabled) (\<lambda>routing_disabled.
     if routing_disabled then return_io False
     else
       bind_io (query_io (\<lambda>s. find_active (cb_queue s) sid)) (\<lambda>active.
       case active of
         None \<Rightarrow> return_io False
       | Some row \<Rightarrow>
           if qm_state row \<noteq> Queued then return_io False
           else
             bind_io (hold_after_abnormal_writer row) (\<lambda>held.
             if held then return_io False else drain_row row)))"

definition on_executor_finished :: "uuid \<Rightarrow> execution_process_status \<Rightarrow> bool \<Rightarrow> ('c, bool) io" where
  "on_executor_finished sid finished_status releases_collaboration_writer =
     (if \<not> releases_collaboration_writer then return_io False
      else if finished_status \<in> {EpFailed, EpKilled} then
        bind_io (query_io (\<lambda>s. find_active (cb_queue s) sid)) (\<lambda>active.
        bind_io (case active of
            Some row \<Rightarrow> if qm_state row = Queued then hold_after_abnormal_writer row else return_io False
          | None \<Rightarrow> return_io False) (\<lambda>_.
        bind_io (emit_io EvNotify) (\<lambda>_. return_io False)))
      else
        bind_io (find_session_io sid) (\<lambda>session.
        bind_io (query_io (\<lambda>s. has_running_coding_agent_for_session (cb_executions s) sid)) (\<lambda>running.
        if running then return_io False
        else
          bind_io (query_io (\<lambda>s. find_active_for_session (cb_bindings s) sid)) (\<lambda>bound.
          bind_io (case bound of
              Some binding \<Rightarrow> hold_or_resume_bound_pane_locked session binding
            | None \<Rightarrow> return_io False) (\<lambda>held.
          if held then bind_io (emit_io EvNotify) (\<lambda>_. return_io False)
          else
            bind_io (drain_session sid) (\<lambda>started.
            bind_io (emit_io EvNotify) (\<lambda>_. return_io started)))))))"

section \<open>Reconciliation\<close>

definition reconcile_pasted_delivery :: "session_queued_message \<Rightarrow> ('c, bool) io" where
  "reconcile_pasted_delivery observed =
     bind_io (query_io (\<lambda>s. find_by_id (cb_queue s) (qm_id observed))) (\<lambda>found.
     case found of
       None \<Rightarrow> return_io False
     | Some row \<Rightarrow>
     if qm_state row \<noteq> Pasted then return_io False
     else
     bind_io (find_session_io (qm_session_id row)) (\<lambda>session.
     bind_io (query_io (\<lambda>s. find_active_for_session (cb_bindings s) (qm_session_id row))) (\<lambda>bound.
     let requeue_it = queue_io (\<lambda>now _ rows. Inr (requeue_pasted rows now (qm_id row))) in
     case bound of
       None \<Rightarrow> requeue_it
     | Some binding \<Rightarrow>
     if (case qm_pasted_at row of None \<Rightarrow> False | Some pasted_at \<Rightarrow> pb_created_at binding > pasted_at) then requeue_it
     else
     bind_io (query_io (\<lambda>s. find_workspace (cb_workspaces s) (ss_workspace_id session))) (\<lambda>workspace.
     case workspace of
       None \<Rightarrow> fail_io (CollabWorkspaceMissing (qm_session_id row))
     | Some w \<Rightarrow>
     bind_io (effective_dir_io session w) (\<lambda>dir.
     case dir of
       None \<Rightarrow> return_io False
     | Some effective_dir \<Rightarrow>
     bind_io (call_io (\<lambda>env n. ce_probe env n (ss_workspace_id session) effective_dir
         (qm_claude_session_id row) (Some binding) False)) (\<lambda>report.
     if pr_probe_failed report \<or> pr_agent_running report = None then return_io False
     else
     bind_io (if \<not> pr_pane_session_exists report
         then bind_io (binding_io (\<lambda>now bs. release_binding bs now (pb_id binding))) (\<lambda>_. return_io ())
         else return_io ()) (\<lambda>_.
     if \<not> pr_pane_session_exists report \<or> pr_agent_running report = Some False then requeue_it
     else return_io False)))))))"

definition reconcile_io :: "datetime \<Rightarrow> ('c, queue_reconciliation) io" where
  "reconcile_io now = (\<lambda>env s.
     if ce_db_ok env (cb_calls s) then
       (case reconcile (cb_queue s) (ce_bound env (cb_calls s)) (cb_executions s) (ce_now env (cb_calls s)) now
             PASTING_STARTUP_GRACE PASTE_ACK_HARD_CAP (Some (ce_executor_claim_owner env)) (Some (ce_paste_claim_owner env)) of
          (result, rows) \<Rightarrow> (Inr result, next_call (s\<lparr>cb_queue := rows\<rparr>)))
     else (Inl (CollabDatabase DbError), next_call s))"

definition reconcile_delivery_state :: "session_queued_message list \<Rightarrow> ('c, unit) io" where
  "reconcile_delivery_state pasted_rows =
     bind_io (call_io ce_now) (\<lambda>now.
     bind_io (try_io (reconcile_io now)) (\<lambda>reconciled.
     case reconciled of
       Inl _ \<Rightarrow> return_io ()
     | Inr _ \<Rightarrow> for_io pasted_rows (\<lambda>row. bind_io (try_io (reconcile_pasted_delivery row)) (\<lambda>_. return_io ()))))"

definition reconcile_waiting_pane :: "cli_pane_binding \<Rightarrow> ('c, unit) io" where
  "reconcile_waiting_pane observed =
     bind_io (query_io (\<lambda>s. find_active_for_session (cb_bindings s) (pb_session_id observed))) (\<lambda>bound.
     case bound of
       None \<Rightarrow> return_io ()
     | Some binding \<Rightarrow>
     if pb_id binding \<noteq> pb_id observed then return_io ()
     else
     bind_io (query_io (\<lambda>s. has_running_coding_agent_for_session (cb_executions s) (pb_session_id observed))) (\<lambda>running.
     if running then return_io ()
     else
     bind_io (query_io (\<lambda>s. find_by_session_id (cb_executions s) (pb_session_id observed) True)) (\<lambda>processes.
     if \<not> (\<exists>p\<in>set processes. writer_released_after p (pb_created_at binding)) then return_io ()
     else
     bind_io (query_io (\<lambda>s. find_session (cb_sessions s) (pb_session_id observed))) (\<lambda>found.
     case found of
       None \<Rightarrow> return_io ()
     | Some session \<Rightarrow>
         bind_io (hold_or_resume_bound_pane_locked session binding) (\<lambda>_. return_io ())))))"

definition reconcile_waiting_panes :: "cli_pane_binding list \<Rightarrow> ('c, unit) io" where
  "reconcile_waiting_panes bindings =
     bind_io (signaled_io (\<lambda>ids. ids \<inter> set (map pb_id bindings))) (\<lambda>_.
     for_io bindings (\<lambda>b. bind_io (try_io (reconcile_waiting_pane b)) (\<lambda>_. return_io ())))"

definition drain_all :: "('c, unit) io" where
  "drain_all =
     bind_io (try_io (query_io (\<lambda>s. list_active_bindings (cb_bindings s)))) (\<lambda>bound.
     case bound of
       Inl _ \<Rightarrow> return_io ()
     | Inr bindings \<Rightarrow>
     bind_io (try_io (query_io (\<lambda>s. list_active (cb_queue s)))) (\<lambda>active.
     case active of
       Inl _ \<Rightarrow> return_io ()
     | Inr rows_active \<Rightarrow>
     if bindings = [] \<and> rows_active = [] then signaled_io (\<lambda>_. {})
     else
     bind_io (reconcile_waiting_panes bindings) (\<lambda>_.
     bind_io (reconcile_delivery_state (filter (\<lambda>r. qm_state r = Pasted) rows_active)) (\<lambda>_.
     bind_io (ask_io ce_routing_disabled) (\<lambda>routing_disabled.
     if routing_disabled then return_io ()
     else for_io (map qm_session_id (filter (\<lambda>r. qm_state r = Queued) rows_active)) (\<lambda>sid.
       bind_io (try_io (drain_session sid)) (\<lambda>_. return_io ())))))))"

end
