(* ===== verification/CollabSafety.thy ===== *)
theory CollabSafety
  imports CliCollab
begin

text \<open>
  What the collaboration service keeps: the invariants of the tables it writes, and the
  discipline of its effects.
\<close>

section \<open>Invariants through computations\<close>

definition keeps :: "(collab \<Rightarrow> bool) \<Rightarrow> ('c, 'a) io \<Rightarrow> bool" where
  "keeps P m = (\<forall>env s. P s \<longrightarrow> P (snd (m env s)))"

lemma keepsD: "keeps P m \<Longrightarrow> P s \<Longrightarrow> P (snd (m env s))"
  by (simp add: keeps_def)

lemma keeps_return [intro!]: "keeps P (return_io x)"
  by (simp add: keeps_def return_io_def)

lemma keeps_fail [intro!]: "keeps P (fail_io e)"
  by (simp add: keeps_def fail_io_def)

lemma keeps_lift [intro!]: "keeps P (lift_io r)"
  by (auto simp: lift_io_def split: sum.splits)

lemma keeps_bind [intro]: "keeps P m \<Longrightarrow> (\<And>x. keeps P (f x)) \<Longrightarrow> keeps P (bind_io m f)"
proof -
  assume m: "keeps P m" and f: "\<And>x. keeps P (f x)"
  have "P (snd (bind_io m f env s))" if "P s" for env s
  proof (cases "m env s")
    case (Pair r s1)
    with m \<open>P s\<close> have "P s1" by (metis keeps_def snd_conv)
    with Pair f show ?thesis by (cases r) (auto simp: bind_io_def keeps_def)
  qed
  then show ?thesis by (simp add: keeps_def)
qed

lemma keeps_try [intro!]: "keeps P m \<Longrightarrow> keeps P (try_io m)"
  by (auto simp: keeps_def try_io_def split: prod.splits) (metis snd_conv)

lemma keeps_ask [intro!]: "keeps P (ask_io f)"
  by (simp add: keeps_def ask_io_def)

lemma keeps_is_signaled [intro!]: "keeps P (is_signaled_io i)"
  by (simp add: keeps_def is_signaled_io_def)

lemma keeps_for [intro]: "(\<And>x. keeps P (f x)) \<Longrightarrow> keeps P (for_io xs f)"
  by (induction xs) auto

text \<open>
  The contract under which every operation of the service keeps an invariant: the invariant
  does not look at the bookkeeping, and the statements on the tables keep it.
\<close>

locale collab_invariant =
  fixes inv :: "collab \<Rightarrow> bool"
  assumes inv_call: "inv s \<Longrightarrow> inv (next_call s)"
    and inv_event: "inv s \<Longrightarrow> inv (s\<lparr>cb_events := es\<rparr>)"
    and inv_signaled: "inv s \<Longrightarrow> inv (s\<lparr>cb_signaled := ids\<rparr>)"
    and inv_executions: "inv s \<Longrightarrow> inv (s\<lparr>cb_executions := eps\<rparr>)"
    and inv_queue: "inv s \<Longrightarrow> queue_step (cb_queue s) rows \<Longrightarrow> inv (s\<lparr>cb_queue := rows\<rparr>)"
    and inv_acquire: "inv s \<Longrightarrow> inv (s\<lparr>cb_reservations := snd (acquire (cb_reservations s) fence w holder now)\<rparr>)"
    and inv_release: "inv s \<Longrightarrow> inv (s\<lparr>cb_reservations := snd (release (cb_reservations s) w fence)\<rparr>)"
    and inv_release_binding: "inv s \<Longrightarrow> inv (s\<lparr>cb_bindings := snd (release_binding (cb_bindings s) now i)\<rparr>)"
    and inv_discover: "inv s \<Longrightarrow> inv (s\<lparr>cb_bindings := snd (bind_discovered_sid (cb_bindings s) i csid)\<rparr>)"
begin

lemma keeps_call [intro!]: "keeps inv (call_io f)"
  by (simp add: keeps_def call_io_def inv_call)

lemma keeps_query [intro!]: "keeps inv (query_io f)"
  by (simp add: keeps_def query_io_def inv_call)

lemma keeps_emit [intro!]: "keeps inv (emit_io e)"
  by (simp add: keeps_def emit_io_def inv_event)

lemma keeps_signaled [intro!]: "keeps inv (signaled_io f)"
  by (simp add: keeps_def signaled_io_def inv_signaled)

lemma keeps_queue: "(\<And>now fresh rows x rows'. f now fresh rows = Inr (x, rows') \<Longrightarrow> queue_step rows rows')
    \<Longrightarrow> keeps inv (queue_io f)"
  by (auto simp: keeps_def queue_io_def inv_call intro!: inv_call inv_queue split: sum.splits)

lemma keeps_statement: "(\<And>now rows. queue_step rows (snd (f now rows))) \<Longrightarrow> keeps inv (queue_io (\<lambda>now _ rows. Inr (f now rows)))"
  by (rule keeps_queue) (metis Inr_inject snd_conv)

lemma keeps_statements [intro!]:
  "keeps inv (queue_io (\<lambda>now _ rows. Inr (claim_for_paste rows now i csid owner)))"
  "keeps inv (queue_io (\<lambda>now _ rows. Inr (claim_for_executor rows now i owner)))"
  "keeps inv (queue_io (\<lambda>now _ rows. Inr (mark_pasted rows now i owner)))"
  "keeps inv (queue_io (\<lambda>now _ rows. Inr (mark_consumed rows now i owner)))"
  "keeps inv (queue_io (\<lambda>now _ rows. Inr (requeue rows now i reason)))"
  "keeps inv (queue_io (\<lambda>now _ rows. Inr (requeue_pasted rows now i)))"
  "keeps inv (queue_io (\<lambda>now _ rows. Inr (set_failure_reason rows now i why)))"
  "keeps inv (queue_io (\<lambda>now _ rows. Inr (cancel_queued rows now sid)))"
  unfolding requeue_pasted_def by - (rule keeps_statement, rule queue_step.intros)+

lemma keeps_store [intro!]:
  "keeps inv (queue_io (\<lambda>now fresh rows. store_with_context rows fresh now sid prompt cfg ctx src replace))"
  by (rule keeps_queue) (rule step_store)

lemma keeps_reconcile [intro!]: "keeps inv (reconcile_io now)"
proof -
  have "queue_step rows rows'" if "reconcile rows bound procs db_now now grace cap ae ap = (result, rows')"
    for rows bound procs db_now now grace cap ae ap result rows'
    using step_reconcile [of rows bound procs db_now now grace cap ae ap] that by simp
  then show ?thesis
    by (auto simp: keeps_def reconcile_io_def split: prod.splits intro!: inv_call inv_queue)
qed

lemma keeps_bindings [intro!]:
  "keeps inv (binding_io (\<lambda>now bs. release_binding bs now i))"
  "keeps inv (binding_io (\<lambda>_ bs. bind_discovered_sid bs i csid))"
proof -
  have "inv (s\<lparr>cb_bindings := bs\<rparr>)" if "inv s" "release_binding (cb_bindings s) now i = (x, bs)" for s now x bs
    using that inv_release_binding [of s now i] by simp
  then show "keeps inv (binding_io (\<lambda>now bs. release_binding bs now i))"
    by (auto simp: keeps_def binding_io_def split: prod.splits intro!: inv_call)
  have "inv (s\<lparr>cb_bindings := bs\<rparr>)" if "inv s" "bind_discovered_sid (cb_bindings s) i csid = (x, bs)" for s x bs
    using that inv_discover [of s i csid] by simp
  then show "keeps inv (binding_io (\<lambda>_ bs. bind_discovered_sid bs i csid))"
    by (auto simp: keeps_def binding_io_def split: prod.splits intro!: inv_call)
qed

lemma keeps_reservations [intro!]: "keeps inv (acquire_io w)" "keeps inv (release_io w fence)"
proof -
  have "inv (s\<lparr>cb_reservations := rows, cb_events := es\<rparr>)" "inv (s\<lparr>cb_reservations := rows\<rparr>)"
    if "inv s" "acquire (cb_reservations s) fence w holder now = (r, rows)" for s fence holder now r rows es
    using that inv_acquire [of s fence w holder now] inv_event by auto
  then show "keeps inv (acquire_io w)"
    by (auto simp: keeps_def acquire_io_def inv_call split: prod.splits option.splits intro!: inv_call)
  have "inv (s\<lparr>cb_reservations := rows, cb_events := es\<rparr>)"
    if "inv s" "release (cb_reservations s) w fence = (b, rows)" for s b rows es
    using that inv_release [of s w fence] inv_event by auto
  then show "keeps inv (release_io w fence)"
    by (auto simp: keeps_def release_io_def inv_call split: prod.splits intro!: inv_call)
qed

lemma keeps_dispatch [intro!]: "keeps inv (dispatch_io session prompt cfg ctx)"
proof -
  have "inv (s\<lparr>cb_executions := eps, cb_events := es\<rparr>)" if "inv s" for s eps es
    using that inv_executions inv_event by blast
  then show ?thesis
    by (auto simp: keeps_def dispatch_io_def inv_event split: dispatch_result.splits intro!: inv_call)
qed

text \<open>The operations, from the smaller to the larger.\<close>

lemma keeps_lease [intro!]: "keeps inv (derive_lease_locked session)"
  unfolding derive_lease_locked_def lease_of_def lease_from_report_def effective_dir_io_def expected_sid_def
  by - (intro keeps_bind keeps_try keeps_query keeps_return keeps_call keeps_emit
      | split sum.split option.split bool.split if_split | intro conjI impI allI | blast)+

lemma keeps_slot [intro!]:
  "keeps inv (row_status row)" "keeps inv (collab_status sid)"
  "keeps inv (store_slot_result sid prompt cfg ctx src replace)" "keeps inv (store_slot sid prompt cfg ctx src replace)"
  "keeps inv (queue_or_status sid prompt cfg ctx src existing)"
  "keeps inv (prepare_existing_slot sid prompt cfg ctx src replace)"
  unfolding row_status_def collab_status_def store_slot_result_def store_slot_def queue_or_status_def prepare_existing_slot_def
  by - (intro keeps_bind keeps_ask keeps_lift keeps_query keeps_return keeps_fail keeps_store
      | split option.split if_split | intro conjI impI allI)+

lemma keeps_paste [intro!]: "keeps inv (paste_slot session row csid program)"
  unfolding paste_slot_def paste_claimed_row_def paste_io_def
  by - (intro keeps_bind keeps_ask keeps_call keeps_emit keeps_return keeps_fail keeps_statements keeps_slot
      | split option.split if_split | intro conjI impI allI)+

lemma keeps_executor [intro!]:
  "keeps inv (dispatch_claimed session prompt cfg ctx src claimed fence)"
  "keeps inv (dispatch_executor_locked session prompt cfg ctx src existing)"
  unfolding dispatch_executor_locked_def dispatch_reserved_def dispatch_claimed_def dispatch_started_def dispatch_failed_def Let_def
  by - (intro keeps_bind keeps_try keeps_ask keeps_return keeps_fail keeps_statements keeps_slot keeps_dispatch
        keeps_reservations keeps_lease
      | split option.split if_split sum.split dispatch_result.split | intro conjI impI allI)+

lemma keeps_gate: "keeps inv (dispatch_gate_with_context session prompt cfg src replace ctx)"
  unfolding dispatch_gate_with_context_def deliver_by_lease_def
  by - (intro keeps_bind keeps_ask keeps_return keeps_emit keeps_slot keeps_lease keeps_paste keeps_executor
      | split option.split if_split writer_lease.split prepared_slot.split dispatch_outcome.split
      | intro conjI impI allI)+

lemma keeps_queue_message: "keeps inv (queue_message session prompt cfg src replace)"
  unfolding queue_message_def
  by - (intro keeps_bind keeps_return keeps_emit keeps_slot | split store_queued_message_result.split
      | intro conjI impI allI)+

lemma keeps_cancel: "keeps inv (collab_cancel_queued sid)"
  unfolding collab_cancel_queued_def
  by - (intro keeps_bind keeps_return keeps_slot keeps_statements | split cancel_queued_message_result.split
      | intro conjI impI allI)+

lemma keeps_signal [intro!]: "keeps inv (signal_attempts n w sid)"
  by (induction n) (auto intro!: keeps_bind)

lemma keeps_find_session [intro!]: "keeps inv (find_session_io sid)"
  unfolding find_session_io_def by (intro keeps_bind keeps_query) (auto split: option.split)

lemma keeps_hold [intro!]:
  "keeps inv (hold_after_abnormal_writer row)" "keeps inv (resume_bound_pane session binding)"
  "keeps inv (hold_or_resume_bound_pane_locked session binding)"
  unfolding hold_after_abnormal_writer_def hold_or_resume_bound_pane_locked_def resume_bound_pane_def
    signal_resume_ready_with_retry_def expected_sid_def
  by - (intro keeps_bind keeps_return keeps_fail keeps_query keeps_call keeps_signal keeps_signaled keeps_is_signaled
        keeps_bindings keeps_statements
      | split option.split if_split bool.split | intro conjI impI allI)+

lemma keeps_drain [intro!]: "keeps inv (drain_session sid)"
  unfolding drain_session_def drain_row_def drain_by_lease_def refuse_row_def original_paste_binding_is_active_def
  by - (intro keeps_bind keeps_ask keeps_return keeps_query keeps_hold keeps_find_session keeps_statements keeps_lease
        keeps_paste keeps_executor
      | split option.split if_split writer_lease.split | intro conjI impI allI)+

lemma keeps_finished: "keeps inv (on_executor_finished sid st releases)"
  unfolding on_executor_finished_def
  by - (intro keeps_bind keeps_return keeps_query keeps_emit keeps_hold keeps_find_session keeps_drain
      | split option.split if_split | intro conjI impI allI)+

lemma keeps_reconciliation [intro!]:
  "keeps inv (reconcile_pasted_delivery row)" "keeps inv (reconcile_waiting_pane binding)"
  unfolding reconcile_pasted_delivery_def reconcile_waiting_pane_def Let_def effective_dir_io_def
  by - (intro keeps_bind keeps_return keeps_fail keeps_query keeps_call keeps_find_session keeps_statements keeps_bindings keeps_hold
      | split option.split if_split | intro conjI impI allI)+

lemma keeps_drain_all: "keeps inv drain_all"
  unfolding drain_all_def reconcile_waiting_panes_def reconcile_delivery_state_def
  by - (intro keeps_bind keeps_return keeps_try keeps_query keeps_ask keeps_call keeps_signaled keeps_for keeps_reconcile
        keeps_reconciliation keeps_drain
      | split sum.split if_split | intro conjI impI allI)+

end

section \<open>The service among the other writers\<close>

text \<open>
  One operation of the service, or a step of somebody else: the terminal launches a pane,
  another process takes or returns a reservation, executions, turns, links, sessions and
  workspaces change.
\<close>

inductive collab_step :: "'c collab_env \<Rightarrow> collab \<Rightarrow> collab \<Rightarrow> bool" for env :: "'c collab_env" where
  step_gate: "collab_step env s (snd (dispatch_gate_with_context session prompt cfg src replace ctx env s))"
| step_queue_message: "collab_step env s (snd (queue_message session prompt cfg src replace env s))"
| step_cancel_queued: "collab_step env s (snd (collab_cancel_queued sid env s))"
| step_finished: "collab_step env s (snd (on_executor_finished sid st releases env s))"
| step_drain: "collab_step env s (snd (drain_all env s))"
| step_launch: "record_launch (cb_bindings s) fresh now w sid csid via = Inr (b, bs)
    \<Longrightarrow> collab_step env s (s\<lparr>cb_bindings := bs\<rparr>)"
| step_reserve: "reservation_step (cb_reservations s) rows \<Longrightarrow> collab_step env s (s\<lparr>cb_reservations := rows\<rparr>)"
| step_outside: "collab_step env s (s\<lparr>cb_executions := eps, cb_turns := turns, cb_links := links,
    cb_sessions := sessions, cb_workspaces := workspaces\<rparr>)"

definition tables_inv :: "collab \<Rightarrow> bool" where
  "tables_inv s = (queue_inv (cb_queue s) \<and> reservation_inv (cb_reservations s) \<and> binding_inv (cb_bindings s))"

lemma acquire_inv: "reservation_inv rows \<Longrightarrow> reservation_inv (snd (acquire rows fence w holder now))"
  using reservation_machine.step_inv [OF _ step_acquire] by (simp add: acquire_def)

lemma release_inv: "reservation_inv rows \<Longrightarrow> reservation_inv (snd (release rows w fence))"
  using reservation_machine.step_inv [OF _ step_release] .

interpretation tables: collab_invariant tables_inv
  by unfold_locales
    (auto simp: tables_inv_def next_call_def acquire_inv release_inv release_binding_inv bind_discovered_inv
      dest: queue_step_inv_le)

text \<open>Every message that was ever stored is still there.\<close>

definition messages_kept :: "queue_table \<Rightarrow> collab \<Rightarrow> bool" where
  "messages_kept rows s = (queue_inv (cb_queue s) \<and> queue_le rows (cb_queue s))"

interpretation messages: collab_invariant "messages_kept rows" for rows
  by unfold_locales (auto simp: messages_kept_def next_call_def dest: queue_step_inv_le intro: queue_le_trans)

lemma collab_step_tables: "collab_step env s t \<Longrightarrow> tables_inv s \<Longrightarrow> tables_inv t"
proof (induction rule: collab_step.induct)
  case (step_gate s session prompt cfg src replace ctx)
  then show ?case by (rule keepsD [OF tables.keeps_gate])
next
  case (step_queue_message s session prompt cfg src replace)
  then show ?case by (rule keepsD [OF tables.keeps_queue_message])
next
  case (step_cancel_queued s sid)
  then show ?case by (rule keepsD [OF tables.keeps_cancel])
next
  case (step_finished s sid st releases)
  then show ?case by (rule keepsD [OF tables.keeps_finished])
next
  case (step_drain s)
  then show ?case by (rule keepsD [OF tables.keeps_drain_all])
next
  case (step_launch s fresh now w sid csid via b bs)
  then show ?case using record_launch_inv by (auto simp: tables_inv_def)
next
  case (step_reserve s rows)
  then show ?case using reservation_machine.step_inv by (auto simp: tables_inv_def)
qed (simp add: tables_inv_def)

lemma collab_step_messages: "collab_step env s t \<Longrightarrow> messages_kept rows s \<Longrightarrow> messages_kept rows t"
proof (induction rule: collab_step.induct)
  case (step_gate s session prompt cfg src replace ctx)
  then show ?case by (rule keepsD [OF messages.keeps_gate])
next
  case (step_queue_message s session prompt cfg src replace)
  then show ?case by (rule keepsD [OF messages.keeps_queue_message])
next
  case (step_cancel_queued s sid)
  then show ?case by (rule keepsD [OF messages.keeps_cancel])
next
  case (step_finished s sid st releases)
  then show ?case by (rule keepsD [OF messages.keeps_finished])
next
  case (step_drain s)
  then show ?case by (rule keepsD [OF messages.keeps_drain_all])
qed (simp_all add: messages_kept_def)

interpretation tables_machine: invariant_system "collab_step env" tables_inv for env
  by unfold_locales (rule collab_step_tables)

interpretation messages_machine: invariant_system "collab_step env" "messages_kept rows" for env rows
  by unfold_locales (rule collab_step_messages)

section \<open>The discipline of the effects\<close>

text \<open>
  A monitor of the events: it knows the lease derived last, as long as nothing has used or
  outdated it, and the reservation that is held.  It stops at a paste or a start that the
  lease, and for a start the reservation, does not allow.
\<close>

record monitor =
  mo_lease :: "(uuid \<times> writer_lease) option"
  mo_held :: "(uuid \<times> string) option"

fun watch :: "collab_event \<Rightarrow> monitor \<Rightarrow> monitor option" where
  "watch (EvLease sid lease) mo = Some (mo\<lparr>mo_lease := Some (sid, lease)\<rparr>)"
| "watch (EvReserved w fence) mo = Some (mo\<lparr>mo_lease := None, mo_held := Some (w, fence)\<rparr>)"
| "watch (EvReleased w fence) mo = Some (mo\<lparr>mo_held := None\<rparr>)"
| "watch (EvPaste sid w program prompt ok) mo =
     (case mo_lease mo of
        Some (sid', LeaseCli csid program') \<Rightarrow>
          if sid' = sid \<and> program' = program then Some (mo\<lparr>mo_lease := None\<rparr>) else None
      | _ \<Rightarrow> None)"
| "watch (EvDispatch sid w prompt ctx ok) mo =
     (if mo_lease mo = Some (sid, LeaseFree) \<and> map_option fst (mo_held mo) = Some w
      then Some (mo\<lparr>mo_lease := None\<rparr>) else None)"
| "watch (EvSignal w sid ok) mo = Some mo"
| "watch EvNotify mo = Some mo"

definition monitored :: "collab_event list \<Rightarrow> monitor option" where
  "monitored es = foldl (\<lambda>mo e. Option.bind mo (watch e)) (Some \<lparr>mo_lease = None, mo_held = None\<rparr>) es"

lemma monitored_snoc: "monitored (es @ [e]) = Option.bind (monitored es) (watch e)"
  by (simp add: monitored_def)

text \<open>Computations without events, and computations the monitor accepts from given states.\<close>

definition quiet_io :: "('c, 'a) io \<Rightarrow> bool" where
  "quiet_io m = (\<forall>es. keeps (\<lambda>s. cb_events s = es) m)"

definition guarded :: "(monitor \<Rightarrow> bool) \<Rightarrow> ('c, 'a) io \<Rightarrow> bool" where
  "guarded P m = (\<forall>env s mo. monitored (cb_events s) = Some mo \<longrightarrow> P mo \<longrightarrow> monitored (cb_events (snd (m env s))) \<noteq> None)"

lemma quiet_basic [intro!]:
  "quiet_io (return_io x)" "quiet_io (fail_io e)" "quiet_io (lift_io r)" "quiet_io (ask_io g)"
  "quiet_io (is_signaled_io i)"
  by (auto simp: quiet_io_def)

lemma quiet_bind [intro]: "quiet_io m \<Longrightarrow> (\<And>x. quiet_io (f x)) \<Longrightarrow> quiet_io (bind_io m f)"
  by (auto simp: quiet_io_def)

lemma quiet_try [intro!]: "quiet_io m \<Longrightarrow> quiet_io (try_io m)"
  by (auto simp: quiet_io_def)

lemma quiet_calls [intro!]:
  "quiet_io (call_io g)" "quiet_io (query_io f)" "quiet_io (queue_io h)" "quiet_io (binding_io b)"
  "quiet_io (signaled_io ids)" "quiet_io (reconcile_io now)"
  by (auto simp: quiet_io_def keeps_def call_io_def query_io_def queue_io_def binding_io_def signaled_io_def
      reconcile_io_def next_call_def split: sum.splits prod.splits)

lemma quiet_events: "quiet_io m \<Longrightarrow> m env s = (r, s1) \<Longrightarrow> cb_events s1 = cb_events s"
  using keepsD [of "\<lambda>t. cb_events t = cb_events s" m s env] by (simp add: quiet_io_def)

lemma guarded_quiet: "quiet_io m \<Longrightarrow> guarded P m"
  by (simp add: quiet_io_def keeps_def guarded_def)

lemma guarded_basic: "guarded P (return_io x)" "guarded P (fail_io e)"
  by (auto intro: guarded_quiet)

lemma guarded_weaken: "guarded P m \<Longrightarrow> (\<And>mo. Q mo \<Longrightarrow> P mo) \<Longrightarrow> guarded Q m"
  by (auto simp: guarded_def)

lemma guarded_if: "(b \<Longrightarrow> guarded P m) \<Longrightarrow> (\<not> b \<Longrightarrow> guarded P n) \<Longrightarrow> guarded P (if b then m else n)"
  by simp

lemma guarded_top: "guarded (\<lambda>_. True) m \<Longrightarrow> guarded P m"
  by (erule guarded_weaken) simp

lemma guarded_bind:
  assumes m: "guarded P m" and f: "\<And>x. guarded (\<lambda>_. True) (f x)"
  shows "guarded P (bind_io m f)"
  unfolding guarded_def
proof (intro allI impI)
  fix env and s :: collab and mo assume "monitored (cb_events s) = Some mo" "P mo"
  with m have "monitored (cb_events (snd (m env s))) \<noteq> None" by (simp add: guarded_def)
  with f show "monitored (cb_events (snd (bind_io m f env s))) \<noteq> None"
    by (auto simp: bind_io_def guarded_def split: prod.splits sum.splits)
qed

lemma guarded_bind_quiet:
  assumes m: "quiet_io m" and f: "\<And>x. guarded P (f x)"
  shows "guarded P (bind_io m f)"
  unfolding guarded_def
proof (intro allI impI)
  fix env and s :: collab and mo assume "monitored (cb_events s) = Some mo" "P mo"
  moreover have "cb_events (snd (m env s)) = cb_events s" using m by (simp add: quiet_io_def keeps_def)
  ultimately show "monitored (cb_events (snd (bind_io m f env s))) \<noteq> None"
    using f by (auto simp: bind_io_def guarded_def split: prod.splits sum.splits)
qed

lemma guarded_try: "guarded P m \<Longrightarrow> guarded P (try_io m)"
  by (auto simp: guarded_def try_io_def split: prod.splits) (metis option.distinct(1) snd_conv)

lemma guarded_emit: "(\<And>mo. P mo \<Longrightarrow> watch e mo \<noteq> None) \<Longrightarrow> guarded P (emit_io e)"
  by (auto simp: guarded_def emit_io_def monitored_snoc)

lemma guarded_for: "(\<And>x. guarded (\<lambda>_. True) (f x)) \<Longrightarrow> guarded (\<lambda>_. True) (for_io xs f)"
  by (induction xs) (auto intro: guarded_bind guarded_quiet)

lemma quiet_lease: "quiet_io (lease_of session)"
  unfolding lease_of_def lease_from_report_def effective_dir_io_def expected_sid_def
  by - (intro quiet_bind quiet_try quiet_calls quiet_basic
      | split sum.split option.split bool.split if_split | intro conjI impI allI)+

text \<open>After the derivation of a lease the monitor knows it.\<close>

lemma guarded_lease:
  assumes f: "\<And>lease. guarded (\<lambda>mo. mo_lease mo = Some (ss_id session, lease) \<and> Q (mo_held mo)) (f lease)"
  shows "guarded (\<lambda>mo. Q (mo_held mo)) (bind_io (derive_lease_locked session) (f :: writer_lease \<Rightarrow> ('c, 'a) io))"
  unfolding guarded_def
proof (intro allI impI)
  fix env :: "'c collab_env" and s :: collab and mo assume mo: "monitored (cb_events s) = Some mo" "Q (mo_held mo)"
  obtain r s1 where l: "lease_of session env s = (r, s1)" by (cases "lease_of session env s")
  have e: "cb_events s1 = cb_events s" using quiet_events [OF quiet_lease l] .
  show "monitored (cb_events (snd (bind_io (derive_lease_locked session) f env s))) \<noteq> None"
  proof (cases r)
    case (Inl err)
    with l e mo show ?thesis by (simp add: bind_io_def derive_lease_locked_def)
  next
    case (Inr lease)
    let ?s2 = "s1\<lparr>cb_events := cb_events s1 @ [EvLease (ss_id session) lease]\<rparr>"
    have "bind_io (derive_lease_locked session) f env s = f lease env ?s2"
      using l Inr by (simp add: bind_io_def derive_lease_locked_def emit_io_def return_io_def)
    moreover have "monitored (cb_events ?s2) = Some (mo\<lparr>mo_lease := Some (ss_id session, lease)\<rparr>)"
      using mo e by (simp add: monitored_snoc)
    ultimately show ?thesis using f [of lease] mo(2) by (simp add: guarded_def)
  qed
qed

lemma quiet_slot:
  "quiet_io (row_status row)" "quiet_io (collab_status sid)"
  "quiet_io (store_slot_result sid prompt cfg ctx src replace)" "quiet_io (store_slot sid prompt cfg ctx src replace)"
  "quiet_io (queue_or_status sid prompt cfg ctx src existing)"
  "quiet_io (prepare_existing_slot sid prompt cfg ctx src replace)"
  unfolding row_status_def collab_status_def store_slot_result_def store_slot_def queue_or_status_def prepare_existing_slot_def
  by - (intro quiet_bind quiet_calls quiet_basic | split option.split if_split | intro conjI impI allI)+

lemma guarded_release: "guarded (\<lambda>_. True) (release_io w fence)"
  by (auto simp: guarded_def release_io_def next_call_def monitored_snoc split: prod.splits)

lemma guarded_paste_slot:
  "guarded (\<lambda>mo. \<exists>c. mo_lease mo = Some (ss_id session, LeaseCli c program)) (paste_slot session row csid program)"
proof -
  have paste: "guarded (\<lambda>mo. \<exists>c. mo_lease mo = Some (ss_id session, LeaseCli c program)) (paste_io session program p)" for p
    unfolding paste_io_def
    by (intro guarded_bind_quiet [OF quiet_calls(1)] guarded_bind guarded_emit guarded_quiet quiet_basic) auto
  show ?thesis
    unfolding paste_slot_def paste_claimed_row_def
    by (intro guarded_bind_quiet quiet_basic quiet_calls)
      (auto intro!: guarded_quiet quiet_bind quiet_slot guarded_bind [OF paste] quiet_basic quiet_calls split: option.split)
qed

lemma guarded_dispatch:
  "guarded (\<lambda>mo. mo_lease mo = Some (ss_id session, LeaseFree) \<and> map_option fst (mo_held mo) = Some (ss_workspace_id session))
     (dispatch_io session prompt cfg ctx)"
  by (auto simp: guarded_def dispatch_io_def next_call_def monitored_snoc split: dispatch_result.splits)

lemma guarded_dispatch_claimed:
  "guarded (\<lambda>mo. mo_lease mo = Some (ss_id session, LeaseFree) \<and> map_option fst (mo_held mo) = Some (ss_workspace_id session))
     (dispatch_claimed session prompt cfg ctx src claimed fence)"
  unfolding dispatch_claimed_def dispatch_started_def dispatch_failed_def Let_def
  by (rule guarded_bind [OF guarded_dispatch], rule guarded_bind [OF guarded_try [OF guarded_release]], rule guarded_quiet)
    (intro quiet_bind quiet_calls quiet_basic quiet_slot
      | split option.split dispatch_result.split if_split | intro conjI impI allI)+

lemma guarded_acquire:
  assumes got: "\<And>r. guarded (\<lambda>mo. map_option fst (mo_held mo) = Some w) (f (Inr (Some r)))"
    and none: "guarded P (f (Inr None))" and err: "\<And>e. guarded P (f (Inl e))"
  shows "guarded P (bind_io (try_io (acquire_io w)) f)"
  using got none err
  by (auto simp: guarded_def bind_io_def try_io_def acquire_io_def next_call_def monitored_snoc
      split: prod.splits option.splits)

lemma guarded_executor: "guarded P (dispatch_executor_locked session prompt cfg ctx src existing)"
  unfolding dispatch_executor_locked_def dispatch_reserved_def
proof (rule guarded_acquire, goal_cases)
  case (1 r)
  show ?case
    unfolding sum.case option.case
  proof (rule guarded_lease, goal_cases)
    case (1 lease)
    show ?case
    proof (cases "lease = LeaseFree")
      case False
      then show ?thesis
        by (simp add: guarded_bind [OF guarded_top [OF guarded_release] guarded_quiet [OF quiet_slot(5)]])
    next
      case True
      note giveback = guarded_bind [OF guarded_try [OF guarded_top [OF guarded_release]] guarded_quiet]
      show ?thesis
      proof (cases existing)
        case None
        show ?thesis
          unfolding True None by (simp only: option.case simp_thms if_False) (rule guarded_dispatch_claimed)
      next
        case (Some row)
        show ?thesis
          unfolding True Some option.case simp_thms if_False
          by (intro guarded_bind_quiet quiet_basic quiet_calls)
            (simp only: split: option.split, intro conjI impI allI guarded_dispatch_claimed giveback quiet_bind quiet_slot quiet_basic)
      qed
    qed
  qed
qed (auto intro: guarded_quiet quiet_slot)

lemma guarded_deliver:
  "guarded (\<lambda>mo. mo_lease mo = Some (ss_id session, lease) \<and> Q (mo_held mo))
     (deliver_by_lease session prompt cfg src ctx existing disabled lease)"
proof (cases lease)
  case (LeaseCli csid program)
  have paste: "guarded (\<lambda>mo. mo_lease mo = Some (ss_id session, LeaseCli csid program) \<and> Q (mo_held mo))
      (paste_slot session row csid program)" for row
    by (rule guarded_weaken [OF guarded_paste_slot]) auto
  show ?thesis
    unfolding LeaseCli deliver_by_lease_def
    by (auto intro!: guarded_quiet quiet_slot guarded_bind_quiet [OF _ paste] split: option.split)
qed (auto simp: deliver_by_lease_def intro: guarded_quiet quiet_slot guarded_executor)

lemma guarded_notify: "guarded P (emit_io EvNotify)"
  by (rule guarded_emit) simp

lemma guarded_gate: "guarded (\<lambda>_. True) (dispatch_gate_with_context session prompt cfg src replace ctx)"
proof -
  have rest: "guarded (\<lambda>_. True) (bind_io (derive_lease_locked session) (\<lambda>lease.
      bind_io (ask_io ce_routing_disabled) (\<lambda>disabled.
      bind_io (deliver_by_lease session prompt cfg src ctx existing disabled lease) (\<lambda>outcome.
      bind_io (case outcome of OutcomeQueued _ \<Rightarrow> emit_io EvNotify | _ \<Rightarrow> return_io ()) (\<lambda>_. return_io outcome)))))"
    for existing
    by (rule guarded_lease, rule guarded_bind_quiet [OF quiet_basic(4)], rule guarded_bind [OF guarded_deliver])
      (auto intro!: guarded_bind guarded_notify guarded_basic split: dispatch_outcome.split)
  show ?thesis
    unfolding dispatch_gate_with_context_def
    by (rule guarded_bind_quiet [OF quiet_slot(6)])
      (simp only: split: prepared_slot.split, intro conjI impI allI rest guarded_quiet quiet_basic)
qed

lemma guarded_queue_message: "guarded (\<lambda>_. True) (queue_message session prompt cfg src replace)"
  unfolding queue_message_def
  by (rule guarded_bind_quiet [OF quiet_slot(3)])
    (auto intro!: guarded_bind_quiet [OF quiet_slot(1)] guarded_bind [OF guarded_notify] guarded_basic
      split: store_queued_message_result.split)

lemma guarded_cancel: "guarded (\<lambda>_. True) (collab_cancel_queued sid)"
  unfolding collab_cancel_queued_def
  by (auto intro!: guarded_quiet quiet_bind quiet_slot split: cancel_queued_message_result.split)

lemma guarded_signal: "guarded (\<lambda>_. True) (signal_attempts n w sid)"
proof (induction n)
  case (Suc n)
  have "guarded (\<lambda>_. True) (emit_io (EvSignal w sid ok))" for ok by (rule guarded_emit) simp
  with Suc show ?case by (auto intro!: guarded_bind_quiet [OF quiet_calls(1)] guarded_bind guarded_basic)
qed (simp add: guarded_basic)

lemma quiet_hold: "quiet_io (hold_after_abnormal_writer row)"
  unfolding hold_after_abnormal_writer_def by (auto intro!: quiet_bind)

lemma quiet_find_session: "quiet_io (find_session_io sid)"
  unfolding find_session_io_def by (auto intro!: quiet_bind split: option.split)

lemma guarded_resume: "guarded (\<lambda>_. True) (hold_or_resume_bound_pane_locked session binding)"
proof -
  have "quiet_io (expected_sid sid)" for sid
    unfolding expected_sid_def by (auto intro!: quiet_bind split: option.split)
  then have "guarded (\<lambda>_. True) (resume_bound_pane session binding)"
    unfolding resume_bound_pane_def signal_resume_ready_with_retry_def
    by (intro guarded_bind_quiet)
      (auto intro!: guarded_basic guarded_bind [OF guarded_signal] guarded_bind_quiet [OF quiet_basic(1)]
        guarded_bind_quiet [OF quiet_calls(4)] guarded_bind_quiet [OF quiet_calls(5)] split: option.split)
  then show ?thesis
    unfolding hold_or_resume_bound_pane_locked_def
    by (intro guarded_bind_quiet [OF quiet_calls(1)])
      (auto intro!: guarded_basic guarded_bind_quiet [OF quiet_calls(1)] guarded_bind_quiet [OF quiet_basic(5)]
        guarded_bind_quiet [OF quiet_calls(4)] guarded_bind_quiet [OF quiet_calls(5)] split: option.split bool.split)
qed

lemma guarded_drain: "guarded (\<lambda>_. True) (drain_session sid)"
proof -
  have by_lease: "guarded (\<lambda>mo. mo_lease mo = Some (ss_id session, lease) \<and> True)
      (drain_by_lease session row cfg ctx lease)" for session row cfg ctx lease
  proof (cases lease)
    case (LeaseCli csid program)
    have orig: "quiet_io (original_paste_binding_is_active row)"
      unfolding original_paste_binding_is_active_def by (auto split: option.split)
    have paste: "guarded (\<lambda>mo. mo_lease mo = Some (ss_id session, LeaseCli csid program) \<and> True)
        (paste_slot session row csid program)"
      by (rule guarded_weaken [OF guarded_paste_slot]) auto
    show ?thesis
      unfolding LeaseCli drain_by_lease_def writer_lease.case
      by (intro guarded_if guarded_basic guarded_bind_quiet [OF orig] guarded_bind [OF paste])
  qed (auto simp: drain_by_lease_def intro!: guarded_basic guarded_bind [OF guarded_executor])
  have "guarded (\<lambda>_. True) (drain_row row)" for row
    unfolding drain_row_def refuse_row_def
    by (intro guarded_bind_quiet [OF quiet_find_session] guarded_bind_quiet [OF quiet_basic(4)])
      (auto intro!: guarded_basic guarded_bind_quiet [OF quiet_calls(3)] guarded_bind_quiet [OF quiet_basic(4)] guarded_lease [where Q = "\<lambda>_. True", simplified]
        by_lease [simplified] split: option.split)
  then show ?thesis
    unfolding drain_session_def
    by (auto intro!: guarded_basic guarded_bind_quiet [OF quiet_basic(4)] guarded_bind_quiet [OF quiet_calls(2)]
        guarded_bind_quiet [OF quiet_hold] split: option.split)
qed

lemma guarded_finished: "guarded (\<lambda>_. True) (on_executor_finished sid st releases)"
proof -
  have abnormal: "quiet_io (case active of
      Some row \<Rightarrow> if qm_state row = Queued then hold_after_abnormal_writer row else return_io False | None \<Rightarrow> return_io False)"
    for active
    by (auto intro: quiet_hold split: option.split)
  have pane: "guarded (\<lambda>_. True) (case bound of
      Some binding \<Rightarrow> hold_or_resume_bound_pane_locked session binding | None \<Rightarrow> return_io False)" for bound session
    by (auto intro: guarded_resume guarded_quiet split: option.split)
  have "guarded (\<lambda>_. True) (bind_io (drain_session sid) (\<lambda>started. bind_io (emit_io EvNotify) (\<lambda>_. return_io started)))"
    by (intro guarded_bind guarded_drain guarded_notify guarded_quiet quiet_basic)
  moreover have "guarded (\<lambda>_. True) (bind_io (emit_io EvNotify) (\<lambda>_. return_io x))" for x
    by (intro guarded_bind guarded_notify guarded_quiet quiet_basic)
  ultimately show ?thesis
    unfolding on_executor_finished_def
    by (auto intro!: guarded_bind_quiet [OF quiet_calls(2)] guarded_bind_quiet [OF abnormal]
        guarded_bind_quiet [OF quiet_find_session] guarded_bind [OF pane] guarded_basic)
qed

lemma guarded_drain_all: "guarded (\<lambda>_. True) drain_all"
proof -
  have pasted: "quiet_io (reconcile_pasted_delivery row)" for row
    unfolding reconcile_pasted_delivery_def Let_def effective_dir_io_def
    by (intro quiet_bind quiet_calls quiet_basic quiet_find_session | split option.split if_split | intro conjI impI allI)+
  have pane: "guarded (\<lambda>_. True) (reconcile_waiting_pane b)" for b
    unfolding reconcile_waiting_pane_def
    by (auto intro!: guarded_basic guarded_bind_quiet [OF quiet_calls(2)] guarded_bind [OF guarded_resume] split: option.split)
  have "guarded (\<lambda>_. True) (reconcile_waiting_panes bs)" for bs
    unfolding reconcile_waiting_panes_def
    by (auto intro!: guarded_bind_quiet [OF quiet_calls(5)] guarded_for guarded_bind [OF guarded_try [OF pane]] guarded_basic)
  moreover have "guarded (\<lambda>_. True) (reconcile_delivery_state rows)" for rows
    unfolding reconcile_delivery_state_def
    by (intro guarded_bind_quiet quiet_calls quiet_try)
      (auto intro!: guarded_basic guarded_for guarded_bind_quiet [OF quiet_try [OF pasted]] split: sum.split)
  ultimately show ?thesis
    unfolding drain_all_def
    by (intro guarded_bind_quiet [OF quiet_try [OF quiet_calls(2)]])
      (auto intro!: guarded_basic guarded_quiet [OF quiet_calls(5)] guarded_bind_quiet [OF quiet_try [OF quiet_calls(2)]]
        guarded_bind_quiet [OF quiet_basic(4)] guarded_bind guarded_for guarded_try guarded_drain split: sum.split)
qed

lemma collab_step_monitored: "collab_step env s t \<Longrightarrow> monitored (cb_events s) \<noteq> None \<Longrightarrow> monitored (cb_events t) \<noteq> None"
proof (induction rule: collab_step.induct)
  case (step_gate s session prompt cfg src replace ctx)
  then show ?case using guarded_gate [of session prompt cfg src replace ctx] by (auto simp: guarded_def)
next
  case (step_queue_message s session prompt cfg src replace)
  then show ?case using guarded_queue_message [of session prompt cfg src replace] by (auto simp: guarded_def)
next
  case (step_cancel_queued s sid)
  then show ?case using guarded_cancel [of sid, unfolded guarded_def] by fastforce
next
  case (step_finished s sid st releases)
  then show ?case using guarded_finished [of sid st releases, unfolded guarded_def] by fastforce
next
  case (step_drain s)
  then show ?case using guarded_drain_all [unfolded guarded_def] by fastforce
qed simp_all

interpretation monitor_machine: invariant_system "collab_step env" "\<lambda>s. monitored (cb_events s) \<noteq> None" for env
  by unfold_locales (rule collab_step_monitored)

section \<open>Properties of the effects\<close>

fun uses_lease :: "collab_event \<Rightarrow> bool" where
  "uses_lease (EvLease _ _) = True"
| "uses_lease (EvReserved _ _) = True"
| "uses_lease (EvPaste _ _ _ _ _) = True"
| "uses_lease (EvDispatch _ _ _ _ _) = True"
| "uses_lease _ = False"

fun moves_reservation :: "collab_event \<Rightarrow> bool" where
  "moves_reservation (EvReserved _ _) = True"
| "moves_reservation (EvReleased _ _) = True"
| "moves_reservation _ = False"

lemma monitored_append: "monitored (xs @ ys) \<noteq> None \<Longrightarrow> monitored xs \<noteq> None"
proof (induction ys rule: rev_induct)
  case (snoc y ys)
  then show ?case unfolding append_assoc [symmetric] monitored_snoc
    by (auto simp: bind_eq_Some_conv)
qed simp

lemma watch_paste:
  "watch (EvPaste sid w program prompt ok) mo = Some m \<Longrightarrow> \<exists>csid. mo_lease mo = Some (sid, LeaseCli csid program)"
  by (auto split: option.splits prod.splits writer_lease.splits if_splits)

lemma lease_known:
  "monitored xs = Some mo \<Longrightarrow> mo_lease mo = Some (sid, lease)
    \<Longrightarrow> \<exists>pre post. xs = pre @ EvLease sid lease # post \<and> (\<forall>e\<in>set post. \<not> uses_lease e)"
proof (induction xs arbitrary: mo rule: rev_induct)
  case (snoc e xs)
  then obtain m where m: "monitored xs = Some m" "watch e m = Some mo" by (auto simp: monitored_snoc bind_eq_Some_conv)
  show ?case
  proof (cases "uses_lease e")
    case True
    then have "e = EvLease sid lease" using m(2) snoc.prems(2)
      by (cases e) (auto split: option.splits prod.splits writer_lease.splits if_splits)
    then show ?thesis by fastforce
  next
    case False
    then have "mo_lease m = Some (sid, lease)" using m(2) snoc.prems(2) by (cases e) auto
    then obtain pre post where "xs = pre @ EvLease sid lease # post" "\<forall>e\<in>set post. \<not> uses_lease e"
      using snoc.IH [OF m(1)] by blast
    with False show ?thesis by (intro exI [of _ pre] exI [of _ "post @ [e]"]) auto
  qed
qed (simp add: monitored_def)

lemma reservation_known:
  "monitored xs = Some mo \<Longrightarrow> mo_held mo = Some (w, fence)
    \<Longrightarrow> \<exists>pre post. xs = pre @ EvReserved w fence # post \<and> (\<forall>e\<in>set post. \<not> moves_reservation e)"
proof (induction xs arbitrary: mo rule: rev_induct)
  case (snoc e xs)
  then obtain m where m: "monitored xs = Some m" "watch e m = Some mo" by (auto simp: monitored_snoc bind_eq_Some_conv)
  show ?case
  proof (cases "moves_reservation e")
    case True
    then have "e = EvReserved w fence" using m(2) snoc.prems(2) by (cases e) auto
    then show ?thesis by fastforce
  next
    case False
    then have "mo_held m = Some (w, fence)" using m(2) snoc.prems(2)
      by (cases e) (auto split: option.splits prod.splits writer_lease.splits if_splits)
    then obtain pre post where "xs = pre @ EvReserved w fence # post" "\<forall>e\<in>set post. \<not> moves_reservation e"
      using snoc.IH [OF m(1)] by blast
    with False show ?thesis by (intro exI [of _ pre] exI [of _ "post @ [e]"]) auto
  qed
qed (simp add: monitored_def)

text \<open>A list that is split at two members of which the first does not occur after the second.\<close>

lemma split_twice:
  assumes "pre1 @ x # post1 = pre2 @ y # post2" and "x \<noteq> y" and "x \<notin> set post2"
  shows "\<exists>mid. post1 = mid @ y # post2"
proof -
  from assms(1) consider us where "pre1 = pre2 @ us" "us @ x # post1 = y # post2"
    | us where "pre1 @ us = pre2" "x # post1 = us @ y # post2"
    by (auto simp: append_eq_append_conv2)
  then show ?thesis
  proof cases
    case 1
    with assms(2,3) show ?thesis by (cases us) auto
  next
    case 2
    with assms(2) show ?thesis by (cases us) auto
  qed
qed

lemma dispatch_history:
  assumes "monitored (xs @ EvDispatch sid w prompt ctx ok # ys) \<noteq> None"
  shows "\<exists>pre mid post fence. xs = pre @ EvReserved w fence # mid @ EvLease sid LeaseFree # post
    \<and> (\<forall>e\<in>set (mid @ EvLease sid LeaseFree # post). \<not> moves_reservation e) \<and> (\<forall>e\<in>set post. \<not> uses_lease e)"
proof -
  have "monitored (xs @ [EvDispatch sid w prompt ctx ok]) \<noteq> None" using monitored_append [of "xs @ [_]" ys] assms by simp
  then obtain mo fence where mo: "monitored xs = Some mo" "mo_lease mo = Some (sid, LeaseFree)" "mo_held mo = Some (w, fence)"
    by (auto simp: monitored_snoc bind_eq_Some_conv split: if_splits option.splits)
  obtain pre1 post1 where r: "xs = pre1 @ EvReserved w fence # post1" "\<forall>e\<in>set post1. \<not> moves_reservation e"
    using reservation_known [OF mo(1,3)] by blast
  obtain pre2 post2 where l: "xs = pre2 @ EvLease sid LeaseFree # post2" "\<forall>e\<in>set post2. \<not> uses_lease e"
    using lease_known [OF mo(1,2)] by blast
  have "EvReserved w fence \<notin> set post2" using l(2) by auto
  then obtain mid where "post1 = mid @ EvLease sid LeaseFree # post2"
    using split_twice [of pre1 "EvReserved w fence" post1 pre2 "EvLease sid LeaseFree" post2] r(1) l(1) by auto
  with r l show ?thesis by blast
qed

lemma paste_history:
  assumes "monitored (xs @ EvPaste sid w program prompt ok # ys) \<noteq> None"
  shows "\<exists>pre post csid. xs = pre @ EvLease sid (LeaseCli csid program) # post \<and> (\<forall>e\<in>set post. \<not> uses_lease e)"
proof -
  have "monitored (xs @ [EvPaste sid w program prompt ok]) \<noteq> None" using monitored_append [of "xs @ [_]" ys] assms by simp
  then obtain mo csid where mo: "monitored xs = Some mo" "mo_lease mo = Some (sid, LeaseCli csid program)"
    by (auto simp: monitored_snoc bind_eq_Some_conv simp del: watch.simps dest: watch_paste)
  then show ?thesis using lease_known by blast
qed

end
