(* ===== verification/CollabDelivery.thy ===== *)
theory CollabDelivery
  imports CollabSafety "HOL-Library.Sublist"
begin

text \<open>
  What a caller of the collaboration service may rely on: the evidence behind a lease, the
  effects of an operation, and that an accepted prompt is started, pasted or kept.
\<close>

section \<open>Reading computations\<close>

lemma bind_io_Inr: "bind_io m f env s = (Inr y, t) \<longleftrightarrow> (\<exists>x s1. m env s = (Inr x, s1) \<and> f x env s1 = (Inr y, t))"
  by (auto simp: bind_io_def split: prod.splits sum.splits)

lemma try_io_Inr: "try_io m env s = (Inr r, t) \<longleftrightarrow> m env s = (r, t)"
  by (auto simp: try_io_def split: prod.splits)

lemma return_io_Inr: "return_io x env s = (Inr y, t) \<longleftrightarrow> y = x \<and> t = s"
  by (auto simp: return_io_def)

lemma fail_io_Inr: "fail_io e env s = (Inr y, t) \<longleftrightarrow> False"
  by (simp add: fail_io_def)

lemma ask_io_Inr: "ask_io f env s = (Inr y, t) \<longleftrightarrow> y = f env \<and> t = s"
  by (auto simp: ask_io_def)

lemma call_io_Inr: "call_io f env s = (Inr y, t) \<longleftrightarrow> y = f env (cb_calls s) \<and> t = next_call s"
  by (auto simp: call_io_def)

lemma query_io_Inr: "query_io f env s = (Inr y, t) \<longleftrightarrow> ce_db_ok env (cb_calls s) \<and> y = f s \<and> t = next_call s"
  by (auto simp: query_io_def)

lemma queue_io_Inr:
  "queue_io f env s = (Inr y, t) \<longleftrightarrow> ce_db_ok env (cb_calls s)
    \<and> (\<exists>rows. f (ce_now env (cb_calls s)) (ce_fresh env (cb_calls s)) (cb_queue s) = Inr (y, rows)
         \<and> t = next_call (s\<lparr>cb_queue := rows\<rparr>))"
  by (auto simp: queue_io_def split: sum.splits)

lemma emit_io_Inr: "emit_io e env s = (Inr y, t) \<longleftrightarrow> t = s\<lparr>cb_events := cb_events s @ [e]\<rparr>"
  by (auto simp: emit_io_def)

lemma signaled_io_Inr: "signaled_io f env s = (Inr y, t) \<longleftrightarrow> t = s\<lparr>cb_signaled := f (cb_signaled s)\<rparr>"
  by (auto simp: signaled_io_def)

lemma is_signaled_io_Inr: "is_signaled_io i env s = (Inr y, t) \<longleftrightarrow> y = (i \<in> cb_signaled s) \<and> t = s"
  by (auto simp: is_signaled_io_def)

lemmas io_iffs = bind_io_Inr try_io_Inr return_io_Inr fail_io_Inr ask_io_Inr call_io_Inr query_io_Inr queue_io_Inr
  emit_io_Inr signaled_io_Inr is_signaled_io_Inr

lemma bind_try: "bind_io (try_io m) f env s = (case m env s of (r, s1) \<Rightarrow> f r env s1)"
  by (simp add: bind_io_def try_io_def split: prod.splits)

lemma bind_call: "bind_io (call_io g) f env s = f (g env (cb_calls s)) env (next_call s)"
  by (simp add: bind_io_def call_io_def)

lemma next_call_sel [simp]:
  "cb_queue (next_call s) = cb_queue s" "cb_events (next_call s) = cb_events s" "cb_executions (next_call s) = cb_executions s"
  "cb_bindings (next_call s) = cb_bindings s" "cb_workspaces (next_call s) = cb_workspaces s"
  "cb_reservations (next_call s) = cb_reservations s" "cb_signaled (next_call s) = cb_signaled s"
  by (simp_all add: next_call_def)

section \<open>The evidence behind a lease\<close>

text \<open>A lease other than the failure answers comes from the report of a probe.\<close>

lemma lease_of_probe:
  fixes s :: collab and env :: "'c collab_env"
  assumes l: "lease_of session env s = (Inr lease, s1)" and not_busy: "lease \<noteq> LeaseBusy" "lease \<noteq> LeaseExecutor"
  shows "\<not> has_running_coding_agent_for_session (cb_executions s) (ss_id session)
    \<and> (\<exists>n dir expected s2. lease_from_report session (find_active_for_workspace (cb_bindings s) (ss_workspace_id session)) expected
        (ce_probe env n (ss_workspace_id session) dir expected
           (find_active_for_workspace (cb_bindings s) (ss_workspace_id session)) False) env s2 = (Inr lease, s1))"
  using l not_busy unfolding lease_of_def effective_dir_io_def
  by (auto simp: bind_call bind_try return_io_Inr query_io_Inr split: if_splits sum.splits option.splits bool.splits prod.splits)

text \<open>
  C3.  The lease fails closed.  A lease of the terminal is derived only when no executor runs
  for the session, the pane of the workspace is bound to this very session, and a successful
  probe saw the named agent running there, resumed with exactly the session's native session
  or, for a session that has none, started without one.  The workspace is free only when no
  executor runs and a successful probe found no pane or no agent in it.  Anything else, and in
  particular every failed database call or probe, gives neither.
\<close>

theorem lease_evidence:
  fixes s :: collab and env :: "'c collab_env"
  assumes "lease_of session env s = (Inr lease, s1)" and "lease = LeaseFree \<or> (\<exists>csid program. lease = LeaseCli csid program)"
  shows "\<not> has_running_coding_agent_for_session (cb_executions s) (ss_id session)
    \<and> (\<exists>n dir expected report.
         report = ce_probe env n (ss_workspace_id session) dir expected
           (find_active_for_workspace (cb_bindings s) (ss_workspace_id session)) False
         \<and> \<not> pr_probe_failed report
         \<and> (lease = LeaseFree \<longrightarrow> \<not> pr_pane_session_exists report \<or> pr_agent_running report = Some False)
         \<and> (\<forall>csid program. lease = LeaseCli csid program \<longrightarrow>
              pr_pane_session_exists report \<and> pr_agent_running report = Some True \<and> pr_agent_program report = Some program
              \<and> csid = expected
              \<and> (\<exists>b. find_active_for_workspace (cb_bindings s) (ss_workspace_id session) = Some b \<and> pb_session_id b = ss_id session
                   \<and> (case csid of Some sid \<Rightarrow> pr_sid_evidence report = ConfirmedResume sid
                       | None \<Rightarrow> pr_sid_evidence report = NoResumeArg \<and> pb_claude_session_id b = None))))"
proof -
  let ?binding = "find_active_for_workspace (cb_bindings s) (ss_workspace_id session)"
  have not_busy: "lease \<noteq> LeaseBusy" "lease \<noteq> LeaseExecutor" "lease \<noteq> LeaseCliAmbiguous" using assms(2) by auto
  obtain n dir expected s2 where
    idle: "\<not> has_running_coding_agent_for_session (cb_executions s) (ss_id session)" and
    rep: "lease_from_report session ?binding expected
      (ce_probe env n (ss_workspace_id session) dir expected ?binding False) env s2 = (Inr lease, s1)"
    using lease_of_probe [OF assms(1) not_busy(1,2)] by blast
  define report where "report = ce_probe env n (ss_workspace_id session) dir expected ?binding False"
  have ok: "\<not> pr_probe_failed report"
    using rep not_busy by (auto simp: report_def lease_from_report_def return_io_Inr split: if_splits)
  have free: "\<not> pr_pane_session_exists report \<or> pr_agent_running report = Some False" if "lease = LeaseFree"
    using rep ok that
    by (auto simp: report_def [symmetric] lease_from_report_def io_iffs pane_lease_def
        split: if_splits option.splits bool.splits sid_evidence.splits prod.splits)
  have cli: "pr_pane_session_exists report \<and> pr_agent_running report = Some True \<and> pr_agent_program report = Some program
      \<and> csid = expected
      \<and> (\<exists>b. ?binding = Some b \<and> pb_session_id b = ss_id session
           \<and> (case csid of Some sid \<Rightarrow> pr_sid_evidence report = ConfirmedResume sid
               | None \<Rightarrow> pr_sid_evidence report = NoResumeArg \<and> pb_claude_session_id b = None))"
    if "lease = LeaseCli csid program" for csid program
    using rep ok that
    by (auto simp: report_def [symmetric] lease_from_report_def io_iffs pane_lease_def
        split: if_splits option.splits bool.splits sid_evidence.splits prod.splits)
  show ?thesis
    using idle ok free cli unfolding report_def by blast
qed

section \<open>An accepted prompt is never lost\<close>

text \<open>
  The message of a session with a given prompt, in a given state; and Hoare triples over the
  queue and the events, for the runs that return a value.
\<close>

definition slot :: "uuid \<Rightarrow> string \<Rightarrow> queued_message_state \<Rightarrow> uuid \<Rightarrow> queue_table \<Rightarrow> bool" where
  "slot sid prompt st i rows =
     (queue_inv rows \<and> (\<exists>r\<in>set rows. qm_id r = i \<and> qm_session_id r = sid \<and> qm_prompt r = prompt \<and> qm_state r = st))"

lemma slot_find_active:
  assumes "slot sid prompt st i rows" and "active_state st"
  shows "\<exists>r. find_active rows sid = Some r \<and> qm_id r = i \<and> qm_prompt r = prompt \<and> qm_state r = st"
  using assms find_active_eq by (fastforce simp: slot_def)

lemma slot_update_where:
  assumes inv: "queue_inv (update_where p f rows)" and sl: "slot sid prompt st i rows"
    and hit: "\<And>r. qm_id r = i \<Longrightarrow> qm_state r = st \<Longrightarrow> p r"
    and f: "\<And>r. qm_id (f r) = qm_id r \<and> qm_session_id (f r) = qm_session_id r \<and> qm_prompt (f r) = qm_prompt r \<and> qm_state (f r) = st'"
  shows "slot sid prompt st' i (update_where p f rows)"
  using assms by (auto simp: slot_def bex_update_where)

lemma slot_claim:
  assumes sl: "slot sid prompt Queued i rows" and c: "claim rows now i csid eo po = (found, rows')" and inv: "queue_inv rows'"
  shows "\<exists>r. found = Some r \<and> qm_id r = i \<and> qm_prompt r = prompt \<and> slot sid prompt Pasting i rows'"
proof -
  have rows': "rows' = update_where (queued_row i) (claim_set now csid eo po) rows"
    using c by (auto simp: claim_def Let_def split: if_splits)
  have "slot sid prompt Pasting i rows'"
    unfolding rows' by (rule slot_update_where [OF inv [unfolded rows'] sl]) (auto simp: queued_row_def claim_set_def)
  moreover have "\<exists>r\<in>set rows. queued_row i r" using sl by (auto simp: slot_def queued_row_def)
  then have "found = find_by_id rows' i" using c rows' by (auto simp: claim_def Let_def sql_simps split: if_splits)
  ultimately show ?thesis using find_by_id_eq by (fastforce simp: slot_def)
qed

lemma slot_requeue:
  assumes sl: "slot sid prompt Pasting i rows"
  shows "slot sid prompt Queued i (snd (requeue rows now i reason))"
  unfolding requeue_def snd_conv
  by (rule slot_update_where [OF _ sl])
    (use sl in \<open>auto simp: slot_def in_delivery_def requeue_set_def intro: requeue_stmt.keeps_inv\<close>)

lemma slot_requeued:
  "slot sid prompt Pasting i rows \<Longrightarrow> requeue rows now i reason = (x, rows') \<Longrightarrow> slot sid prompt Queued i rows'"
  using slot_requeue [of sid prompt i rows now reason] by simp

lemma slot_failure:
  assumes sl: "slot sid prompt Queued i rows"
  shows "slot sid prompt Queued i (snd (set_failure_reason rows now i reason))"
proof -
  have "queue_inv (update_where (queued_row i) (failure_set now reason) rows)"
    using sl by (auto simp: slot_def intro: failure_stmt.keeps_inv)
  with sl show ?thesis
    by (auto simp: slot_def set_failure_reason_def bex_update_where failure_set_def)
qed

definition slot_free :: "uuid \<Rightarrow> bool \<Rightarrow> queue_table \<Rightarrow> bool" where
  "slot_free sid replace rows =
     (queue_inv rows \<and> (case find_active rows sid of None \<Rightarrow> True | Some r \<Rightarrow> replace \<and> qm_state r = Queued))"

lemma slot_store:
  assumes free: "slot_free sid replace rows"
    and st: "store_with_context rows fresh now sid prompt cfg ctx src replace = Inr (res, rows')"
  shows "\<exists>row. res = Stored row \<and> slot sid prompt Queued (qm_id row) rows'"
proof -
  have inv: "queue_inv rows" "queue_inv rows'" using free store_inv_le [OF st] by (auto simp: slot_free_def)
  show ?thesis
  proof (cases "if replace then select_one (queued_slot sid) rows else None")
    case (Some r)
    then have r: "r \<in> set rows" "queued_slot sid r" by (auto split: if_splits dest: select_one_Some)
    with st Some inv(2) show ?thesis
      by (auto simp: store_with_context_def Let_def slot_def bex_update_where replace_set_def queued_slot_def intro!: bexI [of _ r])
  next
    case None
    have none: "find_active rows sid = None"
    proof (rule ccontr)
      assume "find_active rows sid \<noteq> None"
      then obtain r where "find_active rows sid = Some r" by auto
      with free have "replace" "r \<in> set rows" "queued_slot sid r"
        by (auto simp: slot_free_def queued_slot_def dest: find_active_Some)
      with None show False by (auto simp: select_one_None)
    qed
    with st None inv(2) show ?thesis
      by (auto simp: store_with_context_def Let_def slot_def insert_row_def new_row_def find_by_id_def
          split: sum.splits option.splits if_splits dest!: select_one_Some)
  qed
qed

subsection \<open>Triples\<close>

definition yields ::
  "(queue_table \<Rightarrow> collab_event list \<Rightarrow> bool) \<Rightarrow> ('c, 'a) io \<Rightarrow> ('a \<Rightarrow> queue_table \<Rightarrow> collab_event list \<Rightarrow> bool) \<Rightarrow> bool" where
  "yields P m Q = (\<forall>env s x t. P (cb_queue s) (cb_events s) \<longrightarrow> m env s = (Inr x, t) \<longrightarrow> Q x (cb_queue t) (cb_events t))"

lemma yieldsD: "yields P m Q \<Longrightarrow> m env s = (Inr x, t) \<Longrightarrow> P (cb_queue s) (cb_events s) \<Longrightarrow> Q x (cb_queue t) (cb_events t)"
  by (simp add: yields_def)

lemma yields_return: "(\<And>q es. P q es \<Longrightarrow> Q x q es) \<Longrightarrow> yields P (return_io x) Q"
  by (simp add: yields_def return_io_def)

lemma yields_fail: "yields P (fail_io e) Q"
  by (simp add: yields_def fail_io_def)

lemma yields_bind: "yields P m R \<Longrightarrow> (\<And>x. yields (R x) (f x) Q) \<Longrightarrow> yields P (bind_io m f) Q"
  by (fastforce simp: yields_def bind_io_Inr)

lemma yields_conseq: "yields P m Q \<Longrightarrow> (\<And>q es. P' q es \<Longrightarrow> P q es) \<Longrightarrow> (\<And>x q es. Q x q es \<Longrightarrow> Q' x q es) \<Longrightarrow> yields P' m Q'"
  unfolding yields_def by blast

lemma yields_pre: "(A \<Longrightarrow> yields P m Q) \<Longrightarrow> yields (\<lambda>q es. A \<and> P q es) m Q"
  by (auto simp: yields_def)

lemma yields_false: "yields (\<lambda>q es. False) m Q"
  by (simp add: yields_def)

lemma yields_queue:
  "(\<And>now fresh q es x q'. P q es \<Longrightarrow> f now fresh q = Inr (x, q') \<Longrightarrow> Q x q' es) \<Longrightarrow> yields P (queue_io f) Q"
  by (auto simp: yields_def queue_io_Inr)

text \<open>Computations that leave the queue alone and only add events; assertions they keep.\<close>

definition queue_frame :: "('c, 'a) io \<Rightarrow> bool" where
  "queue_frame m = (\<forall>q es. keeps (\<lambda>s. cb_queue s = q \<and> prefix es (cb_events s)) m)"

definition event_mono :: "(queue_table \<Rightarrow> collab_event list \<Rightarrow> bool) \<Rightarrow> bool" where
  "event_mono P = (\<forall>q es es'. P q es \<longrightarrow> prefix es es' \<longrightarrow> P q es')"

lemma frame_basic [intro!]:
  "queue_frame (return_io x)" "queue_frame (fail_io e)" "queue_frame (lift_io r)" "queue_frame (ask_io g)" "queue_frame (is_signaled_io i)"
  by (auto simp: queue_frame_def)

lemma frame_bind [intro]: "queue_frame m \<Longrightarrow> (\<And>x. queue_frame (f x)) \<Longrightarrow> queue_frame (bind_io m f)"
  by (auto simp: queue_frame_def)

lemma frame_try [intro!]: "queue_frame m \<Longrightarrow> queue_frame (try_io m)"
  by (auto simp: queue_frame_def)

lemma frame_calls [intro!]:
  "queue_frame (call_io g)" "queue_frame (query_io h)" "queue_frame (signaled_io ids)" "queue_frame (emit_io e)" "queue_frame (acquire_io w)" "queue_frame (release_io w fence)"
  by (auto simp: queue_frame_def keeps_def call_io_def query_io_def signaled_io_def emit_io_def acquire_io_def release_io_def
      next_call_def split: prod.splits option.splits)

lemma yields_frame:
  assumes m: "queue_frame m" and P: "event_mono P"
  shows "yields P m (\<lambda>_. P)"
  unfolding yields_def
proof (intro allI impI)
  fix env and s t :: collab and x assume s: "P (cb_queue s) (cb_events s)" and run: "m env s = (Inr x, t)"
  have "keeps (\<lambda>u. cb_queue u = cb_queue s \<and> prefix (cb_events s) (cb_events u)) m" using m by (simp add: queue_frame_def)
  from keepsD [OF this, of s env] run have "cb_queue t = cb_queue s" "prefix (cb_events s) (cb_events t)" by auto
  with s P show "P (cb_queue t) (cb_events t)" by (auto simp: event_mono_def)
qed

lemma yields_bind_frame: "queue_frame m \<Longrightarrow> event_mono P \<Longrightarrow> (\<And>x. yields P (f x) Q) \<Longrightarrow> yields P (bind_io m f) Q"
  by (blast intro: yields_bind yields_frame)

lemma frame_status [intro!]: "queue_frame (row_status row)" "queue_frame (collab_status sid)"
  unfolding collab_status_def row_status_def by (auto intro!: frame_bind split: option.split)

lemma frame_lease [intro!]: "queue_frame (derive_lease_locked session)"
  unfolding derive_lease_locked_def lease_of_def lease_from_report_def effective_dir_io_def expected_sid_def
  by (intro frame_bind frame_try frame_basic frame_calls | split sum.split option.split bool.split if_split
      | intro conjI impI allI)+

text \<open>The assertions: what is in the queue, and what has been done since the events were \<open>es0\<close>.\<close>

definition at_slot :: "collab_event list \<Rightarrow> uuid \<Rightarrow> string \<Rightarrow> queued_message_state \<Rightarrow> uuid \<Rightarrow> queue_table \<Rightarrow> collab_event list \<Rightarrow> bool" where
  "at_slot es0 sid prompt st i q es = (slot sid prompt st i q \<and> prefix es0 es)"

definition vacant :: "collab_event list \<Rightarrow> uuid \<Rightarrow> queue_table \<Rightarrow> collab_event list \<Rightarrow> bool" where
  "vacant es0 sid q es = (slot_free sid False q \<and> prefix es0 es)"

definition done_since :: "collab_event list \<Rightarrow> collab_event \<Rightarrow> queue_table \<Rightarrow> collab_event list \<Rightarrow> bool" where
  "done_since es0 e q es = (\<exists>new. es = es0 @ new \<and> e \<in> set new)"

lemma event_mono_assertions [intro!, simp]:
  "event_mono (at_slot es0 sid prompt st i)" "event_mono (vacant es0 sid)" "event_mono (done_since es0 e)"
  "event_mono (\<lambda>q es. \<exists>program. done_since es0 (f program) q es)"
  by (fastforce simp: event_mono_def at_slot_def vacant_def done_since_def prefix_def)+

lemma event_mono_conj: "event_mono P \<Longrightarrow> event_mono Q \<Longrightarrow> event_mono (\<lambda>q es. P q es \<and> Q q es)"
  by (auto simp: event_mono_def)

text \<open>What the outcome of a dispatch promises about the prompt.\<close>

fun delivered ::
  "collab_event list \<Rightarrow> session_row \<Rightarrow> string \<Rightarrow> retry_dispatch_context option \<Rightarrow> 'c dispatch_outcome
     \<Rightarrow> queue_table \<Rightarrow> collab_event list \<Rightarrow> bool" where
  "delivered es0 session prompt ctx (Started _) q es =
     done_since es0 (EvDispatch (ss_id session) (ss_workspace_id session) prompt ctx True) q es"
| "delivered es0 session prompt ctx (RoutedToCli _) q es =
     (\<exists>program. done_since es0 (EvPaste (ss_id session) (ss_workspace_id session) program prompt True) q es)"
| "delivered es0 session prompt ctx (OutcomeQueued _) q es = (\<exists>i. at_slot es0 (ss_id session) prompt Queued i q es)"
| "delivered es0 session prompt ctx (OutcomeConflict _) q es = False"

lemma event_mono_delivered: "event_mono (delivered es0 session prompt ctx outcome)"
proof (cases outcome)
  case (OutcomeQueued status)
  have "event_mono (\<lambda>q es. \<exists>i. at_slot es0 (ss_id session) prompt Queued i q es)"
    by (fastforce simp: event_mono_def at_slot_def prefix_def)
  with OutcomeQueued show ?thesis by (simp add: event_mono_def)
qed (auto simp: event_mono_def done_since_def prefix_def)

subsection \<open>The operations behind the gate\<close>

lemma yields_store:
  assumes "\<And>q es. P q es \<Longrightarrow> slot_free sid replace q \<and> prefix es0 es"
  shows "yields P (store_slot sid prompt cfg ctx src replace) (\<lambda>row. at_slot es0 sid prompt Queued (qm_id row))"
proof -
  have "yields P (store_slot_result sid prompt cfg ctx src replace)
      (\<lambda>res q es. \<exists>row. res = Stored row \<and> at_slot es0 sid prompt Queued (qm_id row) q es)"
    unfolding store_slot_result_def using assms slot_store
    by (fastforce simp: yields_def bind_io_Inr ask_io_Inr queue_io_Inr fail_io_Inr at_slot_def split: option.splits)
  then show ?thesis
    unfolding store_slot_def by (rule yields_bind) (auto intro!: yields_return)
qed

lemma yields_queue_or_status:
  assumes "case existing of None \<Rightarrow> P = vacant es0 (ss_id session)
    | Some row \<Rightarrow> P = at_slot es0 (ss_id session) prompt Queued (qm_id row)"
  shows "yields P (queue_or_status (ss_id session) prompt cfg ctx src existing) (delivered es0 session prompt ctx')"
proof -
  have "yields P (case existing of Some row \<Rightarrow> return_io row
      | None \<Rightarrow> store_slot (ss_id session) prompt cfg ctx src False)
      (\<lambda>row. at_slot es0 (ss_id session) prompt Queued (qm_id row))"
    using assms by (cases existing) (auto simp: vacant_def intro!: yields_return yields_store)
  then show ?thesis
    unfolding queue_or_status_def
    by (rule yields_bind) (auto intro!: yields_bind_frame yields_return)
qed

lemma yields_paste_io:
  "yields (at_slot es0 (ss_id session) prompt st i) (paste_io session program p) (\<lambda>ok q es.
     at_slot es0 (ss_id session) prompt st i q es
     \<and> (ok \<longrightarrow> done_since es0 (EvPaste (ss_id session) (ss_workspace_id session) program p True) q es))"
  unfolding paste_io_def
  by (auto simp: yields_def bind_io_Inr call_io_Inr emit_io_Inr return_io_Inr at_slot_def done_since_def prefix_def)

lemma yields_requeue:
  "yields (at_slot es0 sid prompt Pasting i) (queue_io (\<lambda>now _ rows. Inr (requeue rows now i reason)))
     (\<lambda>_. at_slot es0 sid prompt Queued i)"
  by (rule yields_queue) (auto simp: at_slot_def intro: slot_requeued)

lemma yields_status: "event_mono P \<Longrightarrow> (\<And>status q es. P q es \<Longrightarrow> Q (g status) q es)
    \<Longrightarrow> yields P (bind_io (collab_status sid) (\<lambda>status. return_io (g status))) Q"
  by (rule yields_bind_frame) (auto intro: yields_return)

lemma yields_claim:
  assumes inv: "\<And>q now. queue_inv q \<Longrightarrow> queue_inv (update_where (queued_row i) (claim_set now csid eo po) q)"
  shows "yields (at_slot es0 sid prompt Queued i) (queue_io (\<lambda>now _ rows. Inr (claim rows now i csid eo po)))
     (\<lambda>found q es. \<exists>r. found = Some r \<and> qm_id r = i \<and> qm_prompt r = prompt \<and> at_slot es0 sid prompt Pasting i q es)"
proof (rule yields_queue)
  fix now fresh q es found q'
  assume at: "at_slot es0 sid prompt Queued i q es" and c: "Inr (claim q now i csid eo po) = Inr (found, q')"
  then have "queue_inv q'" using inv by (auto simp: at_slot_def slot_def claim_def Let_def split: if_splits)
  with at c slot_claim [of sid prompt i q now csid eo po found q']
  show "\<exists>r. found = Some r \<and> qm_id r = i \<and> qm_prompt r = prompt \<and> at_slot es0 sid prompt Pasting i q' es"
    by (auto simp: at_slot_def)
qed

lemma yields_claimed:
  assumes "\<And>r. qm_id r = i \<Longrightarrow> qm_prompt r = prompt \<Longrightarrow> yields P (f r) Q"
  shows "yields (\<lambda>q es. \<exists>r. found = Some r \<and> qm_id r = i \<and> qm_prompt r = prompt \<and> P q es)
    (case found of None \<Rightarrow> m | Some r \<Rightarrow> f r) Q"
  using assms by (cases found) (fastforce simp: yields_def)+

lemma yields_paste_claimed_row:
  assumes "qm_id r = i" and "qm_prompt r = prompt"
  shows "yields (at_slot es0 (ss_id session) prompt Pasting i) (paste_claimed_row session r program owner)
     (delivered es0 session prompt ctx)"
proof -
  let ?sid = "ss_id session"
  let ?pasted = "done_since es0 (EvPaste ?sid (ss_workspace_id session) program prompt True)"
  have "yields (\<lambda>q es. at_slot es0 ?sid prompt Pasting i q es \<and> ?pasted q es)
      (queue_io (\<lambda>now _ rows. Inr (mark_pasted rows now i owner))) (\<lambda>_. ?pasted)"
    by (rule yields_queue) (simp add: done_since_def)
  then have ok: "yields (\<lambda>q es. at_slot es0 ?sid prompt Pasting i q es \<and> ?pasted q es)
      (bind_io (queue_io (\<lambda>now _ rows. Inr (mark_pasted rows now i owner))) (\<lambda>marked.
        if \<not> marked then fail_io (CollabPasteClaimLost i)
        else bind_io (collab_status ?sid) (\<lambda>status. return_io (RoutedToCli status))))
      (delivered es0 session prompt ctx)"
    by (rule yields_bind) (auto intro!: yields_fail yields_status)
  have failed: "yields (at_slot es0 ?sid prompt Pasting i)
      (bind_io (queue_io (\<lambda>now _ rows. Inr (requeue rows now i reason))) (\<lambda>_.
        bind_io (collab_status ?sid) (\<lambda>status. return_io (OutcomeQueued status))))
      (delivered es0 session prompt ctx)" for reason
    by (rule yields_bind [OF yields_requeue]) (auto intro!: yields_status)
  show ?thesis
    unfolding paste_claimed_row_def assms
    by (rule yields_bind [OF yields_paste_io]) (use ok failed in auto)
qed

lemma yields_paste_slot:
  "yields (at_slot es0 (ss_id session) prompt Queued (qm_id row)) (paste_slot session row csid program)
     (delivered es0 session prompt ctx)"
  unfolding paste_slot_def claim_for_paste_def
  by (rule yields_bind_frame [OF frame_basic(4) event_mono_assertions(1)], rule yields_bind,
      rule yields_claim, rule claim_paste_stmt.keeps_inv, assumption)
    (rule yields_claimed, rule yields_paste_claimed_row)

lemma yields_dispatch_io:
  assumes "event_mono P" and "\<And>q es. P q es \<Longrightarrow> prefix es0 es"
  shows "yields P (dispatch_io session prompt cfg ctx) (\<lambda>dispatched q es. P q es
     \<and> (case dispatched of DispatchOk _ \<Rightarrow>
          done_since es0 (EvDispatch (ss_id session) (ss_workspace_id session) prompt ctx True) q es | DispatchErr _ \<Rightarrow> True))"
proof -
  have "P q (es @ [e])" if "P q es" for q es e
    using assms(1) that by (auto simp: event_mono_def)
  then show ?thesis
    using assms(2) by (fastforce simp: yields_def dispatch_io_def done_since_def prefix_def split: dispatch_result.splits)
qed

lemma yields_dispatch_started:
  fixes ctx
  defines "start \<equiv> \<lambda>es0 session prompt. done_since es0 (EvDispatch (ss_id session) (ss_workspace_id session) prompt ctx True)"
  shows "yields (start es0 session prompt) (dispatch_started claimed ep) (delivered es0 session prompt ctx)"
proof (cases claimed)
  case (Some row)
  have consumed: "yields (start es0 session prompt) (queue_io (\<lambda>now _ rows. Inr (mark_consumed rows now i owner)))
      (\<lambda>_. start es0 session prompt)" for i owner
    unfolding start_def by (rule yields_queue) (simp add: done_since_def)
  show ?thesis
    unfolding dispatch_started_def Some option.case
    by (rule yields_bind_frame [OF frame_basic(4)], simp add: start_def, rule yields_bind [OF consumed])
      (auto simp: start_def intro!: yields_return yields_fail)
qed (auto simp: dispatch_started_def start_def intro: yields_return)

lemma yields_dispatch_failed:
  assumes "case claimed of None \<Rightarrow> P = vacant es0 (ss_id session)
    | Some row \<Rightarrow> P = at_slot es0 (ss_id session) prompt Pasting (qm_id row)"
  shows "yields P (dispatch_failed session prompt cfg ctx src claimed destructive) (delivered es0 session prompt ctx)"
proof (cases claimed)
  case None
  let ?sid = "ss_id session"
  from None assms have P: "P = vacant es0 ?sid" by simp
  have "yields P (store_slot ?sid prompt cfg ctx src False) (\<lambda>row. at_slot es0 ?sid prompt Queued (qm_id row))"
    unfolding P by (rule yields_store) (simp add: vacant_def)
  moreover have "yields (at_slot es0 ?sid prompt Queued i) (queue_io (\<lambda>now _ rows. Inr (set_failure_reason rows now i why)))
      (\<lambda>_. at_slot es0 ?sid prompt Queued i)" for i why
  proof (rule yields_queue)
    fix now fresh q es x q' assume "at_slot es0 ?sid prompt Queued i q es" "Inr (set_failure_reason q now i why) = Inr (x, q')"
    then show "at_slot es0 ?sid prompt Queued i q' es" using slot_failure [of ?sid prompt i q now why] by (simp add: at_slot_def)
  qed
  moreover have "yields P (queue_or_status ?sid prompt cfg ctx src None) (delivered es0 session prompt ctx)"
    using P by (intro yields_queue_or_status) simp
  ultimately show ?thesis
    unfolding dispatch_failed_def None Let_def option.case
    by (auto intro!: yields_bind [where m = "store_slot _ _ _ _ _ _"] yields_bind [where m = "queue_io _"] yields_status)
next
  case (Some row)
  with assms show ?thesis
    unfolding dispatch_failed_def Let_def by (auto intro!: yields_bind [OF yields_requeue] yields_status)
qed

lemma yields_dispatch_claimed:
  assumes claimed: "case claimed of None \<Rightarrow> P = vacant es0 (ss_id session)
    | Some row \<Rightarrow> P = at_slot es0 (ss_id session) prompt Pasting (qm_id row)"
  shows "yields P (dispatch_claimed session prompt cfg ctx src claimed fence) (delivered es0 session prompt ctx)"
proof -
  let ?start = "done_since es0 (EvDispatch (ss_id session) (ss_workspace_id session) prompt ctx True)"
  have mono: "event_mono P" and grown: "\<And>q es. P q es \<Longrightarrow> prefix es0 es"
    using claimed by (cases claimed; auto simp: at_slot_def vacant_def)+
  have release: "queue_frame (try_io (release_io w fence))" for w fence by blast
  show ?thesis
    unfolding dispatch_claimed_def
  proof (rule yields_bind [OF yields_dispatch_io [OF mono grown]], assumption)
    fix dispatched
    show "yields (\<lambda>q es. P q es \<and> (case dispatched of DispatchOk _ \<Rightarrow> ?start q es | DispatchErr _ \<Rightarrow> True))
      (bind_io (try_io (release_io (ss_workspace_id session) fence)) (\<lambda>_. case dispatched of
         DispatchOk ep \<Rightarrow> dispatch_started claimed ep
       | DispatchErr destructive \<Rightarrow> dispatch_failed session prompt cfg ctx src claimed destructive))
      (delivered es0 session prompt ctx)"
    proof (cases dispatched)
      case (DispatchOk ep)
      then show ?thesis
        by (auto intro!: yields_conseq [OF yields_bind_frame [OF release event_mono_assertions(3) yields_dispatch_started]])
    next
      case (DispatchErr destructive)
      then show ?thesis
        by (auto intro!: yields_bind_frame [OF release mono yields_dispatch_failed] claimed)
    qed
  qed
qed

lemma yields_executor:
  assumes existing: "case existing of None \<Rightarrow> P = vacant es0 (ss_id session)
    | Some row \<Rightarrow> P = at_slot es0 (ss_id session) prompt Queued (qm_id row)"
  shows "yields P (dispatch_executor_locked session prompt cfg ctx src existing) (delivered es0 session prompt ctx)"
proof -
  have mono: "event_mono P" using existing by (cases existing) auto
  note wait = yields_queue_or_status [OF existing]
  have reserved: "yields P (dispatch_reserved session prompt cfg ctx src existing fence) (delivered es0 session prompt ctx)" for fence
  proof (cases existing)
    case None
    with existing show ?thesis by (auto simp: dispatch_reserved_def intro!: yields_dispatch_claimed)
  next
    case (Some row)
    with existing have P: "P = at_slot es0 (ss_id session) prompt Queued (qm_id row)" by simp
    show ?thesis
      unfolding P Some option.case claim_for_executor_def dispatch_reserved_def
      by (rule yields_bind_frame [OF frame_basic(4) event_mono_assertions(1)], rule yields_bind,
          rule yields_claim, rule claim_executor_stmt.keeps_inv, assumption)
        (rule yields_claimed, rule yields_dispatch_claimed, simp)
  qed
  have acquire: "queue_frame (try_io (acquire_io (ss_workspace_id session)))" by blast
  show ?thesis
    unfolding dispatch_executor_locked_def
    by (rule yields_bind_frame [OF acquire mono])
      (auto intro!: wait yields_bind_frame [OF frame_lease mono] yields_bind_frame [OF frame_calls(6) mono] reserved
        split: sum.split option.split)
qed

lemma yields_deliver:
  assumes existing: "case existing of None \<Rightarrow> P = vacant es0 (ss_id session)
    | Some row \<Rightarrow> P = at_slot es0 (ss_id session) prompt Queued (qm_id row)"
  shows "yields P (deliver_by_lease session prompt cfg src ctx existing disabled lease) (delivered es0 session prompt ctx)"
proof (cases lease)
  case (LeaseCli csid program)
  have "yields P (case existing of Some row \<Rightarrow> return_io row
      | None \<Rightarrow> store_slot (ss_id session) prompt cfg None src False)
      (\<lambda>row. at_slot es0 (ss_id session) prompt Queued (qm_id row))"
    using existing by (cases existing) (auto simp: vacant_def intro!: yields_return yields_store)
  then have "yields P (bind_io (case existing of Some row \<Rightarrow> return_io row
      | None \<Rightarrow> store_slot (ss_id session) prompt cfg None src False) (\<lambda>row. paste_slot session row csid program))
      (delivered es0 session prompt ctx)"
    by (rule yields_bind) (rule yields_paste_slot)
  with LeaseCli yields_queue_or_status [OF existing] show ?thesis by (auto simp: deliver_by_lease_def)
qed (simp_all add: deliver_by_lease_def yields_queue_or_status [OF existing] yields_executor [OF existing])

text \<open>The first step of the gate finds the slot free, takes it, or reports what occupies it.\<close>

fun prepared ::
  "collab_event list \<Rightarrow> queue_table \<Rightarrow> uuid \<Rightarrow> string \<Rightarrow> bool \<Rightarrow> 'c prepared_slot \<Rightarrow> queue_table \<Rightarrow> collab_event list \<Rightarrow> bool" where
  "prepared es0 q0 sid prompt replace SlotNone q es = vacant es0 sid q es"
| "prepared es0 q0 sid prompt replace (SlotStored row) q es = at_slot es0 sid prompt Queued (qm_id row) q es"
| "prepared es0 q0 sid prompt replace (SlotConflict _) q es =
     (q = q0 \<and> es = es0 \<and> (\<exists>r. find_active q0 sid = Some r \<and> (\<not> replace \<or> qm_state r \<noteq> Queued)))"

lemma query_returns: "query_io f env s = (Inr x, t) \<Longrightarrow> x = f s \<and> cb_queue t = cb_queue s \<and> cb_events t = cb_events s"
  by (auto simp: query_io_Inr)

lemma quiet_row_status: "row_status row env s = (r, t) \<Longrightarrow> t = s"
  by (auto simp: row_status_def bind_io_def ask_io_def lift_io_def fail_io_def return_io_def split: sum.splits)

lemma yields_prepare:
  "yields (\<lambda>q es. queue_inv q \<and> q = q0 \<and> es = es0) (prepare_existing_slot sid prompt cfg ctx src replace)
     (prepared es0 q0 sid prompt replace)"
  unfolding prepare_existing_slot_def
proof (rule yields_bind [where R = "\<lambda>found q es. queue_inv q \<and> q = q0 \<and> es = es0 \<and> find_active q0 sid = found"])
  fix found
  let ?R = "\<lambda>q es. queue_inv q \<and> q = q0 \<and> es = es0 \<and> find_active q0 sid = found"
  show "yields ?R (case found of None \<Rightarrow> return_io SlotNone
     | Some active \<Rightarrow> if \<not> replace \<or> qm_state active \<noteq> Queued
         then bind_io (row_status active) (\<lambda>status. return_io (SlotConflict status))
         else bind_io (store_slot sid prompt cfg ctx src True) (\<lambda>row. return_io (SlotStored row)))
     (prepared es0 q0 sid prompt replace)"
  proof (cases found)
    case (Some active)
    have "yields ?R (store_slot sid prompt cfg ctx src True) (\<lambda>row. at_slot es0 sid prompt Queued (qm_id row))"
      if "qm_state active = Queued"
      by (rule yields_store) (use Some that in \<open>auto simp: slot_free_def split: option.splits\<close>)
    moreover have "yields ?R (row_status active) (\<lambda>_. ?R)"
      using quiet_row_status by (fastforce simp: yields_def)
    ultimately show ?thesis
      using Some by (auto intro!: yields_bind yields_return)
  qed (auto intro!: yields_return simp: vacant_def slot_free_def split: option.splits)
qed (auto simp: yields_def dest: query_returns)

lemma yields_gate:
  "yields (\<lambda>q es. queue_inv q \<and> q = q0 \<and> es = es0) (dispatch_gate_with_context session prompt cfg src replace ctx)
     (\<lambda>outcome q es. case outcome of
        OutcomeConflict status \<Rightarrow> prepared es0 q0 (ss_id session) prompt replace (SlotConflict status) q es
      | _ \<Rightarrow> delivered es0 session prompt ctx outcome q es)" (is "yields _ _ ?Q")
  unfolding dispatch_gate_with_context_def
proof (rule yields_bind [OF yields_prepare])
  fix prep
  have notify: "queue_frame (case outcome of OutcomeQueued _ \<Rightarrow> emit_io EvNotify | _ \<Rightarrow> return_io ())" for outcome
    by (auto split: dispatch_outcome.split)
  have rest: "yields P (bind_io (derive_lease_locked session) (\<lambda>lease. bind_io (ask_io ce_routing_disabled) (\<lambda>disabled.
      bind_io (deliver_by_lease session prompt cfg src ctx existing disabled lease) (\<lambda>outcome.
      bind_io (case outcome of OutcomeQueued _ \<Rightarrow> emit_io EvNotify | _ \<Rightarrow> return_io ()) (\<lambda>_. return_io outcome))))) ?Q"
    if "case existing of None \<Rightarrow> P = vacant es0 (ss_id session)
      | Some row \<Rightarrow> P = at_slot es0 (ss_id session) prompt Queued (qm_id row)" for P existing
  proof -
    have mono: "event_mono P" using that by (cases existing) auto
    show ?thesis
      by (rule yields_bind_frame [OF frame_lease mono], rule yields_bind_frame [OF frame_basic(4) mono],
          rule yields_bind [OF yields_deliver [OF that]], rule yields_bind_frame [OF notify event_mono_delivered],
          rule yields_return) (auto split: dispatch_outcome.split)
  qed
  show "yields (prepared es0 q0 (ss_id session) prompt replace prep) (case prep of
      SlotConflict status \<Rightarrow> return_io (OutcomeConflict status)
    | _ \<Rightarrow> bind_io (derive_lease_locked session) (\<lambda>lease. bind_io (ask_io ce_routing_disabled) (\<lambda>disabled.
      bind_io (deliver_by_lease session prompt cfg src ctx (case prep of SlotStored row \<Rightarrow> Some row | _ \<Rightarrow> None) disabled lease) (\<lambda>outcome.
      bind_io (case outcome of OutcomeQueued _ \<Rightarrow> emit_io EvNotify | _ \<Rightarrow> return_io ()) (\<lambda>_. return_io outcome))))) ?Q"
  proof (cases prep)
    case SlotNone
    then show ?thesis using rest [of "prepared es0 q0 (ss_id session) prompt replace prep" None] by (simp add: fun_eq_iff)
  next
    case (SlotStored row)
    then show ?thesis using rest [of "prepared es0 q0 (ss_id session) prompt replace prep" "Some row"] by (simp add: fun_eq_iff)
  qed (auto intro!: yields_return)
qed

section \<open>Properties\<close>

text \<open>
  C2.  An accepted prompt is never lost.  When the gate answers \<open>Started\<close>, the executor was
  started with exactly this prompt and retry context during this call; when it answers
  \<open>RoutedToCli\<close>, the prompt was pasted into the pane of the workspace; when it answers
  \<open>Queued\<close>, the one active message of the session is this prompt, waiting.  A conflict is
  answered only when another message occupies the session and may not be replaced, and then
  nothing was done and the queue is untouched.
\<close>

theorem gate_keeps_prompt:
  fixes s t :: collab
  assumes "queue_inv (cb_queue s)" and "dispatch_gate_with_context session prompt cfg src replace ctx env s = (Inr outcome, t)"
  shows "\<exists>new. cb_events t = cb_events s @ new \<and> (case outcome of
      Started _ \<Rightarrow> EvDispatch (ss_id session) (ss_workspace_id session) prompt ctx True \<in> set new
    | RoutedToCli _ \<Rightarrow> \<exists>program. EvPaste (ss_id session) (ss_workspace_id session) program prompt True \<in> set new
    | OutcomeQueued _ \<Rightarrow> \<exists>r. find_active (cb_queue t) (ss_id session) = Some r \<and> qm_prompt r = prompt \<and> qm_state r = Queued
    | OutcomeConflict _ \<Rightarrow> new = [] \<and> cb_queue t = cb_queue s
        \<and> (\<exists>r. find_active (cb_queue s) (ss_id session) = Some r \<and> (\<not> replace \<or> qm_state r \<noteq> Queued)))"
proof -
  have "active_state Queued" by (simp add: active_state_def)
  note slot = slot_find_active [OF _ this]
  show ?thesis
    using yieldsD [OF yields_gate assms(2), of "cb_queue s" "cb_events s"] assms(1)
    by (cases outcome) (fastforce simp: done_since_def at_slot_def prefix_def dest: slot)+
qed

text \<open>
  A workspace with one session, without a pane and with one whose agent resumed the session's
  native session; every call succeeds.
\<close>

definition sample_session :: session_row where
  "sample_session = \<lparr>ss_id = 7, ss_workspace_id = 3, ss_executor = None, ss_agent_working_dir = None,
     ss_created_at = 10, ss_pending_cli_prompt = None\<rparr>"

definition sample_report :: "bool \<Rightarrow> probe_report" where
  "sample_report pane = \<lparr>pr_pane_session_exists = pane, pr_agent_running = Some pane, pr_agent_program = Some ''claude'',
     pr_sid_evidence = ConfirmedResume ''n1'', pr_probe_failed = False, pr_only_active_claude_in_cwd = None\<rparr>"

definition sample_execution :: execution_process where
  "sample_execution = \<lparr>ep_id = 90, ep_session_id = 7, ep_run_reason = CodingAgent, ep_status = EpRunning,
     ep_dropped = False, ep_created_at = 100, ep_completed_at = None\<rparr>"

definition sample_env :: "bool \<Rightarrow> string collab_env" where
  "sample_env pane = \<lparr>ce_now = (\<lambda>n. 100 + int n), ce_fresh = (\<lambda>n. 50 + n), ce_fence = (\<lambda>_. ''f1''), ce_db_ok = (\<lambda>_. True),
     ce_path_exists = (\<lambda>_ _. True), ce_probe = (\<lambda>_ _ _ _ _ _. sample_report pane), ce_paste = (\<lambda>_ _ _ _. True),
     ce_pane_alive = (\<lambda>_ _. Some pane), ce_agent_running = (\<lambda>_ _. Some pane), ce_signal = (\<lambda>_ _ _. True),
     ce_dispatch = (\<lambda>_ _ _ _ _. DispatchOk sample_execution), ce_bound = (\<lambda>_ _. False),
     ce_parse_config = Some, ce_config_json = Some, ce_parse_context = (\<lambda>_. None), ce_context_json = (\<lambda>_. None),
     ce_executor_claim_owner = ''exec'', ce_paste_claim_owner = ''paste'', ce_routing_disabled = False\<rparr>"

definition sample_link :: claude_session_link where
  "sample_link = \<lparr>lk_claude_session_id = ''n1'', lk_session_id = 7, lk_workspace_id = 3, lk_cwd = ''/w'',
     lk_bound_via = ViaCliResume, lk_created_at = 20, lk_foreign_writer_seen_at = None\<rparr>"

definition sample_collab :: "binding_table \<Rightarrow> collab" where
  "sample_collab bs = \<lparr>cb_queue = [], cb_reservations = [], cb_sessions = [sample_session],
     cb_workspaces = [\<lparr>wk_id = 3, wk_container_ref = Some ''/w''\<rparr>], cb_executions = [], cb_turns = [],
     cb_links = [sample_link], cb_bindings = bs, cb_signaled = {}, cb_events = [], cb_calls = 0\<rparr>"

definition sample_binding :: cli_pane_binding where
  "sample_binding = \<lparr>pb_id = 31, pb_workspace_id = 3, pb_session_id = 7, pb_claude_session_id = Some ''n1'',
     pb_bound_via = CliResume, pb_created_at = 20, pb_released_at = None\<rparr>"

definition sample_started :: "(collab_error + string dispatch_outcome) \<times> collab" where
  "sample_started = dispatch_gate_with_context sample_session ''hi'' ''cfg'' Ui False None (sample_env False) (sample_collab [])"

definition sample_routed :: "(collab_error + string dispatch_outcome) \<times> collab" where
  "sample_routed = dispatch_gate_with_context sample_session ''hi'' ''cfg'' Ui False None (sample_env True)
     (sample_collab [sample_binding])"

lemma sample_started_run: "fst sample_started = Inr (Started sample_execution)"
  by code_simp

lemma sample_started_events:
  "cb_events (snd sample_started) =
     [EvLease 7 LeaseFree, EvReserved 3 ''f1'', EvLease 7 LeaseFree, EvDispatch 7 3 ''hi'' None True, EvReleased 3 ''f1'']"
  by code_simp

lemma sample_routed_events:
  "cb_events (snd sample_routed) =
     [EvLease 7 (LeaseCli (Some ''n1'') ''claude''), EvPaste 7 3 ''claude'' ''hi'' True]"
  by code_simp

lemma sample_started_reach: "(collab_step (sample_env False))\<^sup>*\<^sup>* (sample_collab []) (snd sample_started)"
  unfolding sample_started_def by (rule r_into_rtranclp, rule step_gate)

lemma sample_routed_reach: "(collab_step (sample_env True))\<^sup>*\<^sup>* (sample_collab [sample_binding]) (snd sample_routed)"
  unfolding sample_routed_def by (rule r_into_rtranclp, rule step_gate)

theorem gate_keeps_prompt_witness:
  "\<exists>new. cb_events (snd sample_started) = cb_events (sample_collab []) @ new \<and> EvDispatch 7 3 ''hi'' None True \<in> set new"
proof -
  have run: "dispatch_gate_with_context sample_session ''hi'' ''cfg'' Ui False None (sample_env False) (sample_collab [])
      = (Inr (Started sample_execution), snd sample_started)"
    using sample_started_run by (simp add: sample_started_def prod_eq_iff)
  have "queue_inv (cb_queue (sample_collab []))" by (simp add: sample_collab_def queue_inv_empty)
  from gate_keeps_prompt [OF this run] show ?thesis by (simp add: sample_session_def)
qed

theorem lease_evidence_witness:
  "\<not> has_running_coding_agent_for_session (cb_executions (sample_collab [sample_binding])) 7
   \<and> (\<exists>n dir expected. \<not> pr_probe_failed (ce_probe (sample_env True) n 3 dir expected (Some sample_binding) False)
        \<and> expected = Some ''n1'')"
proof -
  have "fst (lease_of sample_session (sample_env True) (sample_collab [sample_binding])) = Inr (LeaseCli (Some ''n1'') ''claude'')"
    by code_simp
  then have "lease_of sample_session (sample_env True) (sample_collab [sample_binding]) =
      (Inr (LeaseCli (Some ''n1'') ''claude''), snd (lease_of sample_session (sample_env True) (sample_collab [sample_binding])))"
    by (simp add: prod_eq_iff)
  from lease_evidence [OF this] have ev: "\<not> has_running_coding_agent_for_session (cb_executions (sample_collab [sample_binding])) 7
     \<and> (\<exists>n dir expected. \<not> pr_probe_failed (ce_probe (sample_env True) n 3 dir expected
          (find_active_for_workspace (cb_bindings (sample_collab [sample_binding])) 3) False) \<and> expected = Some ''n1'')"
    by (auto simp: sample_session_def)
  have "find_active_for_workspace (cb_bindings (sample_collab [sample_binding])) 3 = Some sample_binding" by code_simp
  with ev show ?thesis by simp
qed

text \<open>
  C1.  The executor starts only under the reservation.  In every run of the service, next to
  anything the other writers do, each start of an executor for a session is preceded by the
  reservation of its workspace, which has not been given back since, and under that
  reservation by a lease that says the workspace is free; nothing was started or pasted, and no
  other lease was derived, between that lease and the start.
\<close>

theorem dispatch_guarded:
  fixes s0 s :: collab
  assumes "(collab_step env)\<^sup>*\<^sup>* s0 s" and "cb_events s0 = []"
    and "cb_events s = xs @ EvDispatch sid w prompt ctx ok # ys"
  shows "\<exists>pre mid post fence. xs = pre @ EvReserved w fence # mid @ EvLease sid LeaseFree # post
    \<and> (\<forall>e\<in>set (mid @ EvLease sid LeaseFree # post). \<not> moves_reservation e) \<and> (\<forall>e\<in>set post. \<not> uses_lease e)"
proof -
  have "monitored (cb_events s) \<noteq> None"
    by (rule monitor_machine.reach_inv [OF assms(1)]) (simp add: assms(2) monitored_def)
  then show ?thesis unfolding assms(3) by (rule dispatch_history)
qed

theorem dispatch_guarded_witness:
  "\<exists>pre mid post fence. [EvLease 7 LeaseFree, EvReserved 3 ''f1'', EvLease 7 LeaseFree]
      = pre @ EvReserved 3 fence # mid @ EvLease 7 LeaseFree # post
    \<and> (\<forall>e\<in>set (mid @ EvLease 7 LeaseFree # post). \<not> moves_reservation e) \<and> (\<forall>e\<in>set post. \<not> uses_lease e)"
  by (rule dispatch_guarded [OF sample_started_reach, where prompt = "''hi''" and ctx = None and ok = True and ys = "[EvReleased 3 ''f1'']"])
    (simp_all add: sample_started_events sample_collab_def)

text \<open>
  C8.  A prompt is pasted only under a lease of the terminal.  In every run of the service each
  paste for a session is preceded by a lease of that session that names the same agent
  program; nothing was started, pasted or reserved, and no other lease was derived, in between.
\<close>

theorem paste_guarded:
  fixes s0 s :: collab
  assumes "(collab_step env)\<^sup>*\<^sup>* s0 s" and "cb_events s0 = []"
    and "cb_events s = xs @ EvPaste sid w program prompt ok # ys"
  shows "\<exists>pre post csid. xs = pre @ EvLease sid (LeaseCli csid program) # post \<and> (\<forall>e\<in>set post. \<not> uses_lease e)"
proof -
  have "monitored (cb_events s) \<noteq> None"
    by (rule monitor_machine.reach_inv [OF assms(1)]) (simp add: assms(2) monitored_def)
  then show ?thesis unfolding assms(3) by (rule paste_history)
qed

theorem paste_guarded_witness:
  "\<exists>pre post csid. [EvLease 7 (LeaseCli (Some ''n1'') ''claude'')] = pre @ EvLease 7 (LeaseCli csid ''claude'') # post
    \<and> (\<forall>e\<in>set post. \<not> uses_lease e)"
  by (rule paste_guarded [OF sample_routed_reach, where w = 3 and prompt = "''hi''" and ok = True and ys = "[]"])
    (simp_all add: sample_routed_events sample_collab_def)



end
