(* ===== verification/NativeFeed.thy ===== *)
theory NativeFeed
  imports QueuedMessage PaneBinding
begin

text \<open>
  The transcripts that agents write in a terminal, imported line by line: the imported files and
  records (\<^verbatim>\<open>cli_native_file.rs\<close>, \<^verbatim>\<open>cli_native_record.rs\<close>), the links that give a transcript to a
  session (\<^verbatim>\<open>claude_session_link.rs\<close>), and the outbox from which a session's feed is read
  (\<^verbatim>\<open>cli_ingest_outbox.rs\<close>).  Foreign keys are enforced, as the SQLite driver does by default: an
  insertion that violates one fails, and a deletion cascades.
\<close>

section \<open>Data\<close>

record cli_native_file =
  fl_id :: uuid
  fl_claude_session_id :: string
  fl_dir_path :: string
  fl_file_name :: string
  fl_discovered_workspace_id :: "uuid option"
  fl_dev :: int
  fl_inode :: int
  fl_generation :: int
  fl_cursor_offset :: int
  fl_next_line_seq :: int
  fl_last_line_offset :: int
  fl_last_line_hash :: "string option"
  fl_observed_size :: int
  fl_observed_mtime_ms :: "int option"
  fl_last_import_at :: "datetime option"
  fl_created_at :: datetime
  fl_updated_at :: datetime

record register_cli_native_file =
  rg_claude_session_id :: string
  rg_dir_path :: string
  rg_file_name :: string
  rg_discovered_workspace_id :: "uuid option"
  rg_dev :: int
  rg_inode :: int
  rg_observed_size :: int
  rg_observed_mtime_ms :: "int option"

datatype cli_native_record_disposition = Renderable | Bookkeeping | Sidechain | UnknownDisposition

fun disposition_str :: "cli_native_record_disposition \<Rightarrow> string" where
  "disposition_str Renderable = ''renderable''"
| "disposition_str Bookkeeping = ''bookkeeping''"
| "disposition_str Sidechain = ''sidechain''"
| "disposition_str UnknownDisposition = ''unknown''"

record cli_native_record =
  nr_file_id :: uuid
  nr_line_seq :: int
  nr_claude_session_id :: string
  nr_uuid :: "string option"
  nr_parent_uuid :: "string option"
  nr_kind :: string
  nr_ts :: "string option"
  nr_raw :: string
  nr_disposition :: string
  nr_bound_coding_agent_turn_id :: "uuid option"
  nr_bound_queued_message_id :: "uuid option"

record new_cli_native_record =
  nn_line_seq :: int
  nn_claude_session_id :: string
  nn_uuid :: "string option"
  nn_parent_uuid :: "string option"
  nn_kind :: string
  nn_ts :: "string option"
  nn_raw :: string
  nn_disposition :: cli_native_record_disposition
  nn_user_prompt :: "string option"
  nn_paste_ack_prompt :: "string option"
  nn_recorded_at :: "datetime option"

record imported_cursor =
  ic_cursor_offset :: int
  ic_next_line_seq :: int
  ic_last_line_offset :: int
  ic_last_line_hash :: "string option"
  ic_observed_size :: int
  ic_observed_mtime_ms :: "int option"

record import_batch_result =
  ib_inserted_records :: nat
  ib_appended_outbox :: nat
  ib_last_seq :: int

record native_import_context =
  nc_app_pane_absent :: bool
  nc_foreign_since :: "datetime option"

record cli_ingest_outbox =
  ob_session_id :: uuid
  ob_seq :: int
  ob_file_id :: uuid
  ob_line_seq :: int
  ob_created_at :: datetime

record claude_session_link_mutation =
  lm_link :: claude_session_link
  lm_previous_session_id :: "uuid option"
  lm_republished_outbox :: nat

definition session_changed :: "claude_session_link_mutation \<Rightarrow> bool" where
  "session_changed m = (lm_previous_session_id m \<noteq> Some (lk_session_id (lm_link m)))"

text \<open>The tables.  \<open>nf_native_links\<close> are the rows of \<open>execution_native_links\<close>: an execution and a native record it wrote.\<close>

record feed =
  nf_files :: "cli_native_file list"
  nf_records :: "cli_native_record list"
  nf_outbox :: "cli_ingest_outbox list"
  nf_watermarks :: "uuid \<rightharpoonup> int"
  nf_links :: link_table
  nf_sessions :: session_table
  nf_workspaces :: "uuid list"
  nf_turns :: "coding_agent_turn list"
  nf_executions :: "execution_process list"
  nf_native_links :: "(uuid \<times> string) list"
  nf_queue :: queue_table
  nf_bindings :: binding_table

section \<open>The outbox\<close>

definition max_seq :: "cli_ingest_outbox list \<Rightarrow> uuid \<Rightarrow> int option" where
  "max_seq rows sid =
     (case map ob_seq (filter (\<lambda>ob. ob_session_id ob = sid) rows) of [] \<Rightarrow> None | q # qs \<Rightarrow> Some (foldl max q qs))"

definition coalesce :: "int option \<Rightarrow> int \<Rightarrow> int" where
  "coalesce x d = (case x of None \<Rightarrow> d | Some v \<Rightarrow> v)"

definition latest_seq :: "feed \<Rightarrow> uuid \<Rightarrow> int" where
  "latest_seq s sid = max (coalesce (max_seq (nf_outbox s) sid) 0) (coalesce (nf_watermarks s sid) 0)"

definition next_seq_in_transaction :: "feed \<Rightarrow> uuid \<Rightarrow> int" where
  "next_seq_in_transaction s sid =
     max (coalesce (max_seq (nf_outbox s) sid) 0) (coalesce (nf_watermarks s sid) 0) + 1"

definition session_maxima :: "feed \<Rightarrow> (uuid \<times> int) list" where
  "session_maxima s =
     (let unpublished = filter (\<lambda>ob. ob_seq ob > coalesce (nf_watermarks s (ob_session_id ob)) 0) (nf_outbox s)
      in map (\<lambda>sid. (sid, coalesce (max_seq unpublished sid) 0)) (remdups (map ob_session_id unpublished)))"

definition mark_published :: "feed \<Rightarrow> uuid \<Rightarrow> int \<Rightarrow> db_error + feed" where
  "mark_published s sid seq =
     (if sid \<notin> ss_id ` set (nf_sessions s) \<or> seq < 0 then Inl DbError
      else Inr (s\<lparr>nf_watermarks := (nf_watermarks s)(sid \<mapsto>
        (case nf_watermarks s sid of None \<Rightarrow> seq | Some old \<Rightarrow> max old seq))\<rparr>))"

definition published_seq :: "feed \<Rightarrow> uuid \<Rightarrow> int" where
  "published_seq s sid = coalesce (nf_watermarks s sid) 0"

definition is_latest_generation :: "cli_native_file list \<Rightarrow> cli_native_file \<Rightarrow> bool" where
  "is_latest_generation files f =
     (\<forall>g\<in>set files. fl_dir_path g = fl_dir_path f \<and> fl_file_name g = fl_file_name f \<longrightarrow> fl_generation g \<le> fl_generation f)"

definition projected :: "feed \<Rightarrow> cli_ingest_outbox \<Rightarrow> bool" where
  "projected s ob =
     (\<exists>r\<in>set (nf_records s). \<exists>f\<in>set (nf_files s). \<exists>l\<in>set (nf_links s).
        fl_id f = nr_file_id r \<and> lk_claude_session_id l = nr_claude_session_id r
        \<and> nr_file_id r = ob_file_id ob \<and> nr_line_seq r = ob_line_seq ob \<and> lk_session_id l = ob_session_id ob
        \<and> is_latest_generation (nf_files s) f)"

definition prune_superseded :: "feed \<Rightarrow> nat \<times> feed" where
  "prune_superseded s =
     (rows_affected (\<lambda>ob. \<not> projected s ob) (nf_outbox s), s\<lparr>nf_outbox := filter (projected s) (nf_outbox s)\<rparr>)"

definition find_after :: "feed \<Rightarrow> uuid \<Rightarrow> int \<Rightarrow> nat \<Rightarrow> cli_ingest_outbox list" where
  "find_after s sid seq lim =
     take lim (order_by ob_seq (filter (\<lambda>ob. ob_session_id ob = sid \<and> ob_seq ob > seq) (nf_outbox s)))"

text \<open>The publisher announces the new maximum of every session and remembers it.\<close>

definition publish_one :: "uuid \<times> int \<Rightarrow> feed \<times> (uuid \<times> int) list \<Rightarrow> feed \<times> (uuid \<times> int) list" where
  "publish_one m st =
     (case st of (s, sent) \<Rightarrow>
        (case mark_published s (fst m) (snd m) of Inl _ \<Rightarrow> s | Inr s1 \<Rightarrow> s1, sent @ [m]))"

definition publish_pass :: "feed \<Rightarrow> feed \<times> (uuid \<times> int) list" where
  "publish_pass s = foldl (\<lambda>st m. publish_one m st) (s, []) (session_maxima s)"

section \<open>Files\<close>

definition find_latest_by_path :: "cli_native_file list \<Rightarrow> string \<Rightarrow> string \<Rightarrow> cli_native_file option" where
  "find_latest_by_path files dir name =
     limit_one (order_by_desc fl_generation (filter (\<lambda>f. fl_dir_path f = dir \<and> fl_file_name f = name) files))"

definition find_file :: "cli_native_file list \<Rightarrow> uuid \<Rightarrow> cli_native_file option" where
  "find_file files i = select_one (\<lambda>f. fl_id f = i) files"

definition new_file :: "register_cli_native_file \<Rightarrow> uuid \<Rightarrow> datetime \<Rightarrow> int \<Rightarrow> cli_native_file" where
  "new_file data fresh now generation =
     \<lparr>fl_id = fresh, fl_claude_session_id = rg_claude_session_id data, fl_dir_path = rg_dir_path data,
      fl_file_name = rg_file_name data, fl_discovered_workspace_id = rg_discovered_workspace_id data,
      fl_dev = rg_dev data, fl_inode = rg_inode data, fl_generation = generation, fl_cursor_offset = 0,
      fl_next_line_seq = 0, fl_last_line_offset = 0, fl_last_line_hash = None,
      fl_observed_size = rg_observed_size data, fl_observed_mtime_ms = rg_observed_mtime_ms data,
      fl_last_import_at = None, fl_created_at = now, fl_updated_at = now\<rparr>"

text \<open>
  The insertion fails on a used identifier, on a used path and generation, and on an unknown
  workspace.
\<close>

definition insert_file :: "feed \<Rightarrow> cli_native_file \<Rightarrow> db_error + feed" where
  "insert_file s f =
     (if \<exists>g\<in>set (nf_files s). fl_id g = fl_id f \<or> (fl_dir_path g = fl_dir_path f \<and> fl_file_name g = fl_file_name f
            \<and> fl_generation g = fl_generation f) then Inl DbError
      else if (case fl_discovered_workspace_id f of None \<Rightarrow> False | Some w \<Rightarrow> w \<notin> set (nf_workspaces s)) then Inl DbError
      else Inr (s\<lparr>nf_files := nf_files s @ [f]\<rparr>))"

definition insert_generation :: "feed \<Rightarrow> uuid \<Rightarrow> datetime \<Rightarrow> register_cli_native_file \<Rightarrow> int \<Rightarrow> db_error + cli_native_file \<times> feed" where
  "insert_generation s fresh now data generation =
     bind_err (insert_file s (new_file data fresh now generation)) (\<lambda>s1.
     bind_err (ok_or (find_file (nf_files s1) fresh) DbError) (\<lambda>f. Inr (f, s1)))"

definition register_file :: "feed \<Rightarrow> uuid \<Rightarrow> datetime \<Rightarrow> register_cli_native_file \<Rightarrow> db_error + cli_native_file \<times> feed" where
  "register_file s fresh now data =
     (case find_latest_by_path (nf_files s) (rg_dir_path data) (rg_file_name data) of
        None \<Rightarrow> insert_generation s fresh now data 0
      | Some existing \<Rightarrow>
          (let discovery = (case rg_discovered_workspace_id data of
                 Some w \<Rightarrow> if fl_discovered_workspace_id existing = Some w then None else Some w | None \<Rightarrow> None);
               changed = (discovery \<noteq> None \<or> fl_observed_size existing \<noteq> rg_observed_size data
                 \<or> fl_observed_mtime_ms existing \<noteq> rg_observed_mtime_ms data);
               observe = (\<lambda>f. f\<lparr>fl_discovered_workspace_id := (case rg_discovered_workspace_id data of
                     Some w \<Rightarrow> Some w | None \<Rightarrow> fl_discovered_workspace_id f),
                   fl_observed_size := rg_observed_size data, fl_observed_mtime_ms := rg_observed_mtime_ms data,
                   fl_updated_at := now\<rparr>)
           in if \<not> changed then Inr (existing, s)
              else if (case rg_discovered_workspace_id data of None \<Rightarrow> False | Some w \<Rightarrow> w \<notin> set (nf_workspaces s)) then Inl DbError
              else Inr (observe existing, s\<lparr>nf_files := update_where (\<lambda>f. fl_id f = fl_id existing) observe (nf_files s)\<rparr>)))"

definition list_latest_by_sid :: "feed \<Rightarrow> string \<Rightarrow> cli_native_file list" where
  "list_latest_by_sid s csid =
     order_by (\<lambda>f. (fl_dir_path f, fl_file_name f))
       (filter (\<lambda>f. fl_claude_session_id f = csid \<and> is_latest_generation (nf_files s) f) (nf_files s))"

definition linked :: "feed \<Rightarrow> string \<Rightarrow> bool" where
  "linked s csid = (\<exists>l\<in>set (nf_links s). lk_claude_session_id l = csid)"

text \<open>SQLite sorts \<open>NULL\<close> first, hence last in a descending order, as \<open>None\<close> is here.\<close>

definition list_unassigned_for_workspace :: "feed \<Rightarrow> uuid \<Rightarrow> cli_native_file list" where
  "list_unassigned_for_workspace s w =
     order_by (\<lambda>f. ((case fl_observed_mtime_ms f of None \<Rightarrow> (1, 0) | Some t \<Rightarrow> (0, - t)) :: int \<times> int, fl_file_name f))
       (filter (\<lambda>f. fl_discovered_workspace_id f = Some w \<and> \<not> linked s (fl_claude_session_id f)
           \<and> is_latest_generation (nf_files s) f) (nf_files s))"

text \<open>Deleting a file takes its records, and a record its outbox rows, with it.\<close>

definition delete_files :: "(cli_native_file \<Rightarrow> bool) \<Rightarrow> feed \<Rightarrow> feed" where
  "delete_files p s =
     (let files = filter (\<lambda>f. \<not> p f) (nf_files s);
          gone = fl_id ` set (filter p (nf_files s))
      in s\<lparr>nf_files := files, nf_records := filter (\<lambda>r. nr_file_id r \<notin> gone) (nf_records s),
           nf_outbox := filter (\<lambda>ob. ob_file_id ob \<notin> gone) (nf_outbox s)\<rparr>)"

definition last_touched :: "cli_native_file \<Rightarrow> datetime" where
  "last_touched f = (case fl_last_import_at f of Some t \<Rightarrow> t | None \<Rightarrow> fl_updated_at f)"

definition unreachable :: "feed \<Rightarrow> datetime \<Rightarrow> cli_native_file \<Rightarrow> bool" where
  "unreachable s cutoff f =
     (last_touched f < cutoff \<and> \<not> linked s (fl_claude_session_id f)
      \<and> \<not> (\<exists>ob\<in>set (nf_outbox s). ob_file_id ob = fl_id f \<and> ob_session_id ob \<in> ss_id ` set (nf_sessions s)))"

definition prune_one :: "uuid \<Rightarrow> feed \<Rightarrow> feed" where
  "prune_one i s =
     delete_files (\<lambda>f. fl_id f = i)
       (s\<lparr>nf_outbox := filter (\<lambda>ob. ob_file_id ob \<noteq> i) (nf_outbox s), nf_records := filter (\<lambda>r. nr_file_id r \<noteq> i) (nf_records s)\<rparr>)"

definition prune_candidates :: "feed \<Rightarrow> datetime \<Rightarrow> nat \<Rightarrow> uuid list" where
  "prune_candidates s cutoff lim =
     take lim (map fl_id (order_by last_touched (filter (unreachable s cutoff) (nf_files s))))"

definition prune_unreachable :: "feed \<Rightarrow> datetime \<Rightarrow> nat \<Rightarrow> nat \<Rightarrow> (nat \<times> nat) \<times> feed" where
  "prune_unreachable s now retention_days lim =
     (let t = foldl (\<lambda>u i. prune_one i u) s (prune_candidates s (now - int retention_days * 86400) lim)
      in ((length (nf_files s) - length (nf_files t), length (nf_records s) - length (nf_records t)), t))"

section \<open>Links\<close>

definition outbox_conflict :: "cli_ingest_outbox \<Rightarrow> cli_ingest_outbox \<Rightarrow> bool" where
  "outbox_conflict ob q =
     (ob_session_id ob = ob_session_id q \<and> (ob_seq ob = ob_seq q \<or> (ob_file_id ob = ob_file_id q \<and> ob_line_seq ob = ob_line_seq q)))"

definition insert_or_ignore_outbox :: "cli_ingest_outbox list \<Rightarrow> cli_ingest_outbox \<Rightarrow> cli_ingest_outbox list" where
  "insert_or_ignore_outbox rows ob = (if \<exists>q\<in>set rows. outbox_conflict ob q then rows else rows @ [ob])"

definition missing_records :: "feed \<Rightarrow> uuid \<Rightarrow> string \<Rightarrow> cli_native_record list" where
  "missing_records s sid csid =
     map fst (order_by (\<lambda>(r, f). (fl_created_at f, fl_generation f, nr_line_seq r))
       (filter (\<lambda>(r, f). fl_id f = nr_file_id r \<and> nr_claude_session_id r = csid
            \<and> \<not> (\<exists>ob\<in>set (nf_outbox s). ob_session_id ob = sid \<and> ob_file_id ob = nr_file_id r \<and> ob_line_seq ob = nr_line_seq r))
          (List.product (nf_records s) (nf_files s))))"

definition outbox_rows :: "uuid \<Rightarrow> datetime \<Rightarrow> int \<Rightarrow> cli_native_record list \<Rightarrow> cli_ingest_outbox list" where
  "outbox_rows sid now seq rs =
     map (\<lambda>(k, r). \<lparr>ob_session_id = sid, ob_seq = seq + int k, ob_file_id = nr_file_id r, ob_line_seq = nr_line_seq r,
       ob_created_at = now\<rparr>) (enumerate 0 rs)"

text \<open>Every record of the transcript that is not yet in the feed of the session joins it.\<close>

definition publish_missing :: "feed \<Rightarrow> uuid \<Rightarrow> string \<Rightarrow> datetime \<Rightarrow> nat \<times> feed" where
  "publish_missing s sid csid now =
     (let rows = foldl insert_or_ignore_outbox (nf_outbox s)
            (outbox_rows sid now (next_seq_in_transaction s sid) (missing_records s sid csid))
      in (length rows - length (nf_outbox s), s\<lparr>nf_outbox := rows\<rparr>))"

definition insert_link :: "feed \<Rightarrow> string \<Rightarrow> uuid \<Rightarrow> uuid \<Rightarrow> string \<Rightarrow> claude_session_bound_via \<Rightarrow> datetime \<Rightarrow> db_error + feed" where
  "insert_link s csid sid w cwd via now =
     (if sid \<notin> ss_id ` set (nf_sessions s) \<or> w \<notin> set (nf_workspaces s) then Inl DbError
      else if linked s csid then
        Inr (s\<lparr>nf_links := update_where (\<lambda>l. lk_claude_session_id l = csid)
          (\<lambda>l. l\<lparr>lk_session_id := sid, lk_workspace_id := w, lk_cwd := cwd, lk_bound_via := via\<rparr>) (nf_links s)\<rparr>)
      else Inr (s\<lparr>nf_links := nf_links s @ [\<lparr>lk_claude_session_id = csid, lk_session_id = sid, lk_workspace_id = w,
          lk_cwd = cwd, lk_bound_via = via, lk_created_at = now, lk_foreign_writer_seen_at = None\<rparr>]\<rparr>))"

definition upsert_link ::
  "feed \<Rightarrow> string \<Rightarrow> uuid \<Rightarrow> uuid \<Rightarrow> string \<Rightarrow> claude_session_bound_via \<Rightarrow> datetime
     \<Rightarrow> db_error + claude_session_link_mutation \<times> feed" where
  "upsert_link s csid sid w cwd via now =
     (let previous = map_option lk_session_id (find_link (nf_links s) csid) in
      bind_err (insert_link s csid sid w cwd via now) (\<lambda>s1.
      case publish_missing s1 sid csid now of (republished, s2) \<Rightarrow>
      bind_err (ok_or (find_link (nf_links s2) csid) DbError) (\<lambda>link.
      Inr (\<lparr>lm_link = link, lm_previous_session_id = previous, lm_republished_outbox = republished\<rparr>, s2))))"

definition executor_owner :: "feed \<Rightarrow> string \<Rightarrow> (uuid \<times> uuid) option" where
  "executor_owner s csid =
     map_option (\<lambda>(t, ep, ss). (ep_session_id ep, ss_workspace_id ss))
       (limit_one (order_by_desc (\<lambda>(t, ep, ss). ep_created_at ep)
         (filter (\<lambda>(t, ep, ss). ep_id ep = ct_execution_process_id t \<and> ss_id ss = ep_session_id ep
              \<and> ct_agent_session_id t = Some csid \<and> \<not> ep_dropped ep)
            (List.product (nf_turns s) (List.product (nf_executions s) (nf_sessions s))))))"

definition resolve_or_bind_executor :: "feed \<Rightarrow> string \<Rightarrow> string \<Rightarrow> datetime \<Rightarrow> db_error + claude_session_link_mutation option \<times> feed" where
  "resolve_or_bind_executor s csid cwd now =
     (case executor_owner s csid of
        Some (sid, w) \<Rightarrow> bind_err (upsert_link s csid sid w cwd ViaExecutor now) (\<lambda>(m, s1). Inr (Some m, s1))
      | None \<Rightarrow> Inr (map_option (\<lambda>link. \<lparr>lm_link = link, lm_previous_session_id = Some (lk_session_id link),
          lm_republished_outbox = 0\<rparr>) (find_link (nf_links s) csid), s))"

definition assign_manual :: "feed \<Rightarrow> string \<Rightarrow> uuid \<Rightarrow> string \<Rightarrow> datetime \<Rightarrow> db_error + claude_session_link_mutation option \<times> feed" where
  "assign_manual s csid sid cwd now =
     (case find_session (nf_sessions s) sid of
        None \<Rightarrow> Inr (None, s)
      | Some ss \<Rightarrow> bind_err (upsert_link s csid sid (ss_workspace_id ss) cwd ViaManual now) (\<lambda>(m, s1). Inr (Some m, s1)))"

definition assign_cli ::
  "feed \<Rightarrow> string \<Rightarrow> uuid \<Rightarrow> uuid \<Rightarrow> string \<Rightarrow> claude_session_bound_via \<Rightarrow> datetime
     \<Rightarrow> db_error + claude_session_link_mutation \<times> feed" where
  "assign_cli s csid sid w cwd via now = upsert_link s csid sid w cwd via now"

definition latest_foreign_writer_seen_for_session :: "feed \<Rightarrow> uuid \<Rightarrow> datetime option" where
  "latest_foreign_writer_seen_for_session s sid =
     (case List.map_filter lk_foreign_writer_seen_at (filter (\<lambda>l. lk_session_id l = sid) (nf_links s)) of
        [] \<Rightarrow> None | t # ts \<Rightarrow> Some (foldl max t ts))"

definition claude_session_ids_for_session :: "feed \<Rightarrow> uuid \<Rightarrow> string list" where
  "claude_session_ids_for_session s sid =
     order_by (\<lambda>c. c) (map lk_claude_session_id (filter (\<lambda>l. lk_session_id l = sid) (nf_links s)))"

section \<open>Importing records\<close>

definition linked_to_execution :: "feed \<Rightarrow> new_cli_native_record \<Rightarrow> bool" where
  "linked_to_execution s r =
     (case nn_uuid r of None \<Rightarrow> False | Some u \<Rightarrow> \<exists>l\<in>set (nf_native_links s). snd l = u)"

text \<open>The turn of the session that sent this prompt within the quarter of an hour before.\<close>

definition turn_matches :: "feed \<Rightarrow> uuid \<Rightarrow> string \<Rightarrow> datetime \<Rightarrow> coding_agent_turn \<times> execution_process \<Rightarrow> bool" where
  "turn_matches s sid prompt reference_time te =
     (case te of (cat, ep) \<Rightarrow>
        ep_id ep = ct_execution_process_id cat \<and> ep_session_id ep = sid \<and> ep_run_reason ep = CodingAgent \<and> \<not> ep_dropped ep
        \<and> ct_prompt cat = Some prompt \<and> reference_time - 15 * 60 \<le> ct_created_at cat \<and> ct_created_at cat \<le> reference_time
        \<and> \<not> (\<exists>e\<in>set (nf_records s). nr_bound_coding_agent_turn_id e = Some (ct_id cat))
        \<and> \<not> (\<exists>n\<in>set (nf_records s). \<exists>l\<in>set (nf_native_links s). nr_uuid n = Some (snd l) \<and> fst l = ct_execution_process_id cat))"

definition bound_turn :: "feed \<Rightarrow> uuid option \<Rightarrow> datetime \<Rightarrow> new_cli_native_record \<Rightarrow> uuid option" where
  "bound_turn s session imported_at r =
     (if nn_kind r = ''user'' \<and> \<not> linked_to_execution s r then
        (case (nn_user_prompt r, session) of
           (Some prompt, Some sid) \<Rightarrow>
             (let reference_time = (case nn_recorded_at r of Some t \<Rightarrow> t | None \<Rightarrow> imported_at)
              in map_option (ct_id \<circ> fst) (limit_one (order_by_desc (ct_created_at \<circ> fst)
                   (filter (turn_matches s sid prompt reference_time) (List.product (nf_turns s) (nf_executions s))))))
         | _ \<Rightarrow> None)
      else None)"

definition sql_trim :: "string \<Rightarrow> string" where
  "sql_trim p =
     (let blank = (\<lambda>c. c \<in> {CHR 0x09, CHR 0x0A, CHR 0x0D, CHR 0x20})
      in rev (dropWhile blank (rev (dropWhile blank p))))"

text \<open>A pasted message that this record may acknowledge.\<close>

definition paste_open :: "session_queued_message \<Rightarrow> bool" where
  "paste_open q =
     (qm_state q \<in> {Pasting, Pasted} \<or> (qm_state q = Queued \<and> qm_failure_reason q = Some PASTED_REQUEUE_FAILURE_REASON))"

definition paste_matches :: "uuid \<Rightarrow> string \<Rightarrow> string \<Rightarrow> datetime \<Rightarrow> session_queued_message \<Rightarrow> bool" where
  "paste_matches sid csid prompt reference_time q =
     (qm_session_id q = sid \<and> paste_open q \<and> (qm_prompt q = prompt \<or> sql_trim (qm_prompt q) = prompt)
      \<and> (qm_claude_session_id q = None \<or> qm_claude_session_id q = Some csid)
      \<and> (case qm_pasted_at q of None \<Rightarrow> False
          | Some t \<Rightarrow> reference_time - 15 * 60 \<le> t \<and> t \<le> reference_time + 5))"

definition bound_queued ::
  "feed \<Rightarrow> uuid option \<Rightarrow> datetime \<Rightarrow> new_cli_native_record \<Rightarrow> uuid option \<Rightarrow> uuid option" where
  "bound_queued s session imported_at r turn =
     (if nn_kind r = ''user'' \<and> \<not> linked_to_execution s r \<and> turn = None then
        (case (case nn_user_prompt r of Some p \<Rightarrow> Some p | None \<Rightarrow> nn_paste_ack_prompt r, session) of
           (Some prompt, Some sid) \<Rightarrow>
             (let reference_time = (case nn_recorded_at r of Some t \<Rightarrow> t | None \<Rightarrow> imported_at)
              in map_option qm_id (limit_one (order_by_desc (\<lambda>q. case qm_pasted_at q of None \<Rightarrow> 0 | Some t \<Rightarrow> t)
                   (filter (paste_matches sid (nn_claude_session_id r) prompt reference_time) (nf_queue s)))))
         | _ \<Rightarrow> None)
      else None)"

definition new_record :: "uuid \<Rightarrow> new_cli_native_record \<Rightarrow> uuid option \<Rightarrow> uuid option \<Rightarrow> cli_native_record" where
  "new_record file_id r turn queued =
     \<lparr>nr_file_id = file_id, nr_line_seq = nn_line_seq r, nr_claude_session_id = nn_claude_session_id r, nr_uuid = nn_uuid r,
      nr_parent_uuid = nn_parent_uuid r, nr_kind = nn_kind r, nr_ts = nn_ts r, nr_raw = nn_raw r,
      nr_disposition = disposition_str (nn_disposition r), nr_bound_coding_agent_turn_id = turn, nr_bound_queued_message_id = queued\<rparr>"

text \<open>The primary key and the two unique indexes of the records.\<close>

definition record_conflict :: "cli_native_record \<Rightarrow> cli_native_record \<Rightarrow> bool" where
  "record_conflict r q =
     ((nr_file_id r = nr_file_id q \<and> nr_line_seq r = nr_line_seq q)
      \<or> (nr_bound_coding_agent_turn_id r \<noteq> None \<and> nr_bound_coding_agent_turn_id r = nr_bound_coding_agent_turn_id q)
      \<or> (nr_bound_queued_message_id r \<noteq> None \<and> nr_bound_queued_message_id r = nr_bound_queued_message_id q))"

definition ack_row :: "uuid \<Rightarrow> session_queued_message \<Rightarrow> bool" where
  "ack_row i q =
     (qm_id q = i \<and> (qm_state q \<in> {Pasting, Pasted}
        \<or> (qm_state q = Queued \<and> qm_failure_reason q = Some PASTED_REQUEUE_FAILURE_REASON \<and> qm_pasted_at q \<noteq> None)))"

definition ack_set :: "datetime \<Rightarrow> string \<Rightarrow> session_queued_message \<Rightarrow> session_queued_message" where
  "ack_set now csid q =
     q\<lparr>qm_state := Imported, qm_claude_session_id := (case qm_claude_session_id q of None \<Rightarrow> Some csid | Some c \<Rightarrow> Some c),
       qm_acked_at := Some now, qm_updated_at := now\<rparr>"

definition note_foreign_writer :: "feed \<Rightarrow> uuid option \<Rightarrow> datetime \<Rightarrow> native_import_context \<Rightarrow> new_cli_native_record \<Rightarrow> uuid option \<Rightarrow> feed" where
  "note_foreign_writer s session imported_at context r turn =
     (if nc_app_pane_absent context \<and> nn_kind r = ''user''
         \<and> (case nc_foreign_since context of None \<Rightarrow> True
             | Some since \<Rightarrow> (case nn_recorded_at r of None \<Rightarrow> False | Some t \<Rightarrow> since \<le> t))
         \<and> \<not> linked_to_execution s r \<and> turn = None then
        (case session of None \<Rightarrow> s
         | Some sid \<Rightarrow>
             if \<exists>ep\<in>set (nf_executions s). ep_session_id ep = sid \<and> ep_status ep = EpRunning \<and> ep_run_reason ep = CodingAgent then s
             else s\<lparr>nf_links := update_where (\<lambda>l. lk_claude_session_id l = nn_claude_session_id r \<and> lk_session_id l = sid)
                 (\<lambda>l. l\<lparr>lk_foreign_writer_seen_at := Some imported_at\<rparr>) (nf_links s)\<rparr>)
      else s)"

text \<open>
  One record of a batch: ignored when it conflicts, else stored, with its acknowledgement or the
  note of a foreign writer, and appended to the outbox.  The \<open>int\<close> is \<open>next_outbox_seq\<close>.
\<close>

definition import_one ::
  "uuid \<Rightarrow> uuid option \<Rightarrow> datetime \<Rightarrow> native_import_context \<Rightarrow> new_cli_native_record
     \<Rightarrow> feed \<times> int \<times> import_batch_result \<Rightarrow> db_error + feed \<times> int \<times> import_batch_result" where
  "import_one file_id session imported_at context r st =
     (case st of (s, next_seq, result) \<Rightarrow>
      let turn = bound_turn s session imported_at r;
          queued = bound_queued s session imported_at r turn;
          row = new_record file_id r turn queued
      in if \<exists>q\<in>set (nf_records s). record_conflict row q then Inr (s, next_seq, result)
         else if file_id \<notin> fl_id ` set (nf_files s) then Inl DbError
         else
           (let s1 = s\<lparr>nf_records := nf_records s @ [row]\<rparr>;
                s2 = (case queued of
                   Some i \<Rightarrow> s1\<lparr>nf_queue := update_where (ack_row i) (ack_set imported_at (nn_claude_session_id r)) (nf_queue s1)\<rparr>
                 | None \<Rightarrow> note_foreign_writer s1 session imported_at context r turn);
                result1 = result\<lparr>ib_inserted_records := ib_inserted_records result + 1\<rparr>
            in case session of
                 None \<Rightarrow> Inr (s2, next_seq, result1)
               | Some sid \<Rightarrow>
                   (let ob = \<lparr>ob_session_id = sid, ob_seq = next_seq, ob_file_id = file_id, ob_line_seq = nn_line_seq r,
                         ob_created_at = imported_at\<rparr>
                    in if sid \<notin> ss_id ` set (nf_sessions s2) \<or> (\<exists>q\<in>set (nf_outbox s2). outbox_conflict ob q) then Inl DbError
                       else Inr (s2\<lparr>nf_outbox := nf_outbox s2 @ [ob]\<rparr>, next_seq + 1,
                          result1\<lparr>ib_appended_outbox := ib_appended_outbox result + 1, ib_last_seq := next_seq\<rparr>))))"

primrec import_loop ::
  "uuid \<Rightarrow> uuid option \<Rightarrow> datetime \<Rightarrow> native_import_context \<Rightarrow> new_cli_native_record list
     \<Rightarrow> feed \<times> int \<times> import_batch_result \<Rightarrow> db_error + feed \<times> int \<times> import_batch_result" where
  "import_loop file_id session imported_at context [] st = Inr st"
| "import_loop file_id session imported_at context (r # rs) st =
     bind_err (import_one file_id session imported_at context r st) (import_loop file_id session imported_at context rs)"

definition file_session :: "feed \<Rightarrow> uuid \<Rightarrow> uuid option" where
  "file_session s file_id =
     (case find_file (nf_files s) file_id of
        None \<Rightarrow> None
      | Some f \<Rightarrow> map_option lk_session_id (find_link (nf_links s) (fl_claude_session_id f)))"

definition advance_cursor :: "imported_cursor \<Rightarrow> datetime \<Rightarrow> cli_native_file \<Rightarrow> cli_native_file" where
  "advance_cursor cursor now f =
     f\<lparr>fl_cursor_offset := ic_cursor_offset cursor, fl_next_line_seq := ic_next_line_seq cursor,
       fl_last_line_offset := ic_last_line_offset cursor, fl_last_line_hash := ic_last_line_hash cursor,
       fl_observed_size := ic_observed_size cursor, fl_observed_mtime_ms := ic_observed_mtime_ms cursor,
       fl_last_import_at := Some now, fl_updated_at := now\<rparr>"

definition import_batch_in_transaction ::
  "feed \<Rightarrow> datetime \<Rightarrow> uuid \<Rightarrow> new_cli_native_record list \<Rightarrow> imported_cursor \<Rightarrow> int option \<Rightarrow> native_import_context
     \<Rightarrow> db_error + import_batch_result \<times> feed" where
  "import_batch_in_transaction s now file_id records cursor minimum_next_outbox_seq context =
     (let session = file_session s file_id;
          next_seq = (case session of None \<Rightarrow> 0
            | Some sid \<Rightarrow> max (next_seq_in_transaction s sid) (coalesce minimum_next_outbox_seq 1))
      in bind_err (import_loop file_id session now context records
           (s, next_seq, \<lparr>ib_inserted_records = 0, ib_appended_outbox = 0, ib_last_seq = 0\<rparr>)) (\<lambda>(s1, _, result).
         Inr (result, s1\<lparr>nf_files := update_where (\<lambda>f. fl_id f = file_id) (advance_cursor cursor now) (nf_files s1)\<rparr>)))"

definition import_batch_with_context ::
  "feed \<Rightarrow> datetime \<Rightarrow> uuid \<Rightarrow> new_cli_native_record list \<Rightarrow> imported_cursor \<Rightarrow> native_import_context
     \<Rightarrow> db_error + import_batch_result \<times> feed" where
  "import_batch_with_context s now file_id records cursor context =
     import_batch_in_transaction s now file_id records cursor None context"

definition import_batch ::
  "feed \<Rightarrow> datetime \<Rightarrow> uuid \<Rightarrow> new_cli_native_record list \<Rightarrow> imported_cursor \<Rightarrow> db_error + import_batch_result \<times> feed" where
  "import_batch s now file_id records cursor =
     import_batch_in_transaction s now file_id records cursor None \<lparr>nc_app_pane_absent = False, nc_foreign_since = None\<rparr>"

definition next_generation :: "feed \<Rightarrow> register_cli_native_file \<Rightarrow> int" where
  "next_generation s data =
     (case map fl_generation (filter (\<lambda>f. fl_dir_path f = rg_dir_path data \<and> fl_file_name f = rg_file_name data) (nf_files s)) of
        [] \<Rightarrow> - 1 | g # gs \<Rightarrow> foldl max g gs) + 1"

definition replace_generation_and_import_batch_with_context ::
  "feed \<Rightarrow> uuid \<Rightarrow> datetime \<Rightarrow> register_cli_native_file \<Rightarrow> new_cli_native_record list \<Rightarrow> imported_cursor \<Rightarrow> native_import_context
     \<Rightarrow> db_error + (cli_native_file \<times> import_batch_result) \<times> feed" where
  "replace_generation_and_import_batch_with_context s fresh now data records cursor context =
     (let next_outbox_seq = map_option (next_seq_in_transaction s \<circ> lk_session_id) (find_link (nf_links s) (rg_claude_session_id data)) in
      bind_err (insert_file s (new_file data fresh now (next_generation s data))) (\<lambda>s1.
      let s2 = delete_files (\<lambda>f. fl_dir_path f = rg_dir_path data \<and> fl_file_name f = rg_file_name data \<and> fl_id f \<noteq> fresh) s1 in
      bind_err (import_batch_in_transaction s2 now fresh records cursor next_outbox_seq context) (\<lambda>(imported, s3).
      bind_err (ok_or (find_file (nf_files s3) fresh) DbError) (\<lambda>f. Inr ((f, imported), s3)))))"

section \<open>Reading the feed\<close>

record session_native_record =
  sn_record :: cli_native_record
  sn_seq :: int
  sn_file :: cli_native_file
  sn_link_cwd :: string

text \<open>The rows a session's projection is made of; the execution a row is attributed to is not modelled.\<close>

definition list_for_session_after :: "feed \<Rightarrow> uuid \<Rightarrow> int \<Rightarrow> session_native_record list" where
  "list_for_session_after s sid after_seq =
     order_by sn_seq
       (map (\<lambda>(r, f, l, ob). \<lparr>sn_record = r, sn_seq = ob_seq ob, sn_file = f, sn_link_cwd = lk_cwd l\<rparr>)
         (filter (\<lambda>(r, f, l, ob). fl_id f = nr_file_id r \<and> lk_claude_session_id l = nr_claude_session_id r
              \<and> ob_file_id ob = nr_file_id r \<and> ob_line_seq ob = nr_line_seq r \<and> ob_session_id ob = lk_session_id l
              \<and> lk_session_id l = sid \<and> ob_seq ob > after_seq \<and> is_latest_generation (nf_files s) f)
            (List.product (nf_records s) (List.product (nf_files s) (List.product (nf_links s) (nf_outbox s))))))"

text \<open>\<open>after_seq\<close> is \<open>i64::MIN\<close>, below every sequence number the table can hold.\<close>

definition list_for_session :: "feed \<Rightarrow> uuid \<Rightarrow> session_native_record list" where
  "list_for_session s sid = list_for_session_after s sid (- (2 ^ 63))"

definition count_for_file :: "feed \<Rightarrow> uuid \<Rightarrow> nat" where
  "count_for_file s file_id = length (filter (\<lambda>r. nr_file_id r = file_id) (nf_records s))"

section \<open>Sessions discovered in a pane\<close>

definition adoption_eligible :: "feed \<Rightarrow> uuid \<Rightarrow> string option \<Rightarrow> string \<Rightarrow> uuid \<Rightarrow> uuid \<Rightarrow> uuid \<Rightarrow> bool" where
  "adoption_eligible s binding_id current csid sid w expected =
     (\<exists>b\<in>set (nf_bindings s). \<exists>ss\<in>set (nf_sessions s).
        ss_id ss = sid \<and> pb_id b = binding_id \<and> pb_workspace_id b = w \<and> pb_session_id b = expected
        \<and> pb_claude_session_id b = current \<and> pb_active b \<and> ss_workspace_id ss = pb_workspace_id b
        \<and> ss_executor ss = Some ''CLAUDE_CODE''
        \<and> (\<exists>f\<in>set (nf_files s). fl_claude_session_id f = csid \<and> fl_discovered_workspace_id f = Some (pb_workspace_id b))
        \<and> \<not> (\<exists>f\<in>set (nf_files s). fl_claude_session_id f = csid
               \<and> (case fl_discovered_workspace_id f of None \<Rightarrow> False | Some w' \<Rightarrow> w' \<noteq> pb_workspace_id b))
        \<and> \<not> (\<exists>ep\<in>set (nf_executions s). ep_session_id ep \<in> {ss_id ss, pb_session_id b} \<and> ep_run_reason ep = CodingAgent
               \<and> ep_status ep = EpRunning \<and> \<not> ep_dropped ep))"

definition run_by_another_session :: "feed \<Rightarrow> string \<Rightarrow> uuid \<Rightarrow> bool" where
  "run_by_another_session s csid sid =
     (\<exists>t\<in>set (nf_turns s). \<exists>ep\<in>set (nf_executions s). ep_id ep = ct_execution_process_id t
        \<and> ct_agent_session_id t = Some csid \<and> ep_session_id ep \<noteq> sid \<and> \<not> ep_dropped ep)"

definition still_runs :: "uuid \<Rightarrow> uuid \<Rightarrow> uuid \<Rightarrow> string option \<Rightarrow> cli_pane_binding \<Rightarrow> bool" where
  "still_runs binding_id w sid current b =
     (pb_id b = binding_id \<and> pb_workspace_id b = w \<and> pb_active b \<and> pb_claude_session_id b = current \<and> pb_session_id b = sid
      \<and> (current \<noteq> None \<or> pb_bound_via b = CliFresh))"

definition assign_checked ::
  "feed \<Rightarrow> uuid \<Rightarrow> datetime \<Rightarrow> uuid \<Rightarrow> string option \<Rightarrow> string \<Rightarrow> uuid \<Rightarrow> uuid \<Rightarrow> string \<Rightarrow> uuid option
     \<Rightarrow> db_error + claude_session_link_mutation option \<times> feed" where
  "assign_checked s fresh now binding_id current csid sid w cwd adoption =
     (if (case adoption of None \<Rightarrow> False | Some expected \<Rightarrow> \<not> adoption_eligible s binding_id current csid sid w expected)
      then Inr (None, s)
      else
      let previous = map_option lk_session_id (find_link (nf_links s) csid) in
      if (case previous of None \<Rightarrow> False | Some owner \<Rightarrow> owner \<noteq> sid) \<or> run_by_another_session s csid sid then Inr (None, s)
      else if adoption = None \<and> rows_affected (still_runs binding_id w sid current) (nf_bindings s) = 0 then Inr (None, s)
      else
      let s1 = (if adoption = None then s\<lparr>nf_bindings := update_where (still_runs binding_id w sid current)
                  (\<lambda>b. b\<lparr>pb_claude_session_id := Some csid\<rparr>) (nf_bindings s)\<rparr> else s) in
      bind_err (insert_link s1 csid sid w cwd ViaCliFresh now) (\<lambda>s2.
      case publish_missing s2 sid csid now of (republished, s3) \<Rightarrow>
      bind_err (if adoption = None then Inr s3
          else bind_err (insert_binding (update_where (\<lambda>b. pb_id b = binding_id \<and> pb_active b) (release_set now) (nf_bindings s3))
                 \<lparr>pb_id = fresh, pb_workspace_id = w, pb_session_id = sid, pb_claude_session_id = Some csid,
                  pb_bound_via = CliFresh, pb_created_at = now, pb_released_at = None\<rparr>) (\<lambda>bs. Inr (s3\<lparr>nf_bindings := bs\<rparr>))) (\<lambda>s4.
      bind_err (ok_or (find_link (nf_links s4) csid) DbError) (\<lambda>link.
      Inr (Some \<lparr>lm_link = link, lm_previous_session_id = previous, lm_republished_outbox = republished\<rparr>, s4)))))"

definition assign_discovered_session ::
  "feed \<Rightarrow> uuid \<Rightarrow> datetime \<Rightarrow> uuid \<Rightarrow> string option \<Rightarrow> string \<Rightarrow> uuid \<Rightarrow> uuid \<Rightarrow> string
     \<Rightarrow> db_error + claude_session_link_mutation option \<times> feed" where
  "assign_discovered_session s fresh now binding_id current csid sid w cwd =
     assign_checked s fresh now binding_id current csid sid w cwd None"

definition adopt_session ::
  "feed \<Rightarrow> uuid \<Rightarrow> datetime \<Rightarrow> uuid \<Rightarrow> uuid \<Rightarrow> string option \<Rightarrow> string \<Rightarrow> uuid \<Rightarrow> uuid \<Rightarrow> string
     \<Rightarrow> db_error + claude_session_link_mutation option \<times> feed" where
  "adopt_session s fresh now binding_id expected current csid sid w cwd =
     assign_checked s fresh now binding_id current csid sid w cwd (Some expected)"

end
