(* ===== verification/FeedInvariant.thy ===== *)
theory FeedInvariant
  imports NativeFeed
begin

text \<open>
  The invariant of the transcript tables, and that every operation on them keeps it: a line is
  stored once, a message is acknowledged once, and every record of a linked transcript is in the
  feed of its session exactly once.
\<close>

section \<open>The invariant\<close>

definition record_key :: "cli_native_record \<Rightarrow> uuid \<times> int" where
  "record_key r = (nr_file_id r, nr_line_seq r)"

definition outbox_key :: "cli_ingest_outbox \<Rightarrow> uuid \<times> uuid \<times> int" where
  "outbox_key ob = (ob_session_id ob, ob_file_id ob, ob_line_seq ob)"

definition file_path :: "cli_native_file \<Rightarrow> string \<times> string" where
  "file_path f = (fl_dir_path f, fl_file_name f)"

definition files_inv :: "feed \<Rightarrow> bool" where
  "files_inv s = (distinct (map fl_id (nf_files s)) \<and> distinct (map file_path (nf_files s)))"

definition records_inv :: "feed \<Rightarrow> bool" where
  "records_inv s =
     (distinct (map record_key (nf_records s))
      \<and> (\<forall>r\<in>set (nf_records s). \<exists>f\<in>set (nf_files s). fl_id f = nr_file_id r \<and> fl_claude_session_id f = nr_claude_session_id r))"

definition acks_inv :: "feed \<Rightarrow> bool" where
  "acks_inv s =
     (queue_inv (nf_queue s)
      \<and> (\<forall>r\<in>set (nf_records s). \<forall>i. nr_bound_queued_message_id r = Some i \<longrightarrow>
           (\<exists>q\<in>set (nf_queue s). qm_id q = i \<and> qm_state q = Imported)
           \<and> (\<forall>r'\<in>set (nf_records s). nr_bound_queued_message_id r' = Some i \<longrightarrow> r' = r)))"

definition outbox_inv :: "feed \<Rightarrow> bool" where
  "outbox_inv s =
     (distinct (map (\<lambda>ob. (ob_session_id ob, ob_seq ob)) (nf_outbox s)) \<and> distinct (map outbox_key (nf_outbox s))
      \<and> (\<forall>ob\<in>set (nf_outbox s). (ob_file_id ob, ob_line_seq ob) \<in> record_key ` set (nf_records s)
           \<and> ob_session_id ob \<in> ss_id ` set (nf_sessions s) \<and> 0 < ob_seq ob))"

definition links_inv :: "feed \<Rightarrow> bool" where
  "links_inv s =
     (distinct (map lk_claude_session_id (nf_links s)) \<and> (\<forall>l\<in>set (nf_links s). lk_session_id l \<in> ss_id ` set (nf_sessions s)))"

text \<open>Completeness of the feeds, for the transcripts that satisfy \<open>p\<close>.\<close>

definition feeds_complete :: "(string \<Rightarrow> bool) \<Rightarrow> feed \<Rightarrow> bool" where
  "feeds_complete p s =
     (\<forall>r\<in>set (nf_records s). \<forall>l\<in>set (nf_links s). lk_claude_session_id l = nr_claude_session_id r \<longrightarrow> p (nr_claude_session_id r)
        \<longrightarrow> (lk_session_id l, record_key r) \<in> outbox_key ` set (nf_outbox s))"

definition tables_ok :: "feed \<Rightarrow> bool" where
  "tables_ok s = (files_inv s \<and> records_inv s \<and> acks_inv s \<and> outbox_inv s \<and> links_inv s)"

definition feed_inv :: "feed \<Rightarrow> bool" where
  "feed_inv s = (tables_ok s \<and> feeds_complete (\<lambda>_. True) s)"

lemmas feed_inv_defs = feed_inv_def tables_ok_def files_inv_def records_inv_def acks_inv_def outbox_inv_def links_inv_def
  feeds_complete_def

section \<open>Sequence numbers\<close>

lemma foldl_max_start: "(q :: int) \<le> foldl max q qs"
  by (induction qs arbitrary: q) (auto intro: order_trans [OF max.cobounded1])

lemma foldl_max_ge: "x \<in> set (q # qs) \<Longrightarrow> x \<le> foldl max (q :: int) qs"
proof (induction qs arbitrary: q)
  case (Cons y qs)
  have "max q y \<le> foldl max (max q y) qs" and "x \<in> set qs \<Longrightarrow> x \<le> foldl max (max q y) qs"
    using Cons.IH [of "max q y"] Cons.IH [of "max q y"] foldl_max_start by auto
  with Cons.prems show ?case by auto
qed simp

lemma max_seq_ge: "ob \<in> set rows \<Longrightarrow> ob_session_id ob = sid \<Longrightarrow> ob_seq ob \<le> coalesce (max_seq rows sid) d"
proof -
  assume ob: "ob \<in> set rows" "ob_session_id ob = sid"
  then have mem: "ob_seq ob \<in> set (map ob_seq (filter (\<lambda>ob. ob_session_id ob = sid) rows))" by auto
  show ?thesis
  proof (cases "map ob_seq (filter (\<lambda>ob. ob_session_id ob = sid) rows)")
    case (Cons q qs)
    with mem foldl_max_ge [of "ob_seq ob" q qs] show ?thesis by (simp add: max_seq_def coalesce_def)
  qed (use mem in simp)
qed

lemma next_seq_fresh: "ob \<in> set (nf_outbox s) \<Longrightarrow> ob_session_id ob = sid \<Longrightarrow> ob_seq ob < next_seq_in_transaction s sid"
  using max_seq_ge [of ob "nf_outbox s" sid 0] by (simp add: next_seq_in_transaction_def)

lemma next_seq_pos: "outbox_inv s \<Longrightarrow> 0 < next_seq_in_transaction s sid"
proof (cases "filter (\<lambda>ob. ob_session_id ob = sid) (nf_outbox s)")
  case Nil
  then show ?thesis by (simp add: next_seq_in_transaction_def max_seq_def coalesce_def)
next
  assume inv: "outbox_inv s"
  case (Cons ob obs)
  then have "ob \<in> set (nf_outbox s)" "ob_session_id ob = sid" by (auto simp: filter_eq_Cons_iff)
  with next_seq_fresh [of ob s sid] inv show ?thesis by (fastforce simp: outbox_inv_def)
qed

lemma next_seq_latest: "next_seq_in_transaction s sid = latest_seq s sid + 1"
  by (simp add: next_seq_in_transaction_def latest_seq_def)

section \<open>Publishing a transcript\<close>

lemma foldl_insert_or_ignore:
  "(\<And>ob q. ob \<in> set new \<Longrightarrow> q \<in> set rows \<Longrightarrow> \<not> outbox_conflict ob q)
    \<Longrightarrow> sorted_wrt (\<lambda>q ob. \<not> outbox_conflict ob q) new \<Longrightarrow> foldl insert_or_ignore_outbox rows new = rows @ new"
proof (induction new arbitrary: rows)
  case (Cons ob new)
  then have "insert_or_ignore_outbox rows ob = rows @ [ob]" by (auto simp: insert_or_ignore_outbox_def)
  moreover have "foldl insert_or_ignore_outbox (rows @ [ob]) new = (rows @ [ob]) @ new"
    by (rule Cons.IH) (use Cons.prems in auto)
  ultimately show ?case by simp
qed simp

lemma outbox_rows_nth:
  "k < length rs \<Longrightarrow> outbox_rows sid now n rs ! k = \<lparr>ob_session_id = sid, ob_seq = n + int k, ob_file_id = nr_file_id (rs ! k),
     ob_line_seq = nr_line_seq (rs ! k), ob_created_at = now\<rparr>"
  by (simp add: outbox_rows_def nth_enumerate_eq)

lemma length_outbox_rows [simp]: "length (outbox_rows sid now n rs) = length rs"
  by (simp add: outbox_rows_def)

lemma in_outbox_rowsE:
  assumes "ob \<in> set (outbox_rows sid now n rs)"
  obtains k where "k < length rs" "ob = \<lparr>ob_session_id = sid, ob_seq = n + int k, ob_file_id = nr_file_id (rs ! k),
     ob_line_seq = nr_line_seq (rs ! k), ob_created_at = now\<rparr>"
  using assms by (metis in_set_conv_nth length_outbox_rows outbox_rows_nth)

lemma map_outbox_key_rows: "map outbox_key (outbox_rows sid now n rs) = map (\<lambda>r. (sid, record_key r)) rs"
  by (rule nth_equalityI) (simp_all add: outbox_rows_nth outbox_key_def record_key_def)

lemma outbox_rows_snoc:
  "outbox_rows sid now n (rs @ [r]) = outbox_rows sid now n rs @ [\<lparr>ob_session_id = sid, ob_seq = n + int (length rs),
     ob_file_id = nr_file_id r, ob_line_seq = nr_line_seq r, ob_created_at = now\<rparr>]"
  by (simp add: outbox_rows_def enumerate_append_eq)

text \<open>Rows numbered from \<open>n\<close> on do not conflict with each other, nor with rows that are numbered below or are about other records.\<close>

lemma append_outbox_rows:
  assumes inv: "outbox_inv s" and fresh: "\<And>ob. ob \<in> set (nf_outbox s) \<Longrightarrow> ob_session_id ob = sid \<Longrightarrow> ob_seq ob < n"
    and new: "distinct (map record_key rs)" "set rs \<subseteq> set (nf_records s)"
    and unpublished: "\<And>r. r \<in> set rs \<Longrightarrow> (sid, record_key r) \<notin> outbox_key ` set (nf_outbox s)"
    and sid: "sid \<in> ss_id ` set (nf_sessions s)" and pos: "0 < n"
  shows "foldl insert_or_ignore_outbox (nf_outbox s) (outbox_rows sid now n rs) = nf_outbox s @ outbox_rows sid now n rs"
    and "outbox_inv (s\<lparr>nf_outbox := nf_outbox s @ outbox_rows sid now n rs\<rparr>)"
proof -
  let ?new = "outbox_rows sid now n rs"
  have keys: "outbox_key ob \<notin> outbox_key ` set (nf_outbox s)" if "ob \<in> set ?new" for ob
  proof -
    have "outbox_key ob \<in> set (map outbox_key ?new)" using that by simp
    then obtain r where "r \<in> set rs" "outbox_key ob = (sid, record_key r)" unfolding map_outbox_key_rows by auto
    with unpublished show ?thesis by simp
  qed
  have apart: "\<not> outbox_conflict ob q" if "ob \<in> set ?new" "q \<in> set (nf_outbox s)" for ob q
  proof
    assume c: "outbox_conflict ob q"
    from that(1) obtain k where "ob_session_id ob = sid" "ob_seq ob = n + int k" by (rule in_outbox_rowsE) simp
    with c fresh [OF that(2)] have "outbox_key ob = outbox_key q" by (auto simp: outbox_conflict_def outbox_key_def)
    with keys that show False by auto
  qed
  have dk: "distinct (map outbox_key ?new)"
    unfolding map_outbox_key_rows using new(1) by (auto simp: distinct_conv_nth)
  have sorted: "sorted_wrt (\<lambda>q ob. \<not> outbox_conflict ob q) ?new"
    unfolding sorted_wrt_iff_nth_less
  proof (intro allI impI)
    fix i j assume ij: "i < j" "j < length ?new"
    then have "outbox_key (?new ! i) \<noteq> outbox_key (?new ! j)"
      using dk by (auto simp: distinct_conv_nth)
    with ij show "\<not> outbox_conflict (?new ! j) (?new ! i)"
      by (auto simp: outbox_conflict_def outbox_key_def outbox_rows_nth)
  qed
  show "foldl insert_or_ignore_outbox (nf_outbox s) ?new = nf_outbox s @ ?new"
    by (rule foldl_insert_or_ignore) (use apart sorted in auto)
  have "distinct (map (\<lambda>ob. (ob_session_id ob, ob_seq ob)) ?new)"
    unfolding distinct_conv_nth by (simp add: outbox_rows_nth)
  moreover have "(\<lambda>ob. (ob_session_id ob, ob_seq ob)) ` set (nf_outbox s) \<inter> (\<lambda>ob. (ob_session_id ob, ob_seq ob)) ` set ?new = {}"
    using apart by (fastforce simp: outbox_conflict_def)
  moreover have "(ob_file_id ob, ob_line_seq ob) \<in> record_key ` set (nf_records s)" if "ob \<in> set ?new" for ob
    using that
  proof (rule in_outbox_rowsE)
    fix k assume k: "k < length rs" and ob: "ob = \<lparr>ob_session_id = sid, ob_seq = n + int k, ob_file_id = nr_file_id (rs ! k),
        ob_line_seq = nr_line_seq (rs ! k), ob_created_at = now\<rparr>"
    have "rs ! k \<in> set (nf_records s)" using k new(2) by auto
    then show ?thesis by (auto simp: ob record_key_def)
  qed
  moreover have "ob_session_id ob \<in> ss_id ` set (nf_sessions s) \<and> 0 < ob_seq ob" if "ob \<in> set ?new" for ob
    using that sid pos by (auto elim: in_outbox_rowsE)
  moreover have "outbox_key ` set (nf_outbox s) \<inter> outbox_key ` set ?new = {}"
  proof (rule ccontr)
    assume "outbox_key ` set (nf_outbox s) \<inter> outbox_key ` set ?new \<noteq> {}"
    then obtain ob where "ob \<in> set ?new" "outbox_key ob \<in> outbox_key ` set (nf_outbox s)" by force
    with keys show False by simp
  qed
  ultimately show "outbox_inv (s\<lparr>nf_outbox := nf_outbox s @ ?new\<rparr>)"
    using inv dk by (simp add: outbox_inv_def ball_Un)
qed

lemma files_by_id: "files_inv s \<Longrightarrow> f \<in> set (nf_files s) \<Longrightarrow> g \<in> set (nf_files s) \<Longrightarrow> fl_id f = fl_id g \<Longrightarrow> f = g"
  by (auto simp: files_inv_def distinct_map inj_on_def)

lemma distinct_of_keys: "distinct (map k xs) \<Longrightarrow> distinct xs"
  by (simp add: distinct_map)

lemma set_missing_records:
  assumes "records_inv s"
  shows "set (missing_records s sid csid) =
    {r \<in> set (nf_records s). nr_claude_session_id r = csid \<and> (sid, record_key r) \<notin> outbox_key ` set (nf_outbox s)}"
proof -
  have "\<exists>f\<in>set (nf_files s). fl_id f = nr_file_id r" if "r \<in> set (nf_records s)" for r
    using assms that by (auto simp: records_inv_def)
  then show ?thesis
    by (fastforce simp: missing_records_def outbox_key_def record_key_def image_iff)
qed

lemma distinct_missing_records:
  assumes "tables_ok s"
  shows "distinct (map record_key (missing_records s sid csid))"
proof -
  have d: "distinct (nf_records s)" "distinct (nf_files s)" "inj_on record_key (set (nf_records s))"
    using assms by (auto simp: tables_ok_def records_inv_def files_inv_def distinct_map)
  let ?pairs = "filter (\<lambda>(r, f). fl_id f = nr_file_id r \<and> nr_claude_session_id r = csid
      \<and> \<not> (\<exists>ob\<in>set (nf_outbox s). ob_session_id ob = sid \<and> ob_file_id ob = nr_file_id r \<and> ob_line_seq ob = nr_line_seq r))
      (List.product (nf_records s) (nf_files s))"
  have "inj_on fst (set ?pairs)"
    using assms by (auto simp: inj_on_def tables_ok_def dest: files_by_id)
  moreover have "distinct ?pairs" using d by (simp add: distinct_product)
  ultimately have "distinct (missing_records s sid csid)"
    by (auto simp: missing_records_def distinct_map order_by_def)
  moreover have "set (missing_records s sid csid) \<subseteq> set (nf_records s)" by (auto simp: missing_records_def)
  ultimately show ?thesis using d(3) by (auto simp: distinct_map intro: inj_on_subset)
qed

lemma publish_missing_rows:
  fixes s :: feed and sid :: uuid and csid :: string
  assumes ok: "tables_ok s" and sid: "sid \<in> ss_id ` set (nf_sessions s)"
  defines "new \<equiv> missing_records s sid csid"
  shows "publish_missing s sid csid now
      = (length new, s\<lparr>nf_outbox := nf_outbox s @ outbox_rows sid now (next_seq_in_transaction s sid) new\<rparr>)"
    and "tables_ok (snd (publish_missing s sid csid now))"
    and "feeds_complete p s \<Longrightarrow> (\<And>l. l \<in> set (nf_links s) \<Longrightarrow> lk_claude_session_id l = csid \<Longrightarrow> lk_session_id l = sid)
      \<Longrightarrow> feeds_complete (\<lambda>c. p c \<or> c = csid) (snd (publish_missing s sid csid now))"
proof -
  have inv: "outbox_inv s" "records_inv s" using ok by (auto simp: tables_ok_def)
  note mem = set_missing_records [OF inv(2), of sid csid]
  have app: "foldl insert_or_ignore_outbox (nf_outbox s) (outbox_rows sid now (next_seq_in_transaction s sid) new)
        = nf_outbox s @ outbox_rows sid now (next_seq_in_transaction s sid) new"
      "outbox_inv (s\<lparr>nf_outbox := nf_outbox s @ outbox_rows sid now (next_seq_in_transaction s sid) new\<rparr>)"
    using append_outbox_rows [OF inv(1) next_seq_fresh distinct_missing_records [OF ok, of sid csid]] mem sid next_seq_pos [OF inv(1)]
    by (auto simp: new_def)
  show eq: "publish_missing s sid csid now
      = (length new, s\<lparr>nf_outbox := nf_outbox s @ outbox_rows sid now (next_seq_in_transaction s sid) new\<rparr>)"
    unfolding publish_missing_def Let_def new_def [symmetric] app(1) by simp
  show "tables_ok (snd (publish_missing s sid csid now))"
    using ok app(2) unfolding eq
    by (simp add: tables_ok_def files_inv_def records_inv_def acks_inv_def links_inv_def)
  have keys: "outbox_key ` set (outbox_rows sid now n new) = (\<lambda>r. (sid, record_key r)) ` set new" for n
    using map_outbox_key_rows [of sid now n new] by (metis list.set_map)
  show "feeds_complete (\<lambda>c. p c \<or> c = csid) (snd (publish_missing s sid csid now))"
    if "feeds_complete p s" "\<And>l. l \<in> set (nf_links s) \<Longrightarrow> lk_claude_session_id l = csid \<Longrightarrow> lk_session_id l = sid"
  proof -
    have "(lk_session_id l, record_key r) \<in> outbox_key ` set (nf_outbox s) \<union> (\<lambda>r. (sid, record_key r)) ` set new"
      if "r \<in> set (nf_records s)" "l \<in> set (nf_links s)" "lk_claude_session_id l = nr_claude_session_id r"
        "p (nr_claude_session_id r) \<or> nr_claude_session_id r = csid" for r l
      using that \<open>feeds_complete p s\<close> \<open>\<And>l. l \<in> set (nf_links s) \<Longrightarrow> lk_claude_session_id l = csid \<Longrightarrow> lk_session_id l = sid\<close> mem
      by (auto simp: feeds_complete_def new_def)
    then show ?thesis unfolding eq by (simp add: feeds_complete_def image_Un keys)
  qed
qed

section \<open>Links\<close>

lemma insert_link_inv:
  assumes inv: "feed_inv s" and ins: "insert_link s csid sid w cwd via now = Inr s1"
  shows "tables_ok s1 \<and> feeds_complete (\<lambda>c. c \<noteq> csid) s1 \<and> sid \<in> ss_id ` set (nf_sessions s1)
    \<and> (\<forall>l\<in>set (nf_links s1). lk_claude_session_id l = csid \<longrightarrow> lk_session_id l = sid)
    \<and> nf_records s1 = nf_records s \<and> nf_queue s1 = nf_queue s \<and> nf_outbox s1 = nf_outbox s"
proof -
  have sid: "sid \<in> ss_id ` set (nf_sessions s)" using ins by (auto simp: insert_link_def split: if_splits)
  show ?thesis
  proof (cases "linked s csid")
    case True
    let ?set = "\<lambda>l. l\<lparr>lk_session_id := sid, lk_workspace_id := w, lk_cwd := cwd, lk_bound_via := via\<rparr>"
    have s1: "s1 = s\<lparr>nf_links := update_where (\<lambda>l. lk_claude_session_id l = csid) ?set (nf_links s)\<rparr>"
      using ins True by (auto simp: insert_link_def split: if_splits)
    have "map lk_claude_session_id (update_where (\<lambda>l. lk_claude_session_id l = csid) ?set (nf_links s)) = map lk_claude_session_id (nf_links s)"
      by (rule map_key_update_where) simp
    then have "links_inv s1"
      unfolding s1 using inv sid by (simp add: feed_inv_def tables_ok_def links_inv_def ball_update_where)
    moreover have "feeds_complete (\<lambda>c. c \<noteq> csid) s1"
      unfolding s1 using inv by (simp add: feed_inv_def feeds_complete_def ball_update_where)
    moreover have "\<forall>l\<in>set (nf_links s1). lk_claude_session_id l = csid \<longrightarrow> lk_session_id l = sid"
      unfolding s1 by (simp add: ball_update_where)
    ultimately show ?thesis
      using inv sid by (simp add: s1 feed_inv_def tables_ok_def files_inv_def records_inv_def acks_inv_def outbox_inv_def)
  next
    case False
    then have "s1 = s\<lparr>nf_links := nf_links s @ [\<lparr>lk_claude_session_id = csid, lk_session_id = sid, lk_workspace_id = w,
          lk_cwd = cwd, lk_bound_via = via, lk_created_at = now, lk_foreign_writer_seen_at = None\<rparr>]\<rparr>"
      using ins by (auto simp: insert_link_def split: if_splits)
    with inv sid False show ?thesis by (auto simp: feed_inv_defs linked_def)
  qed
qed

lemma feed_inv_complete: "tables_ok s \<Longrightarrow> feeds_complete (\<lambda>c. c \<noteq> csid \<or> c = csid) s \<Longrightarrow> feed_inv s"
  by (simp add: feed_inv_def)

lemma link_and_publish_inv:
  assumes "feed_inv s" and "insert_link s csid sid w cwd via now = Inr s1"
  shows "feed_inv (snd (publish_missing s1 sid csid now))"
proof -
  note s1 = insert_link_inv [OF assms]
  from s1 have ok: "tables_ok s1" "sid \<in> ss_id ` set (nf_sessions s1)" "feeds_complete (\<lambda>c. c \<noteq> csid) s1"
    and owner: "\<And>l. l \<in> set (nf_links s1) \<Longrightarrow> lk_claude_session_id l = csid \<Longrightarrow> lk_session_id l = sid" by auto
  show ?thesis
    by (rule feed_inv_complete [where csid = csid])
      (rule publish_missing_rows(2) [OF ok(1,2)], rule publish_missing_rows(3) [OF ok(1,2,3) owner])
qed

lemma upsert_link_inv: "feed_inv s \<Longrightarrow> upsert_link s csid sid w cwd via now = Inr (m, t) \<Longrightarrow> feed_inv t"
  by (auto simp: upsert_link_def Let_def bind_err_Inr_iff ok_or_Inr_iff case_prod_unfold dest: link_and_publish_inv)

lemma feed_inv_bindings [simp]: "feed_inv (s\<lparr>nf_bindings := bs\<rparr>) \<longleftrightarrow> feed_inv s"
  by (simp add: feed_inv_defs)

lemma assign_checked_inv:
  assumes inv: "feed_inv s" and run: "assign_checked s fresh now binding_id current csid sid w cwd adoption = Inr (m, t)"
  shows "feed_inv t"
proof (cases "t = s")
  case False
  with run obtain s1 s2 bs where s1: "s1 = s \<or> (\<exists>bs. s1 = s\<lparr>nf_bindings := bs\<rparr>)"
    and s2: "insert_link s1 csid sid w cwd ViaCliFresh now = Inr s2"
    and t: "t = snd (publish_missing s2 sid csid now) \<or> t = snd (publish_missing s2 sid csid now)\<lparr>nf_bindings := bs\<rparr>"
    by (auto simp: assign_checked_def Let_def bind_err_Inr_iff ok_or_Inr_iff case_prod_unfold split: if_splits option.splits)
  have "feed_inv s1" using s1 inv by auto
  from link_and_publish_inv [OF this s2] t show ?thesis by auto
qed (simp add: inv)

section \<open>Files\<close>

lemma delete_files_sel:
  "nf_files (delete_files p s) = filter (\<lambda>f. \<not> p f) (nf_files s)"
  "nf_records (delete_files p s) = filter (\<lambda>r. nr_file_id r \<notin> fl_id ` set (filter p (nf_files s))) (nf_records s)"
  "nf_outbox (delete_files p s) = filter (\<lambda>ob. ob_file_id ob \<notin> fl_id ` set (filter p (nf_files s))) (nf_outbox s)"
  "nf_links (delete_files p s) = nf_links s" "nf_sessions (delete_files p s) = nf_sessions s"
  "nf_queue (delete_files p s) = nf_queue s" "nf_watermarks (delete_files p s) = nf_watermarks s"
  by (simp_all add: delete_files_def Let_def)

lemma delete_files_inv:
  assumes inv: "feed_inv s"
  shows "feed_inv (delete_files p s)"
proof -
  let ?gone = "fl_id ` set (filter p (nf_files s))"
  have kept: "\<exists>f\<in>set (nf_files s). \<not> p f \<and> fl_id f = nr_file_id r \<and> fl_claude_session_id f = nr_claude_session_id r"
    if "r \<in> set (nf_records s)" "nr_file_id r \<notin> ?gone" for r
  proof -
    obtain f where f: "f \<in> set (nf_files s)" "fl_id f = nr_file_id r" "fl_claude_session_id f = nr_claude_session_id r"
      using inv \<open>r \<in> set (nf_records s)\<close> by (auto simp: feed_inv_def tables_ok_def records_inv_def)
    with that(2) have "\<not> p f" by (auto simp: image_iff)
    with f show ?thesis by blast
  qed
  let ?t = "delete_files p s"
  note sel = delete_files_sel [of p s] and dk = distinct_map_filter
  have "files_inv ?t" using inv by (simp add: sel feed_inv_defs dk)
  moreover have "records_inv ?t" using inv kept by (fastforce simp: sel feed_inv_defs dk)
  moreover have "acks_inv ?t" using inv by (auto simp: sel feed_inv_def tables_ok_def acks_inv_def)
  moreover have "outbox_inv ?t" using inv by (force simp: sel feed_inv_defs dk record_key_def)
  moreover have "links_inv ?t" using inv by (simp add: sel feed_inv_defs)
  moreover have "feeds_complete (\<lambda>_. True) ?t"
    using inv by (fastforce simp: sel feed_inv_defs record_key_def outbox_key_def image_iff)
  ultimately show ?thesis by (simp add: feed_inv_def tables_ok_def)
qed

lemma append_file_inv:
  assumes "feed_inv s" and "fl_id f \<notin> fl_id ` set (nf_files s)" and "file_path f \<notin> file_path ` set (nf_files s)"
  shows "feed_inv (s\<lparr>nf_files := nf_files s @ [f]\<rparr>)"
  using assms by (fastforce simp: feed_inv_defs)

lemma update_files_inv:
  assumes "feed_inv s" and "\<And>f. fl_id (g f) = fl_id f \<and> file_path (g f) = file_path f \<and> fl_claude_session_id (g f) = fl_claude_session_id f"
  shows "feed_inv (s\<lparr>nf_files := update_where p g (nf_files s)\<rparr>)"
proof -
  have "map fl_id (update_where p g (nf_files s)) = map fl_id (nf_files s)"
      "map file_path (update_where p g (nf_files s)) = map file_path (nf_files s)"
    using assms(2) by (simp_all add: map_key_update_where)
  with assms show ?thesis by (simp add: feed_inv_defs bex_update_where)
qed

lemma insert_file_Inr:
  "insert_file s f = Inr s1 \<Longrightarrow> s1 = s\<lparr>nf_files := nf_files s @ [f]\<rparr> \<and> fl_id f \<notin> fl_id ` set (nf_files s)"
  by (auto simp: insert_file_def split: if_splits)

lemma register_file_inv:
  assumes inv: "feed_inv s" and run: "register_file s fresh now data = Inr (f, t)"
  shows "feed_inv t"
proof (cases "find_latest_by_path (nf_files s) (rg_dir_path data) (rg_file_name data)")
  case None
  then have "\<forall>f\<in>set (nf_files s). \<not> (fl_dir_path f = rg_dir_path data \<and> fl_file_name f = rg_file_name data)"
    by (simp add: find_latest_by_path_def filter_empty_conv)
  then have path: "file_path (new_file data fresh now 0) \<notin> file_path ` set (nf_files s)"
    by (auto simp: file_path_def new_file_def)
  from None run have "insert_file s (new_file data fresh now 0) = Inr t"
    by (auto simp: register_file_def insert_generation_def bind_err_Inr_iff ok_or_Inr_iff)
  with append_file_inv [OF inv _ path] insert_file_Inr show ?thesis by blast
next
  case (Some existing)
  with run inv show ?thesis
    by (auto simp: register_file_def Let_def file_path_def split: if_splits intro!: update_files_inv)
qed

lemma prune_one_eq:
  assumes inv: "feed_inv s"
  shows "prune_one i s = delete_files (\<lambda>f. fl_id f = i) s"
proof (cases "\<exists>f\<in>set (nf_files s). fl_id f = i")
  case True
  then have "fl_id ` set (filter (\<lambda>f. fl_id f = i) (nf_files s)) = {i}" by force
  then show ?thesis by (simp add: prune_one_def delete_files_def Let_def)
next
  case False
  then have "\<forall>r\<in>set (nf_records s). nr_file_id r \<noteq> i" "\<forall>ob\<in>set (nf_outbox s). ob_file_id ob \<noteq> i"
    using inv by (fastforce simp: feed_inv_defs record_key_def)+
  then show ?thesis by (auto simp: prune_one_def delete_files_def Let_def filter_id_conv)
qed

lemma prune_one_inv: "feed_inv s \<Longrightarrow> feed_inv (prune_one i s)"
  by (simp add: prune_one_eq delete_files_inv)

lemma prune_unreachable_inv:
  assumes "feed_inv s"
  shows "feed_inv (snd (prune_unreachable s now days lim))"
proof -
  have "feed_inv (foldl (\<lambda>u i. prune_one i u) s is)" for "is"
    using assms by (induction "is" rule: rev_induct) (auto intro: prune_one_inv)
  then show ?thesis by (simp add: prune_unreachable_def Let_def)
qed

lemma prune_superseded_inv:
  assumes inv: "feed_inv s"
  shows "feed_inv (snd (prune_superseded s))"
proof -
  have latest: "is_latest_generation (nf_files s) f" if "f \<in> set (nf_files s)" for f
  proof -
    have "inj_on file_path (set (nf_files s))" using inv by (simp add: feed_inv_defs distinct_map)
    then show ?thesis using that by (fastforce simp: is_latest_generation_def inj_on_def file_path_def)
  qed
  have kept: "\<exists>ob\<in>set (nf_outbox s). projected s ob \<and> outbox_key ob = (lk_session_id l, record_key r)"
    if rl: "r \<in> set (nf_records s)" "l \<in> set (nf_links s)" "lk_claude_session_id l = nr_claude_session_id r" for r l
  proof -
    obtain ob where ob: "ob \<in> set (nf_outbox s)" "outbox_key ob = (lk_session_id l, record_key r)"
      using inv rl by (force simp: feed_inv_defs)
    obtain f where "f \<in> set (nf_files s)" "fl_id f = nr_file_id r" using inv rl(1) by (auto simp: feed_inv_defs)
    with rl ob latest have "projected s ob" by (auto simp: projected_def outbox_key_def record_key_def)
    with ob show ?thesis by blast
  qed
  show ?thesis
    using inv kept unfolding prune_superseded_def
    by (fastforce simp: feed_inv_defs distinct_map_filter image_iff)
qed

section \<open>Acknowledgements\<close>

interpretation ack_stmt: queue_statement "ack_row i" "ack_set now csid" for i now csid
  by unfold_locales (auto simp: ack_row_def ack_set_def active_state_def row_ok.simps)

lemma limit_one_order_desc: "limit_one (order_by_desc k xs) = Some x \<Longrightarrow> x \<in> set xs"
  by (drule limit_one_Some) simp

lemma bound_turn_fresh:
  assumes "bound_turn s session at r = Some i"
  shows "\<forall>e\<in>set (nf_records s). nr_bound_coding_agent_turn_id e \<noteq> Some i"
  using assms by (auto simp: bound_turn_def Let_def turn_matches_def split: if_splits option.splits dest!: limit_one_order_desc)

lemma bound_queued_row:
  assumes "bound_queued s session at r turn = Some i"
  shows "\<exists>q\<in>set (nf_queue s). ack_row i q"
proof -
  obtain q sid prompt reference where "q \<in> set (nf_queue s)" "qm_id q = i" "paste_matches sid (nn_claude_session_id r) prompt reference q"
    using assms by (auto simp: bound_queued_def Let_def split: if_splits option.splits dest!: limit_one_order_desc)
  then show ?thesis by (auto simp: paste_matches_def paste_open_def ack_row_def split: option.splits)
qed

lemma acksD:
  "acks_inv s \<Longrightarrow> e \<in> set (nf_records s) \<Longrightarrow> nr_bound_queued_message_id e = Some i
    \<Longrightarrow> \<exists>q\<in>set (nf_queue s). qm_id q = i \<and> qm_state q = Imported"
  unfolding acks_inv_def by blast

lemma bound_queued_fresh:
  assumes inv: "acks_inv s" and b: "bound_queued s session at r turn = Some i"
  shows "\<forall>e\<in>set (nf_records s). nr_bound_queued_message_id e \<noteq> Some i"
proof (intro ballI notI)
  fix e assume "e \<in> set (nf_records s)" "nr_bound_queued_message_id e = Some i"
  with inv obtain q where q: "q \<in> set (nf_queue s)" "qm_id q = i" "qm_state q = Imported" using acksD by blast
  obtain q' where q': "q' \<in> set (nf_queue s)" "ack_row i q'" using bound_queued_row [OF b] by blast
  have "distinct (map qm_id (nf_queue s))" using inv by (simp add: acks_inv_def queue_inv_def)
  with q q' have "q = q'" by (auto intro: distinct_key_eq [of qm_id] simp: ack_row_def)
  with q q' show False by (auto simp: ack_row_def)
qed

lemma record_conflict_iff:
  assumes "acks_inv s"
  shows "(\<exists>q\<in>set (nf_records s). record_conflict
      (new_record i r (bound_turn s session at r) (bound_queued s session at r (bound_turn s session at r))) q)
    \<longleftrightarrow> (i, nn_line_seq r) \<in> record_key ` set (nf_records s)"
proof -
  have turn: "\<not> (bound_turn s session at r \<noteq> None \<and> bound_turn s session at r = nr_bound_coding_agent_turn_id q)"
    if "q \<in> set (nf_records s)" for q
    using bound_turn_fresh [of s session at r] that by (metis option.exhaust)
  have queued: "\<not> (bound_queued s session at r turn \<noteq> None \<and> bound_queued s session at r turn = nr_bound_queued_message_id q)"
    if "q \<in> set (nf_records s)" for q turn
    using bound_queued_fresh [OF assms, of session at r turn] that by (metis option.exhaust)
  have "record_conflict (new_record i r (bound_turn s session at r) (bound_queued s session at r (bound_turn s session at r))) q
      \<longleftrightarrow> (i, nn_line_seq r) = record_key q" if "q \<in> set (nf_records s)" for q
    using turn [OF that] queued [OF that, of "bound_turn s session at r"]
    unfolding record_conflict_def new_record_def record_key_def cli_native_record.simps by blast
  then show ?thesis unfolding image_iff by (rule bex_cong [OF refl])
qed

text \<open>A statement on the queue leaves what has been imported as it is.\<close>

lemma acks_queue:
  assumes inv: "acks_inv s" and q: "queue_inv rows" "queue_le (nf_queue s) rows"
  shows "acks_inv (s\<lparr>nf_queue := rows\<rparr>)"
proof -
  have "\<exists>q\<in>set rows. qm_id q = i \<and> qm_state q = Imported" if "\<exists>q\<in>set (nf_queue s). qm_id q = i \<and> qm_state q = Imported" for i
    using that q(2) by (fastforce simp: queue_le_def active_state_def)
  with inv q(1) show ?thesis by (auto simp: acks_inv_def)
qed

lemma acks_append:
  assumes inv: "acks_inv s" and row: "nr_bound_queued_message_id row = None"
  shows "acks_inv (s\<lparr>nf_records := nf_records s @ [row]\<rparr>)"
  using assms by (auto simp: acks_inv_def)

lemma acks_append_bound:
  assumes inv: "acks_inv s" and i: "nr_bound_queued_message_id row = Some i" and q: "\<exists>q\<in>set (nf_queue s). ack_row i q"
    and fresh: "\<forall>e\<in>set (nf_records s). nr_bound_queued_message_id e \<noteq> Some i"
  shows "acks_inv (s\<lparr>nf_records := nf_records s @ [row], nf_queue := update_where (ack_row i) (ack_set now csid) (nf_queue s)\<rparr>)"
proof -
  let ?rows = "update_where (ack_row i) (ack_set now csid) (nf_queue s)"
  have "queue_inv (nf_queue s)" using inv by (simp add: acks_inv_def)
  then have "acks_inv (s\<lparr>nf_queue := ?rows\<rparr>)"
    by (intro acks_queue [OF inv] ack_stmt.keeps_inv ack_stmt.keeps_rows)
  moreover have "\<exists>q\<in>set ?rows. qm_id q = i \<and> qm_state q = Imported"
    using q by (auto simp: bex_update_where ack_row_def ack_set_def)
  ultimately show ?thesis using i fresh by (auto simp: acks_inv_def)
qed

section \<open>Importing\<close>

definition stored_lines :: "feed \<Rightarrow> uuid \<Rightarrow> int set" where
  "stored_lines s i = nr_line_seq ` {r \<in> set (nf_records s). nr_file_id r = i}"

lemma stored_lines_iff: "n \<in> stored_lines s i \<longleftrightarrow> (i, n) \<in> record_key ` set (nf_records s)"
  by (force simp: stored_lines_def record_key_def)

definition import_ready :: "cli_native_file \<Rightarrow> uuid option \<Rightarrow> feed \<Rightarrow> int \<Rightarrow> bool" where
  "import_ready f session s n =
     (feed_inv s \<and> f \<in> set (nf_files s) \<and> file_session s (fl_id f) = session
      \<and> (\<forall>sid. session = Some sid \<longrightarrow> 0 < n \<and> (\<forall>ob\<in>set (nf_outbox s). ob_session_id ob = sid \<longrightarrow> ob_seq ob < n)))"

lemma find_file_eq: "files_inv s \<Longrightarrow> f \<in> set (nf_files s) \<Longrightarrow> find_file (nf_files s) (fl_id f) = Some f"
  using select_one_key [of fl_id "nf_files s" f] by (simp add: find_file_def files_inv_def)

lemma find_link_eq: "links_inv s \<Longrightarrow> l \<in> set (nf_links s) \<Longrightarrow> find_link (nf_links s) (lk_claude_session_id l) = Some l"
  using select_one_key [of lk_claude_session_id "nf_links s" l] by (simp add: find_link_def links_inv_def)

lemma file_session_eq:
  "files_inv s \<Longrightarrow> f \<in> set (nf_files s) \<Longrightarrow> file_session s (fl_id f) = map_option lk_session_id (find_link (nf_links s) (fl_claude_session_id f))"
  by (simp add: file_session_def find_file_eq)

text \<open>The links before and after the note of a foreign writer differ in nothing but that note.\<close>

lemma note_foreign_writer_links:
  "\<exists>p g. note_foreign_writer s session at cx r turn = s\<lparr>nf_links := update_where p g (nf_links s)\<rparr>
     \<and> (\<forall>l. lk_claude_session_id (g l) = lk_claude_session_id l \<and> lk_session_id (g l) = lk_session_id l)"
proof -
  have "s = s\<lparr>nf_links := update_where (\<lambda>_. False) id (nf_links s)\<rparr>" by (simp add: update_where_def)
  then show ?thesis
    unfolding note_foreign_writer_def
    by (cases session) (auto intro!: exI [of _ "\<lambda>l. l\<lparr>lk_foreign_writer_seen_at := Some at\<rparr>"] simp: update_where_def
      intro: exI [of _ "\<lambda>_. False"] exI [of _ id])
qed

definition same_links :: "link_table \<Rightarrow> link_table \<Rightarrow> bool" where
  "same_links ls ls' = (map (\<lambda>l. (lk_claude_session_id l, lk_session_id l)) ls' = map (\<lambda>l. (lk_claude_session_id l, lk_session_id l)) ls)"

lemma same_links_find: "same_links ls ls' \<Longrightarrow> map_option lk_session_id (find_link ls' c) = map_option lk_session_id (find_link ls c)"
proof (induction ls arbitrary: ls')
  case (Cons l ls)
  then obtain l' ms where "ls' = l' # ms" "lk_claude_session_id l' = lk_claude_session_id l" "lk_session_id l' = lk_session_id l" "same_links ls ms"
    by (cases ls') (auto simp: same_links_def)
  with Cons.IH [of ms] show ?case by (simp add: find_link_def select_one_def)
qed (simp add: same_links_def)

lemma same_links_set:
  assumes "same_links ls ls'"
  shows "(\<lambda>l. (lk_claude_session_id l, lk_session_id l)) ` set ls' = (\<lambda>l. (lk_claude_session_id l, lk_session_id l)) ` set ls"
    and "map lk_claude_session_id ls' = map lk_claude_session_id ls"
proof -
  show "(\<lambda>l. (lk_claude_session_id l, lk_session_id l)) ` set ls' = (\<lambda>l. (lk_claude_session_id l, lk_session_id l)) ` set ls"
    using assms unfolding same_links_def by (metis list.set_map)
  have "map fst (map (\<lambda>l. (lk_claude_session_id l, lk_session_id l)) ms) = map lk_claude_session_id ms" for ms by simp
  then show "map lk_claude_session_id ls' = map lk_claude_session_id ls" using assms unfolding same_links_def by metis
qed

lemma same_links_mem:
  assumes "same_links ls ls'" and "l' \<in> set ls'"
  shows "\<exists>l\<in>set ls. lk_claude_session_id l = lk_claude_session_id l' \<and> lk_session_id l = lk_session_id l'"
proof -
  have "(lk_claude_session_id l', lk_session_id l') \<in> (\<lambda>l. (lk_claude_session_id l, lk_session_id l)) ` set ls"
    using assms same_links_set(1) by blast
  then show ?thesis by auto
qed

lemma same_links_update:
  "\<forall>l. lk_claude_session_id (g l) = lk_claude_session_id l \<and> lk_session_id (g l) = lk_session_id l \<Longrightarrow> same_links ls (update_where p g ls)"
  by (simp add: same_links_def update_where_def)

text \<open>Storing one record with its acknowledgement or note.\<close>

definition stored_row :: "uuid \<Rightarrow> uuid option \<Rightarrow> datetime \<Rightarrow> new_cli_native_record \<Rightarrow> feed \<Rightarrow> cli_native_record" where
  "stored_row i session at r s =
     new_record i r (bound_turn s session at r) (bound_queued s session at r (bound_turn s session at r))"

definition stored_feed :: "uuid \<Rightarrow> uuid option \<Rightarrow> datetime \<Rightarrow> native_import_context \<Rightarrow> new_cli_native_record \<Rightarrow> feed \<Rightarrow> feed" where
  "stored_feed i session at cx r s =
     (let s1 = s\<lparr>nf_records := nf_records s @ [stored_row i session at r s]\<rparr>
      in case bound_queued s session at r (bound_turn s session at r) of
           Some q \<Rightarrow> s1\<lparr>nf_queue := update_where (ack_row q) (ack_set at (nn_claude_session_id r)) (nf_queue s1)\<rparr>
         | None \<Rightarrow> note_foreign_writer s1 session at cx r (bound_turn s session at r))"

lemma stored_row_sel [simp]:
  "nr_file_id (stored_row i session at r s) = i" "nr_line_seq (stored_row i session at r s) = nn_line_seq r"
  "nr_claude_session_id (stored_row i session at r s) = nn_claude_session_id r"
  by (simp_all add: stored_row_def new_record_def)

lemma stored_feed_sel:
  "nf_records (stored_feed i session at cx r s) = nf_records s @ [stored_row i session at r s]
   \<and> nf_files (stored_feed i session at cx r s) = nf_files s \<and> nf_outbox (stored_feed i session at cx r s) = nf_outbox s
   \<and> nf_sessions (stored_feed i session at cx r s) = nf_sessions s
   \<and> nf_watermarks (stored_feed i session at cx r s) = nf_watermarks s
   \<and> same_links (nf_links s) (nf_links (stored_feed i session at cx r s))"
proof (cases "bound_queued s session at r (bound_turn s session at r)")
  case None
  let ?s1 = "s\<lparr>nf_records := nf_records s @ [stored_row i session at r s]\<rparr>"
  obtain p g where "note_foreign_writer ?s1 session at cx r (bound_turn s session at r) = ?s1\<lparr>nf_links := update_where p g (nf_links ?s1)\<rparr>"
    "\<forall>l. lk_claude_session_id (g l) = lk_claude_session_id l \<and> lk_session_id (g l) = lk_session_id l"
    using note_foreign_writer_links by blast
  with None show ?thesis by (simp add: stored_feed_def same_links_update)
qed (simp add: stored_feed_def same_links_def)

lemma stored_feed_acks:
  assumes inv: "acks_inv s"
  shows "acks_inv (stored_feed i session at cx r s)"
proof (cases "bound_queued s session at r (bound_turn s session at r)")
  case None
  let ?s1 = "s\<lparr>nf_records := nf_records s @ [stored_row i session at r s]\<rparr>"
  have "acks_inv ?s1" using inv None by (intro acks_append) (simp_all add: stored_row_def new_record_def)
  moreover obtain p g where "note_foreign_writer ?s1 session at cx r (bound_turn s session at r) = ?s1\<lparr>nf_links := update_where p g (nf_links ?s1)\<rparr>"
    using note_foreign_writer_links by blast
  ultimately show ?thesis using None by (simp add: stored_feed_def acks_inv_def)
next
  case (Some q)
  then show ?thesis
    using acks_append_bound [OF inv _ bound_queued_row [OF Some] bound_queued_fresh [OF inv Some]]
    by (simp add: stored_feed_def stored_row_def new_record_def)
qed

lemma import_one_eq:
  assumes "acks_inv s" and "i \<in> fl_id ` set (nf_files s)"
  shows "import_one i session at cx r (s, n, res) =
    (if nn_line_seq r \<in> stored_lines s i then Inr (s, n, res)
     else let s2 = stored_feed i session at cx r s; res1 = res\<lparr>ib_inserted_records := ib_inserted_records res + 1\<rparr> in
       case session of None \<Rightarrow> Inr (s2, n, res1)
       | Some sid \<Rightarrow>
           let ob = \<lparr>ob_session_id = sid, ob_seq = n, ob_file_id = i, ob_line_seq = nn_line_seq r, ob_created_at = at\<rparr>
           in if sid \<notin> ss_id ` set (nf_sessions s2) \<or> (\<exists>q\<in>set (nf_outbox s2). outbox_conflict ob q) then Inl DbError
              else Inr (s2\<lparr>nf_outbox := nf_outbox s2 @ [ob]\<rparr>, n + 1,
                 res1\<lparr>ib_appended_outbox := ib_appended_outbox res + 1, ib_last_seq := n\<rparr>))"
  using assms(2) record_conflict_iff [OF assms(1), of i r session at]
  by (simp add: import_one_def stored_lines_iff stored_feed_def stored_row_def Let_def split: option.split)

text \<open>The tables after a new record, before it joins the outbox: only the feed of its own session misses it.\<close>

lemma stored_feed_ok:
  assumes inv: "feed_inv s" and f: "f \<in> set (nf_files s)" and csid: "nn_claude_session_id r = fl_claude_session_id f"
    and new: "nn_line_seq r \<notin> stored_lines s (fl_id f)"
  shows "tables_ok (stored_feed (fl_id f) session at cx r s)"
proof -
  let ?t = "stored_feed (fl_id f) session at cx r s" and ?row = "stored_row (fl_id f) session at r s"
  note sel = stored_feed_sel [of "fl_id f" session at cx r s]
  have ok: "files_inv s" "records_inv s" "acks_inv s" "outbox_inv s" "links_inv s" using inv by (auto simp: feed_inv_def tables_ok_def)
  have "record_key ?row \<notin> record_key ` set (nf_records s)"
    using new by (simp add: stored_lines_iff record_key_def)
  then have "records_inv ?t"
    using ok(2) sel f csid by (auto simp: records_inv_def)
  moreover have "links_inv ?t"
    unfolding links_inv_def
  proof
    show "distinct (map lk_claude_session_id (nf_links ?t))" using ok(5) sel same_links_set(2) by (metis links_inv_def)
    show "\<forall>l\<in>set (nf_links ?t). lk_session_id l \<in> ss_id ` set (nf_sessions ?t)"
    proof
      fix l assume "l \<in> set (nf_links ?t)"
      then obtain l0 where "l0 \<in> set (nf_links s)" "lk_session_id l0 = lk_session_id l" using sel same_links_mem by blast
      with ok(5) sel show "lk_session_id l \<in> ss_id ` set (nf_sessions ?t)" unfolding links_inv_def by metis
    qed
  qed
  moreover have "files_inv ?t" using ok(1) sel by (simp add: files_inv_def)
  moreover have "outbox_inv ?t" using ok(4) sel by (auto simp: outbox_inv_def)
  ultimately show ?thesis using stored_feed_acks [OF ok(3)] by (simp add: tables_ok_def)
qed

lemma stored_feed_complete:
  assumes inv: "feed_inv s" and l: "l \<in> set (nf_links (stored_feed i session at cx r s))"
    and e: "e \<in> set (nf_records s)" and csid: "lk_claude_session_id l = nr_claude_session_id e"
  shows "(lk_session_id l, record_key e) \<in> outbox_key ` set (nf_outbox s)"
proof -
  note sel = stored_feed_sel [of i session at cx r s]
  obtain l0 where "l0 \<in> set (nf_links s)" "lk_claude_session_id l0 = lk_claude_session_id l" "lk_session_id l0 = lk_session_id l"
    using sel same_links_mem l by blast
  with inv e csid show ?thesis unfolding feed_inv_def feeds_complete_def by metis
qed

lemma stored_feed_session:
  fixes s :: feed and session :: "uuid option" and f :: cli_native_file and at :: datetime and r :: new_cli_native_record
    and cx :: native_import_context
  assumes inv: "feed_inv s" and f: "f \<in> set (nf_files s)" and csid: "nn_claude_session_id r = fl_claude_session_id f"
    and new: "nn_line_seq r \<notin> stored_lines s (fl_id f)" and fs: "file_session s (fl_id f) = session"
  defines "t \<equiv> stored_feed (fl_id f) session at cx r s"
  shows "file_session t (fl_id f) = session"
    and "l \<in> set (nf_links t) \<Longrightarrow> lk_claude_session_id l = fl_claude_session_id f \<Longrightarrow> session = Some (lk_session_id l)"
    and "session = Some sid \<Longrightarrow> sid \<in> ss_id ` set (nf_sessions t)"
proof -
  note sel = stored_feed_sel [of "fl_id f" session at cx r s, folded t_def]
  have t_ok: "tables_ok t" unfolding t_def by (rule stored_feed_ok [OF inv f csid new])
  have owner: "session = map_option lk_session_id (find_link (nf_links s) (fl_claude_session_id f))"
    using fs inv f file_session_eq [of s f] by (simp add: feed_inv_def tables_ok_def)
  show session: "file_session t (fl_id f) = session"
    using t_ok f sel owner same_links_find [of "nf_links s" "nf_links t"] by (simp add: file_session_eq tables_ok_def)
  show "session = Some (lk_session_id l)" if "l \<in> set (nf_links t)" "lk_claude_session_id l = fl_claude_session_id f"
    using session t_ok that f sel find_link_eq [of t l] by (auto simp: file_session_eq tables_ok_def)
  show "sid \<in> ss_id ` set (nf_sessions t)" if some: "session = Some sid"
  proof -
    obtain l where "l \<in> set (nf_links s)" "lk_session_id l = sid"
      using owner some by (cases "find_link (nf_links s) (fl_claude_session_id f)") (auto simp: find_link_def dest: select_one_Some)
    with inv sel show ?thesis by (auto simp: feed_inv_defs)
  qed
qed

lemma import_unlinked_inv:
  assumes inv: "feed_inv s" and f: "f \<in> set (nf_files s)" and csid: "nn_claude_session_id r = fl_claude_session_id f"
    and new: "nn_line_seq r \<notin> stored_lines s (fl_id f)" and fs: "file_session s (fl_id f) = None"
  shows "feed_inv (stored_feed (fl_id f) None at cx r s)"
proof -
  let ?t = "stored_feed (fl_id f) None at cx r s" and ?row = "stored_row (fl_id f) None at r s"
  note sel = stored_feed_sel [of "fl_id f" None at cx r s]
  have "(lk_session_id l, record_key e) \<in> outbox_key ` set (nf_outbox ?t)"
    if e: "e \<in> set (nf_records ?t)" and l: "l \<in> set (nf_links ?t)" "lk_claude_session_id l = nr_claude_session_id e" for e l
  proof -
    have "e \<noteq> ?row" using stored_feed_session(2) [OF inv f csid new fs l(1)] l(2) csid by auto
    with e sel have "e \<in> set (nf_records s)" by simp
    from stored_feed_complete [OF inv l(1) this l(2)] sel show ?thesis by simp
  qed
  then show ?thesis using stored_feed_ok [OF inv f csid new] by (simp add: feed_inv_def feeds_complete_def)
qed

lemma import_linked_inv:
  fixes s :: feed and sid :: uuid and f :: cli_native_file and at :: datetime and r :: new_cli_native_record and n :: int
    and cx :: native_import_context
  assumes inv: "feed_inv s" and f: "f \<in> set (nf_files s)" and csid: "nn_claude_session_id r = fl_claude_session_id f"
    and new: "nn_line_seq r \<notin> stored_lines s (fl_id f)" and fs: "file_session s (fl_id f) = Some sid"
    and seqs: "\<And>ob. ob \<in> set (nf_outbox s) \<Longrightarrow> ob_session_id ob = sid \<Longrightarrow> ob_seq ob < n" and pos: "0 < n"
  defines "t \<equiv> stored_feed (fl_id f) (Some sid) at cx r s"
  defines "ob \<equiv> \<lparr>ob_session_id = sid, ob_seq = n, ob_file_id = fl_id f, ob_line_seq = nn_line_seq r, ob_created_at = at\<rparr>"
  shows "feed_inv (t\<lparr>nf_outbox := nf_outbox t @ [ob]\<rparr>)" and "\<not> (\<exists>q\<in>set (nf_outbox t). outbox_conflict ob q)"
proof -
  let ?u = "t\<lparr>nf_outbox := nf_outbox t @ [ob]\<rparr>" and ?row = "stored_row (fl_id f) (Some sid) at r s"
  note sel = stored_feed_sel [of "fl_id f" "Some sid" at cx r s, folded t_def]
  note session = stored_feed_session [OF inv f csid new fs, where at = at and cx = cx, folded t_def]
  have t_ok: "tables_ok t" unfolding t_def by (rule stored_feed_ok [OF inv f csid new])
  have row_key: "record_key ?row = (fl_id f, nn_line_seq r)" by (simp add: record_key_def)
  have "(sid, record_key ?row) \<notin> outbox_key ` set (nf_outbox t)"
  proof
    assume "(sid, record_key ?row) \<in> outbox_key ` set (nf_outbox t)"
    then obtain q where "q \<in> set (nf_outbox s)" "(ob_file_id q, ob_line_seq q) = record_key ?row" using sel by (auto simp: outbox_key_def)
    with inv new show False by (fastforce simp: feed_inv_def tables_ok_def outbox_inv_def stored_lines_iff row_key)
  qed
  then have app: "foldl insert_or_ignore_outbox (nf_outbox t) (outbox_rows sid at n [?row]) = nf_outbox t @ outbox_rows sid at n [?row]"
      "outbox_inv (t\<lparr>nf_outbox := nf_outbox t @ outbox_rows sid at n [?row]\<rparr>)"
    using append_outbox_rows [of t sid n "[?row]" at] t_ok seqs pos sel session(3) by (auto simp: tables_ok_def)
  have rows: "outbox_rows sid at n [?row] = [ob]" by (simp add: outbox_rows_def ob_def)
  from app(1) show "\<not> (\<exists>q\<in>set (nf_outbox t). outbox_conflict ob q)"
    unfolding rows by (auto simp: insert_or_ignore_outbox_def split: if_splits)
  have "(lk_session_id l, record_key e) \<in> outbox_key ` set (nf_outbox ?u)"
    if e: "e \<in> set (nf_records t)" and l: "l \<in> set (nf_links t)" "lk_claude_session_id l = nr_claude_session_id e" for e l
  proof (cases "e = ?row")
    case True
    with session(2) [OF l(1)] l(2) csid have "lk_session_id l = sid" by simp
    then show ?thesis using True by (simp add: row_key outbox_key_def ob_def)
  next
    case False
    with e sel have "e \<in> set (nf_records s)" by simp
    from stored_feed_complete [OF inv l(1) [unfolded t_def] this l(2)] sel show ?thesis by simp
  qed
  then show "feed_inv ?u"
    using t_ok app(2) unfolding rows
    by (simp add: feed_inv_def feeds_complete_def tables_ok_def files_inv_def records_inv_def acks_inv_def links_inv_def)
qed

lemma file_session_outbox [simp]: "file_session (s\<lparr>nf_outbox := obs\<rparr>) i = file_session s i"
  by (simp add: file_session_def cong: option.case_cong)

lemma import_one_new:
  fixes session :: "uuid option" and s :: feed and at :: datetime and n :: int
    and f :: cli_native_file and r :: new_cli_native_record
  assumes ready: "import_ready f session s n" and csid: "nn_claude_session_id r = fl_claude_session_id f"
    and new: "nn_line_seq r \<notin> stored_lines s (fl_id f)"
  defines "row \<equiv> stored_row (fl_id f) session at r s"
  defines "n' \<equiv> (case session of None \<Rightarrow> n | Some _ \<Rightarrow> n + 1)"
  shows "\<exists>s' res'. import_one (fl_id f) session at cx r (s, n, res) = Inr (s', n', res') \<and> import_ready f session s' n'
    \<and> nf_records s' = nf_records s @ [row] \<and> ib_inserted_records res' = ib_inserted_records res + 1
    \<and> ib_appended_outbox res' = ib_appended_outbox res + (case session of None \<Rightarrow> 0 | Some _ \<Rightarrow> 1)
    \<and> nf_watermarks s' = nf_watermarks s \<and> nf_files s' = nf_files s
    \<and> nf_outbox s' = nf_outbox s @ (case session of None \<Rightarrow> [] | Some sid \<Rightarrow> outbox_rows sid at n [row])"
proof -
  let ?t = "stored_feed (fl_id f) session at cx r s"
  note sel = stored_feed_sel [of "fl_id f" session at cx r s]
  have inv: "feed_inv s" and f: "f \<in> set (nf_files s)" and fs: "file_session s (fl_id f) = session"
    using ready by (auto simp: import_ready_def)
  have acks: "acks_inv s" using inv by (simp add: feed_inv_def tables_ok_def)
  note one = import_one_eq [OF acks, of "fl_id f" session at cx r n res]
  note t = stored_feed_session [OF inv f csid new fs, where at = at and cx = cx]
  show ?thesis
  proof (cases session)
    case None
    with import_unlinked_inv [OF inv f csid new] fs t(1) sel f have "import_ready f session ?t n"
      by (simp add: import_ready_def)
    with one None sel f new show ?thesis by (simp add: n'_def row_def)
  next
    case (Some sid)
    let ?ob = "\<lparr>ob_session_id = sid, ob_seq = n, ob_file_id = fl_id f, ob_line_seq = nn_line_seq r, ob_created_at = at\<rparr>"
    let ?u = "?t\<lparr>nf_outbox := nf_outbox ?t @ [?ob]\<rparr>"
    have pos: "0 < n" using ready Some by (simp add: import_ready_def)
    have seqs: "ob_seq ob < n" if "ob \<in> set (nf_outbox s)" "ob_session_id ob = sid" for ob
      using ready that Some by (auto simp: import_ready_def)
    note u = import_linked_inv [OF inv f csid new fs [unfolded Some] seqs pos, where at = at and cx = cx, folded Some]
    have "ob_seq ob < n + 1" if "ob \<in> set (nf_outbox ?u)" "ob_session_id ob = sid" for ob
    proof -
      have "ob \<in> set (nf_outbox s) \<or> ob = ?ob" using that(1) sel by auto
      with seqs [of ob] that(2) show ?thesis by (elim disjE) simp_all
    qed
    with u(1) f t(1) sel Some pos have "import_ready f session ?u (n + 1)" by (simp add: import_ready_def)
    moreover have "outbox_rows sid at n [row] = [?ob]" by (simp add: outbox_rows_def row_def)
    ultimately show ?thesis using one u(2) t(3) Some sel f new by (simp add: n'_def row_def Let_def)
  qed
qed

end
