(* ===== verification/FeedMachine.thy ===== *)
theory FeedMachine
  imports FeedInvariant
begin

text \<open>
  Importing batches of a transcript, replacing a rewritten transcript by its new generation, what
  a reader of a session's feed sees, and the machine of all the operations on the transcript tables.
\<close>

section \<open>Batches\<close>

text \<open>The records of a batch that are new to a file, the first of each line; and what is stored of one.\<close>

primrec fresh_records :: "int set \<Rightarrow> new_cli_native_record list \<Rightarrow> new_cli_native_record list" where
  "fresh_records seen [] = []"
| "fresh_records seen (r # rs) =
     (if nn_line_seq r \<in> seen then fresh_records seen rs else r # fresh_records (insert (nn_line_seq r) seen) rs)"

definition stores :: "uuid \<Rightarrow> cli_native_record \<Rightarrow> new_cli_native_record \<Rightarrow> bool" where
  "stores i e r = (e = new_record i r (nr_bound_coding_agent_turn_id e) (nr_bound_queued_message_id e))"

definition session_rows :: "uuid option \<Rightarrow> datetime \<Rightarrow> int \<Rightarrow> cli_native_record list \<Rightarrow> cli_ingest_outbox list" where
  "session_rows session at n rs = (case session of None \<Rightarrow> [] | Some sid \<Rightarrow> outbox_rows sid at n rs)"

lemma outbox_rows_append: "outbox_rows sid now n (xs @ ys) = outbox_rows sid now n xs @ outbox_rows sid now (n + int (length xs)) ys"
  by (rule nth_equalityI) (auto simp: outbox_rows_nth nth_append)

lemma session_rows_append:
  "session_rows session at n (xs @ ys) = session_rows session at n xs @ session_rows session at (n + int (length xs)) ys"
  by (simp add: session_rows_def outbox_rows_append split: option.split)

lemma session_rows_Nil [simp]: "session_rows session at n [] = []"
  by (simp add: session_rows_def outbox_rows_def split: option.split)

lemma session_rows_None [simp]: "session_rows None at n rs = []"
  by (simp add: session_rows_def)

lemma stores_stored_row: "stores i (stored_row i session at r s) r"
  by (simp add: stores_def stored_row_def new_record_def)

lemma stored_lines_append: "nf_records t = nf_records s @ [e] \<Longrightarrow> nr_file_id e = i \<Longrightarrow> stored_lines t i = insert (nr_line_seq e) (stored_lines s i)"
  by (auto simp: stored_lines_def)

lemma import_one_old:
  assumes "import_ready f session s n" and "nn_line_seq r \<in> stored_lines s (fl_id f)"
  shows "import_one (fl_id f) session at cx r (s, n, res) = Inr (s, n, res)"
  using assms import_one_eq [of s "fl_id f" session at cx r n res] by (simp add: import_ready_def feed_inv_def tables_ok_def)

definition seq_step :: "uuid option \<Rightarrow> nat \<Rightarrow> nat" where
  "seq_step session k = (case session of None \<Rightarrow> 0 | Some _ \<Rightarrow> k)"

lemma seq_step_0 [simp]: "seq_step session 0 = 0"
  by (simp add: seq_step_def split: option.split)

lemma import_loop_spec:
  assumes "import_ready f session s n" and "\<forall>r\<in>set rs. nn_claude_session_id r = fl_claude_session_id f"
  shows "\<exists>s' res' new. import_loop (fl_id f) session at cx rs (s, n, res) = Inr (s', n + int (seq_step session (length new)), res')
    \<and> import_ready f session s' (n + int (seq_step session (length new))) \<and> nf_records s' = nf_records s @ new
    \<and> list_all2 (stores (fl_id f)) new (fresh_records (stored_lines s (fl_id f)) rs)
    \<and> ib_inserted_records res' = ib_inserted_records res + length new
    \<and> ib_appended_outbox res' = ib_appended_outbox res + seq_step session (length new)
    \<and> nf_watermarks s' = nf_watermarks s \<and> nf_files s' = nf_files s
    \<and> nf_outbox s' = nf_outbox s @ session_rows session at n new \<and> (new = [] \<longrightarrow> s' = s)"
  using assms
proof (induction rs arbitrary: s n res)
  case Nil
  then show ?case by (intro exI [of _ s] exI [of _ res] exI [of _ "[]"]) simp
next
  case (Cons r rs)
  show ?case
  proof (cases "nn_line_seq r \<in> stored_lines s (fl_id f)")
    case True
    with Cons.IH [of s n res] Cons.prems import_one_old [OF Cons.prems(1) True] show ?thesis by simp
  next
    case False
    let ?row = "stored_row (fl_id f) session at r s" and ?n = "n + int (seq_step session 1)"
    obtain s1 res1 where one: "import_one (fl_id f) session at cx r (s, n, res) = Inr (s1, ?n, res1)" "import_ready f session s1 ?n"
        "nf_records s1 = nf_records s @ [?row]" "ib_inserted_records res1 = ib_inserted_records res + 1"
        "ib_appended_outbox res1 = ib_appended_outbox res + seq_step session 1"
        "nf_watermarks s1 = nf_watermarks s" "nf_files s1 = nf_files s" "nf_outbox s1 = nf_outbox s @ session_rows session at n [?row]"
      using import_one_new [OF Cons.prems(1) _ False, of at cx res] Cons.prems(2)
      by (auto simp: seq_step_def session_rows_def split: option.splits)
    have lines: "stored_lines s1 (fl_id f) = insert (nn_line_seq r) (stored_lines s (fl_id f))"
      using stored_lines_append [OF one(3)] by simp
    obtain s2 res2 new where rest: "import_loop (fl_id f) session at cx rs (s1, ?n, res1) = Inr (s2, ?n + int (seq_step session (length new)), res2)"
        "import_ready f session s2 (?n + int (seq_step session (length new)))" "nf_records s2 = nf_records s1 @ new"
        "list_all2 (stores (fl_id f)) new (fresh_records (insert (nn_line_seq r) (stored_lines s (fl_id f))) rs)"
        "ib_inserted_records res2 = ib_inserted_records res1 + length new"
        "ib_appended_outbox res2 = ib_appended_outbox res1 + seq_step session (length new)"
        "nf_watermarks s2 = nf_watermarks s1" "nf_files s2 = nf_files s1" "nf_outbox s2 = nf_outbox s1 @ session_rows session at ?n new"
      using Cons.IH [OF one(2), of res1] Cons.prems(2) lines by auto
    have "session_rows session at n (?row # new) = session_rows session at n [?row] @ session_rows session at ?n new"
      using session_rows_append [of session at n "[?row]" new] by (cases session) (simp_all add: seq_step_def)
    then show ?thesis
      using one rest False stores_stored_row
      by (intro exI [of _ s2] exI [of _ res2] exI [of _ "?row # new"]) (auto simp: seq_step_def add.assoc split: option.split)
  qed
qed

text \<open>Where the rows of a batch are numbered from.\<close>

definition batch_start :: "feed \<Rightarrow> uuid option \<Rightarrow> int option \<Rightarrow> int" where
  "batch_start s session m =
     (case session of None \<Rightarrow> 0 | Some sid \<Rightarrow> max (next_seq_in_transaction s sid) (coalesce m 1))"

lemma batch_ready:
  assumes "feed_inv s" and "f \<in> set (nf_files s)"
  shows "import_ready f (file_session s (fl_id f)) s (batch_start s (file_session s (fl_id f)) m)"
proof -
  have inv: "outbox_inv s" using assms(1) by (simp add: feed_inv_def tables_ok_def)
  have "ob_seq ob < batch_start s (Some sid) m" if "ob \<in> set (nf_outbox s)" "ob_session_id ob = sid" for ob sid
    using next_seq_fresh [OF that] by (simp add: batch_start_def)
  moreover have "0 < batch_start s (Some sid) m" for sid
    using next_seq_pos [OF inv, of sid] by (simp add: batch_start_def)
  ultimately show ?thesis using assms by (auto simp: import_ready_def)
qed

lemma import_batch_spec:
  assumes inv: "feed_inv s" and f: "f \<in> set (nf_files s)" and csid: "\<forall>r\<in>set rs. nn_claude_session_id r = fl_claude_session_id f"
  shows "\<exists>res t new. import_batch_in_transaction s now (fl_id f) rs cursor m cx = Inr (res, t) \<and> feed_inv t
    \<and> nf_records t = nf_records s @ new \<and> list_all2 (stores (fl_id f)) new (fresh_records (stored_lines s (fl_id f)) rs)
    \<and> nf_outbox t = nf_outbox s @ session_rows (file_session s (fl_id f)) now (batch_start s (file_session s (fl_id f)) m) new
    \<and> ib_inserted_records res = length new \<and> ib_appended_outbox res = seq_step (file_session s (fl_id f)) (length new)
    \<and> nf_watermarks t = nf_watermarks s \<and> file_session t (fl_id f) = file_session s (fl_id f)
    \<and> nf_files t = update_where (\<lambda>g. fl_id g = fl_id f) (advance_cursor cursor now) (nf_files s)
    \<and> (new = [] \<longrightarrow> t = s\<lparr>nf_files := nf_files t\<rparr>)"
proof -
  let ?session = "file_session s (fl_id f)" and ?g = "advance_cursor cursor now"
  let ?n = "batch_start s ?session m"
  obtain s1 res new where loop: "import_loop (fl_id f) ?session now cx rs (s, ?n, \<lparr>ib_inserted_records = 0, ib_appended_outbox = 0, ib_last_seq = 0\<rparr>)
        = Inr (s1, ?n + int (seq_step ?session (length new)), res)"
      and s1: "import_ready f ?session s1 (?n + int (seq_step ?session (length new)))" "nf_records s1 = nf_records s @ new"
        "list_all2 (stores (fl_id f)) new (fresh_records (stored_lines s (fl_id f)) rs)"
        "ib_inserted_records res = length new" "ib_appended_outbox res = seq_step ?session (length new)"
        "nf_watermarks s1 = nf_watermarks s" "nf_files s1 = nf_files s" "nf_outbox s1 = nf_outbox s @ session_rows ?session now ?n new"
        "new = [] \<longrightarrow> s1 = s"
    using import_loop_spec [OF batch_ready [OF inv f] csid] by fastforce
  let ?t = "s1\<lparr>nf_files := update_where (\<lambda>g. fl_id g = fl_id f) ?g (nf_files s1)\<rparr>"
  have t: "feed_inv ?t"
    using s1(1) by (intro update_files_inv) (auto simp: import_ready_def advance_cursor_def file_path_def)
  have "?g f \<in> set (nf_files ?t)" using f s1(7) by (auto simp: update_where_def)
  then have "file_session ?t (fl_id f) = map_option lk_session_id (find_link (nf_links s1) (fl_claude_session_id f))"
    using file_session_eq [of ?t "?g f"] t by (simp add: feed_inv_def tables_ok_def advance_cursor_def)
  also have "\<dots> = ?session"
    using s1(1) file_session_eq [of s1 f] by (simp add: import_ready_def feed_inv_def tables_ok_def)
  finally show ?thesis
    using loop s1 t by (simp add: import_batch_in_transaction_def Let_def batch_start_def [symmetric])
qed

section \<open>A new generation\<close>

definition same_path :: "register_cli_native_file \<Rightarrow> cli_native_file \<Rightarrow> bool" where
  "same_path data f = (fl_dir_path f = rg_dir_path data \<and> fl_file_name f = rg_file_name data)"

lemma replaced_files:
  assumes inv: "feed_inv s" and ins: "insert_file s (new_file data fresh now g) = Inr s1"
  defines "s2 \<equiv> delete_files (\<lambda>f. fl_dir_path f = rg_dir_path data \<and> fl_file_name f = rg_file_name data \<and> fl_id f \<noteq> fresh) s1"
  shows "feed_inv s2" and "new_file data fresh now g \<in> set (nf_files s2)" and "nf_links s2 = nf_links s" and "nf_watermarks s2 = nf_watermarks s"
    and "stored_lines s2 fresh = {}" and "nf_outbox s2 = nf_outbox (delete_files (same_path data) s)"
    and "nf_records s2 = nf_records (delete_files (same_path data) s)"
proof -
  let ?f = "new_file data fresh now g" and ?d = "delete_files (same_path data) s"
  have s1: "s1 = s\<lparr>nf_files := nf_files s @ [?f]\<rparr>" and fresh: "fresh \<notin> fl_id ` set (nf_files s)"
    using insert_file_Inr [OF ins] by (auto simp: new_file_def)
  have ids: "fl_id ` set (filter (\<lambda>f. fl_dir_path f = rg_dir_path data \<and> fl_file_name f = rg_file_name data \<and> fl_id f \<noteq> fresh) (nf_files s))
      = fl_id ` set (filter (same_path data) (nf_files s))" using fresh by (auto simp: same_path_def)
  have files: "filter (\<lambda>f. \<not> (fl_dir_path f = rg_dir_path data \<and> fl_file_name f = rg_file_name data \<and> fl_id f \<noteq> fresh)) (nf_files s)
      = filter (\<lambda>f. \<not> same_path data f) (nf_files s)" using fresh by (intro filter_cong) (auto simp: same_path_def)
  have s2: "s2 = ?d\<lparr>nf_files := nf_files ?d @ [?f]\<rparr>"
    using ids files unfolding s2_def s1 by (simp add: delete_files_def Let_def new_file_def)
  have "fl_id ?f \<notin> fl_id ` set (nf_files ?d)" "file_path ?f \<notin> file_path ` set (nf_files ?d)"
    using fresh by (auto simp: delete_files_sel new_file_def same_path_def file_path_def)
  with delete_files_inv [OF inv] show "feed_inv s2" unfolding s2 by (rule append_file_inv)
  show "?f \<in> set (nf_files s2)" "nf_links s2 = nf_links s" "nf_watermarks s2 = nf_watermarks s" "nf_outbox s2 = nf_outbox ?d"
      "nf_records s2 = nf_records ?d"
    unfolding s2 by (simp_all add: delete_files_sel)
  have "nr_file_id r \<noteq> fresh" if "r \<in> set (nf_records s)" for r
    using inv that fresh unfolding feed_inv_def tables_ok_def records_inv_def by (metis image_eqI)
  then show "stored_lines s2 fresh = {}" unfolding s2 by (auto simp: stored_lines_def delete_files_sel)
qed

lemma foldl_max_mem: "foldl max a xs \<in> set ((a :: int) # xs)"
proof (induction xs arbitrary: a)
  case (Cons x xs)
  from Cons [of "max a x"] show ?case by (auto simp: max_def split: if_splits)
qed simp

lemma max_seq_mem: "max_seq rows sid = Some q \<Longrightarrow> \<exists>ob\<in>set rows. ob_session_id ob = sid \<and> ob_seq ob = q"
proof -
  assume q: "max_seq rows sid = Some q"
  then have "q \<in> set (map ob_seq (filter (\<lambda>ob. ob_session_id ob = sid) rows))"
    using foldl_max_mem by (auto simp: max_seq_def simp del: set_map set_filter split: list.splits)
  then show ?thesis by auto
qed

text \<open>Removing outbox rows never raises the next sequence number, so a batch after a replacement starts where it would have before.\<close>

lemma next_seq_mono:
  assumes "outbox_inv t" and "set (nf_outbox s) \<subseteq> set (nf_outbox t)" and "nf_watermarks s = nf_watermarks t"
  shows "next_seq_in_transaction s sid \<le> next_seq_in_transaction t sid"
proof (cases "max_seq (nf_outbox s) sid")
  case None
  then show ?thesis using next_seq_pos [OF assms(1), of sid] assms(3) by (simp add: next_seq_in_transaction_def coalesce_def)
next
  case (Some q)
  then obtain ob where "ob \<in> set (nf_outbox t)" "ob_session_id ob = sid" "ob_seq ob = q" using max_seq_mem assms(2) by blast
  with max_seq_ge [of ob "nf_outbox t" sid 0] have "q \<le> coalesce (max_seq (nf_outbox t) sid) 0" by simp
  with Some assms(3) show ?thesis by (simp add: next_seq_in_transaction_def coalesce_def)
qed

lemma replace_spec:
  assumes inv: "feed_inv s" and csid: "\<forall>r\<in>set rs. nn_claude_session_id r = rg_claude_session_id data"
    and ins: "insert_file s (new_file data fresh now (next_generation s data)) = Inr s1"
  defines "session \<equiv> map_option lk_session_id (find_link (nf_links s) (rg_claude_session_id data))"
  shows "\<exists>f res t new. replace_generation_and_import_batch_with_context s fresh now data rs cursor cx = Inr ((f, res), t) \<and> feed_inv t
    \<and> nf_records t = filter (\<lambda>r. nr_file_id r \<notin> fl_id ` set (filter (same_path data) (nf_files s))) (nf_records s) @ new
    \<and> list_all2 (stores fresh) new (fresh_records {} rs) \<and> ib_inserted_records res = length new
    \<and> nf_outbox t = filter (\<lambda>ob. ob_file_id ob \<notin> fl_id ` set (filter (same_path data) (nf_files s))) (nf_outbox s)
        @ session_rows session now (batch_start s session None) new
    \<and> fl_id f = fresh \<and> f \<in> set (nf_files t) \<and> fl_claude_session_id f = rg_claude_session_id data \<and> file_session t fresh = session
    \<and> f = advance_cursor cursor now (new_file data fresh now (next_generation s data))"
proof -
  let ?f0 = "new_file data fresh now (next_generation s data)"
  let ?s2 = "delete_files (\<lambda>f. fl_dir_path f = rg_dir_path data \<and> fl_file_name f = rg_file_name data \<and> fl_id f \<noteq> fresh) s1"
  let ?m = "map_option (next_seq_in_transaction s \<circ> lk_session_id) (find_link (nf_links s) (rg_claude_session_id data))"
  note s2 = replaced_files [OF inv ins]
  have id: "fl_id ?f0 = fresh" "fl_claude_session_id ?f0 = rg_claude_session_id data" by (simp_all add: new_file_def)
  have session: "file_session ?s2 fresh = session"
    using file_session_eq [OF _ s2(2)] s2(1,3) by (simp add: feed_inv_def tables_ok_def id session_def)
  have outbox: "outbox_inv s" "set (nf_outbox ?s2) \<subseteq> set (nf_outbox s)"
    using inv s2(6) by (auto simp: feed_inv_def tables_ok_def delete_files_sel)
  have start: "batch_start ?s2 session ?m = batch_start s session None"
  proof (cases "find_link (nf_links s) (rg_claude_session_id data)")
    case (Some l)
    then show ?thesis
      using next_seq_mono [OF outbox s2(4), of "lk_session_id l"] next_seq_pos [OF outbox(1), of "lk_session_id l"]
      by (simp add: batch_start_def session_def coalesce_def)
  qed (simp add: batch_start_def session_def)
  obtain res t new where run: "import_batch_in_transaction ?s2 now fresh rs cursor ?m cx = Inr (res, t)" "feed_inv t"
      "nf_records t = nf_records ?s2 @ new" "list_all2 (stores fresh) new (fresh_records {} rs)" "ib_inserted_records res = length new"
      "nf_outbox t = nf_outbox ?s2 @ session_rows session now (batch_start s session None) new" "file_session t fresh = session"
      "nf_files t = update_where (\<lambda>g. fl_id g = fresh) (advance_cursor cursor now) (nf_files ?s2)"
    using import_batch_spec [OF s2(1,2), of rs now cursor ?m cx] csid unfolding id session s2(5) start by auto
  let ?f = "advance_cursor cursor now ?f0"
  have f: "?f \<in> set (nf_files t)" "fl_id ?f = fresh" "fl_claude_session_id ?f = rg_claude_session_id data"
    using s2(2) id run(8) by (auto simp: update_where_def advance_cursor_def)
  have "find_file (nf_files t) fresh = Some ?f" using find_file_eq [of t ?f] f run(2) by (simp add: feed_inv_def tables_ok_def)
  with run f s2(6,7) ins show ?thesis
    by (intro exI [of _ ?f] exI [of _ res] exI [of _ t] exI [of _ new])
      (simp add: replace_generation_and_import_batch_with_context_def Let_def ok_or_def delete_files_sel)
qed

section \<open>Reading a feed\<close>

text \<open>A record that belongs to the session, and its place in the outbox of the session.\<close>

definition owned :: "feed \<Rightarrow> uuid \<Rightarrow> cli_native_record \<Rightarrow> bool" where
  "owned s sid r = (\<exists>l\<in>set (nf_links s). lk_claude_session_id l = nr_claude_session_id r \<and> lk_session_id l = sid)"

definition placed :: "feed \<Rightarrow> uuid \<Rightarrow> int \<Rightarrow> cli_native_record \<Rightarrow> bool" where
  "placed s sid n r = (\<exists>ob\<in>set (nf_outbox s). ob_session_id ob = sid \<and> ob_seq ob = n \<and> (ob_file_id ob, ob_line_seq ob) = record_key r)"

definition joined :: "feed \<Rightarrow> uuid \<Rightarrow> int \<Rightarrow> (cli_native_record \<times> cli_native_file \<times> claude_session_link \<times> cli_ingest_outbox) list" where
  "joined s sid after =
     filter (\<lambda>(r, f, l, ob). fl_id f = nr_file_id r \<and> lk_claude_session_id l = nr_claude_session_id r
              \<and> ob_file_id ob = nr_file_id r \<and> ob_line_seq ob = nr_line_seq r \<and> ob_session_id ob = lk_session_id l
              \<and> lk_session_id l = sid \<and> ob_seq ob > after \<and> is_latest_generation (nf_files s) f)
            (List.product (nf_records s) (List.product (nf_files s) (List.product (nf_links s) (nf_outbox s))))"

lemma distinct_joined:
  assumes inv: "feed_inv s"
  shows "distinct (map (\<lambda>(r, f, l, ob). ob_seq ob) (joined s sid q))" and "distinct (map fst (joined s sid q))"
proof -
  have d: "distinct (nf_records s)" "distinct (nf_files s)" "distinct (nf_links s)" "distinct (nf_outbox s)"
    using inv by (auto simp: feed_inv_defs distinct_map)
  have keys: "inj_on record_key (set (nf_records s))" "inj_on fl_id (set (nf_files s))" "inj_on lk_claude_session_id (set (nf_links s))"
      "inj_on (\<lambda>ob. (ob_session_id ob, ob_seq ob)) (set (nf_outbox s))" "inj_on outbox_key (set (nf_outbox s))"
    using inv by (auto simp: feed_inv_defs distinct_map)
  have j: "distinct (joined s sid q)" using d by (simp add: joined_def distinct_product)
  have "inj_on (\<lambda>(r, f, l, ob). ob_seq ob) (set (joined s sid q))"
  proof (rule inj_onI, clarsimp simp: joined_def)
    fix r f l ob r' f' l' ob'
    assume mem: "r \<in> set (nf_records s)" "f \<in> set (nf_files s)" "l \<in> set (nf_links s)" "ob \<in> set (nf_outbox s)"
        "r' \<in> set (nf_records s)" "f' \<in> set (nf_files s)" "l' \<in> set (nf_links s)" "ob' \<in> set (nf_outbox s)"
      and eq: "fl_id f = nr_file_id r" "fl_id f' = nr_file_id r'" "lk_claude_session_id l = nr_claude_session_id r"
        "lk_claude_session_id l' = nr_claude_session_id r'" "ob_file_id ob = nr_file_id r" "ob_file_id ob' = nr_file_id r'"
        "ob_line_seq ob = nr_line_seq r" "ob_line_seq ob' = nr_line_seq r'" "ob_session_id ob = lk_session_id l"
        "ob_session_id ob' = lk_session_id l" "lk_session_id l' = lk_session_id l" "ob_seq ob = ob_seq ob'"
    have ob: "ob = ob'" by (rule inj_onD [OF keys(4)]) (simp_all add: mem eq)
    have r: "r = r'" by (rule inj_onD [OF keys(1)]) (use mem eq ob in \<open>simp_all add: record_key_def\<close>)
    have "f = f'" by (rule inj_onD [OF keys(2)]) (simp_all add: mem eq r)
    moreover have "l = l'" by (rule inj_onD [OF keys(3)]) (simp_all add: mem eq r)
    moreover note ob r
    ultimately show "r = r' \<and> f = f' \<and> l = l' \<and> ob = ob'" by simp
  qed
  then show "distinct (map (\<lambda>(r, f, l, ob). ob_seq ob) (joined s sid q))" using j by (simp add: distinct_map)
  have "inj_on fst (set (joined s sid q))"
  proof (rule inj_onI, clarsimp simp: joined_def)
    fix r f l ob f' l' ob'
    assume mem: "f \<in> set (nf_files s)" "l \<in> set (nf_links s)" "ob \<in> set (nf_outbox s)"
        "f' \<in> set (nf_files s)" "l' \<in> set (nf_links s)" "ob' \<in> set (nf_outbox s)"
      and eq: "fl_id f = nr_file_id r" "fl_id f' = nr_file_id r" "lk_claude_session_id l = nr_claude_session_id r"
        "lk_claude_session_id l' = nr_claude_session_id r" "ob_file_id ob = nr_file_id r" "ob_file_id ob' = nr_file_id r"
        "ob_line_seq ob = nr_line_seq r" "ob_line_seq ob' = nr_line_seq r" "ob_session_id ob = lk_session_id l"
        "ob_session_id ob' = lk_session_id l"
    have "f = f'" by (rule inj_onD [OF keys(2)]) (simp_all add: mem eq)
    moreover have "l = l'" by (rule inj_onD [OF keys(3)]) (simp_all add: mem eq)
    moreover have "ob = ob'" by (rule inj_onD [OF keys(5)]) (simp_all add: mem eq outbox_key_def)
    ultimately show "f = f' \<and> l = l' \<and> ob = ob'" by simp
  qed
  then show "distinct (map fst (joined s sid q))" using j by (simp add: distinct_map)
qed

lemma latest_of_path: "files_inv s \<Longrightarrow> f \<in> set (nf_files s) \<Longrightarrow> is_latest_generation (nf_files s) f"
  by (fastforce simp: files_inv_def distinct_map is_latest_generation_def inj_on_def file_path_def)

lemma set_joined:
  assumes inv: "feed_inv s"
  shows "(\<lambda>(r, f, l, ob). (ob_seq ob, r)) ` set (joined s sid q)
    = {(n, r). r \<in> set (nf_records s) \<and> owned s sid r \<and> placed s sid n r \<and> q < n}"
proof -
  have "\<exists>f\<in>set (nf_files s). fl_id f = nr_file_id r \<and> is_latest_generation (nf_files s) f" if "r \<in> set (nf_records s)" for r
    using inv that latest_of_path [of s] by (fastforce simp: feed_inv_def tables_ok_def records_inv_def)
  then show ?thesis
    by (fastforce simp: joined_def owned_def placed_def record_key_def image_iff)
qed

lemma list_after_joined:
  "list_for_session_after s sid q
    = order_by sn_seq (map (\<lambda>(r, f, l, ob). \<lparr>sn_record = r, sn_seq = ob_seq ob, sn_file = f, sn_link_cwd = lk_cwd l\<rparr>) (joined s sid q))"
  by (simp add: list_for_session_after_def joined_def)

lemma list_after_rows:
  assumes inv: "feed_inv s"
  shows "sorted (map sn_seq (list_for_session_after s sid q))" and "distinct (map sn_seq (list_for_session_after s sid q))"
    and "distinct (map sn_record (list_for_session_after s sid q))"
    and "(\<lambda>v. (sn_seq v, sn_record v)) ` set (list_for_session_after s sid q)
      = {(n, r). r \<in> set (nf_records s) \<and> owned s sid r \<and> placed s sid n r \<and> q < n}"
proof -
  let ?v = "\<lambda>(r, f, l, ob). \<lparr>sn_record = r, sn_seq = ob_seq ob, sn_file = f, sn_link_cwd = lk_cwd l\<rparr>"
  have proj: "map sn_seq (map ?v xs) = map (\<lambda>(r, f, l, ob). ob_seq ob) xs" "map sn_record (map ?v xs) = map fst xs"
      "(\<lambda>v. (sn_seq v, sn_record v)) ` set (map ?v xs) = (\<lambda>(r, f, l, ob). (ob_seq ob, r)) ` set xs" for xs
    by (simp_all add: image_image case_prod_unfold)
  have d: "distinct (map k (order_by sn_seq ws)) \<longleftrightarrow> distinct (map k ws)" for k :: "session_native_record \<Rightarrow> 'x" and ws
    by (simp add: order_by_def distinct_map)
  show "sorted (map sn_seq (list_for_session_after s sid q))" by (simp add: list_after_joined order_by_def)
  show "distinct (map sn_seq (list_for_session_after s sid q))" "distinct (map sn_record (list_for_session_after s sid q))"
    unfolding list_after_joined d proj by (rule distinct_joined [OF inv])+
  show "(\<lambda>v. (sn_seq v, sn_record v)) ` set (list_for_session_after s sid q)
      = {(n, r). r \<in> set (nf_records s) \<and> owned s sid r \<and> placed s sid n r \<and> q < n}"
    unfolding list_after_joined set_order_by proj by (rule set_joined [OF inv])
qed

text \<open>What a batch of new outbox rows adds to the feed, for a reader that has read up to \<open>q\<close>.\<close>

definition numbered :: "int \<Rightarrow> cli_native_record list \<Rightarrow> (int \<times> cli_native_record) list" where
  "numbered n rs = map (\<lambda>(k, r). (n + int k, r)) (enumerate 0 rs)"

lemma numbered_nth: "k < length rs \<Longrightarrow> numbered n rs ! k = (n + int k, rs ! k)"
  by (simp add: numbered_def nth_enumerate_eq)

lemma length_numbered [simp]: "length (numbered n rs) = length rs"
  by (simp add: numbered_def)

lemma fst_numbered: "map fst (numbered n rs) = map (\<lambda>k. n + int k) [0..<length rs]"
  by (rule nth_equalityI) (simp_all add: numbered_nth)

lemma in_numbered: "(m, r) \<in> set (numbered n rs) \<longleftrightarrow> (\<exists>k<length rs. m = n + int k \<and> r = rs ! k)"
  by (auto simp: in_set_conv_nth numbered_nth)

lemma feed_tail_rows:
  assumes inv: "feed_inv t" and outbox: "nf_outbox t = obs @ outbox_rows sid at n new"
    and old: "\<And>ob. ob \<in> set obs \<Longrightarrow> ob_session_id ob = sid \<Longrightarrow> ob_seq ob \<le> q" and q: "q < n"
    and new: "set new \<subseteq> set (nf_records t)" "\<And>r. r \<in> set new \<Longrightarrow> owned t sid r"
  shows "map (\<lambda>v. (sn_seq v, sn_record v)) (list_for_session_after t sid q) = numbered n new"
proof -
  note rows = list_after_rows [OF inv, of sid q]
  let ?view = "map (\<lambda>v. (sn_seq v, sn_record v)) (list_for_session_after t sid q)"
  have keys: "inj_on record_key (set (nf_records t))" using inv by (simp add: feed_inv_defs distinct_map)
  have "(m, r) \<in> set (numbered n new) \<longleftrightarrow> r \<in> set (nf_records t) \<and> owned t sid r \<and> placed t sid m r \<and> q < m" for m r
  proof
    assume "(m, r) \<in> set (numbered n new)"
    then obtain k where k: "k < length new" "m = n + int k" "r = new ! k" by (auto simp: in_numbered)
    moreover have "outbox_rows sid at n new ! k \<in> set (nf_outbox t)" using k(1) outbox by simp
    ultimately have "placed t sid m r" by (force simp: placed_def outbox_rows_nth record_key_def)
    with k q new show "r \<in> set (nf_records t) \<and> owned t sid r \<and> placed t sid m r \<and> q < m" by auto
  next
    assume r: "r \<in> set (nf_records t) \<and> owned t sid r \<and> placed t sid m r \<and> q < m"
    then obtain ob where ob: "ob \<in> set (nf_outbox t)" "ob_session_id ob = sid" "ob_seq ob = m" "(ob_file_id ob, ob_line_seq ob) = record_key r"
      by (auto simp: placed_def)
    with old [of ob] r outbox have "ob \<in> set (outbox_rows sid at n new)" by auto
    then obtain k where "k < length new" and eq: "ob = \<lparr>ob_session_id = sid, ob_seq = n + int k, ob_file_id = nr_file_id (new ! k),
        ob_line_seq = nr_line_seq (new ! k), ob_created_at = at\<rparr>" by (rule in_outbox_rowsE)
    then have k: "k < length new" "m = n + int k" "record_key r = record_key (new ! k)"
      using ob(3,4) unfolding eq by (simp_all add: record_key_def)
    moreover from k(1) new(1) have "new ! k \<in> set (nf_records t)" by auto
    ultimately have "r = new ! k" using inj_onD [OF keys, of r "new ! k"] r by simp
    with k show "(m, r) \<in> set (numbered n new)" by (auto simp: in_numbered)
  qed
  then have "set (numbered n new) = set ?view" unfolding set_map rows(4) by auto
  moreover have "sorted (map fst ?view)" "distinct (map fst ?view)" using rows(1,2) by (simp_all add: comp_def)
  moreover have "sorted (map fst (numbered n new))" "distinct (map fst (numbered n new))"
    unfolding fst_numbered by (auto simp: sorted_iff_nth_mono distinct_conv_nth)
  moreover have "inj_on fst (set ?view)" using \<open>distinct (map fst ?view)\<close> by (metis distinct_map)
  ultimately show ?thesis by (intro map_sorted_distinct_set_unique [of fst]) simp_all
qed

section \<open>The machine\<close>

text \<open>
  The operations on the transcript tables, and what the rest of the program may do to the tables
  they read: the queue moves by its own steps, sessions are added or updated, and turns,
  executions and pane bindings are arbitrary.
\<close>

inductive feed_step :: "feed \<Rightarrow> feed \<Rightarrow> bool" where
  step_register: "register_file s fresh now data = Inr (f, t) \<Longrightarrow> feed_step s t"
| step_import: "f \<in> set (nf_files s) \<Longrightarrow> \<forall>r\<in>set rs. nn_claude_session_id r = fl_claude_session_id f
    \<Longrightarrow> import_batch_with_context s now (fl_id f) rs cursor cx = Inr (res, t) \<Longrightarrow> feed_step s t"
| step_replace: "\<forall>r\<in>set rs. nn_claude_session_id r = rg_claude_session_id data
    \<Longrightarrow> replace_generation_and_import_batch_with_context s fresh now data rs cursor cx = Inr (x, t) \<Longrightarrow> feed_step s t"
| step_executor: "resolve_or_bind_executor s csid cwd now = Inr (m, t) \<Longrightarrow> feed_step s t"
| step_manual: "assign_manual s csid sid cwd now = Inr (m, t) \<Longrightarrow> feed_step s t"
| step_cli: "assign_cli s csid sid w cwd via now = Inr (l, t) \<Longrightarrow> feed_step s t"
| step_discovered: "assign_discovered_session s fresh now binding_id current csid sid w cwd = Inr (m, t) \<Longrightarrow> feed_step s t"
| step_adopt: "adopt_session s fresh now binding_id expected current csid sid w cwd = Inr (m, t) \<Longrightarrow> feed_step s t"
| step_publish: "feed_step s (fst (publish_pass s))"
| step_prune_superseded: "feed_step s (snd (prune_superseded s))"
| step_prune_unreachable: "feed_step s (snd (prune_unreachable s now days lim))"
| step_queue: "queue_step (nf_queue s) rows \<Longrightarrow> feed_step s (s\<lparr>nf_queue := rows\<rparr>)"
| step_sessions: "ss_id ` set (nf_sessions s) \<subseteq> ss_id ` set sessions \<Longrightarrow> feed_step s (s\<lparr>nf_sessions := sessions\<rparr>)"
| step_outside: "feed_step s (s\<lparr>nf_workspaces := ws, nf_turns := turns, nf_executions := eps, nf_native_links := nls, nf_bindings := bs\<rparr>)"

lemma feed_inv_watermarks [simp]: "feed_inv (s\<lparr>nf_watermarks := w\<rparr>) \<longleftrightarrow> feed_inv s"
  by (simp add: feed_inv_defs)

lemma publish_pass_inv: "feed_inv s \<Longrightarrow> feed_inv (fst (publish_pass s))"
proof -
  assume inv: "feed_inv s"
  have one: "feed_inv (fst (publish_one m st))" if "feed_inv (fst st)" for m st
    using that by (cases st) (auto simp: publish_one_def mark_published_def split: sum.splits if_splits)
  have "feed_inv (fst (foldl (\<lambda>st m. publish_one m st) (s, []) ms))" for ms
    using inv by (induction ms rule: rev_induct) (simp_all add: one)
  then show ?thesis by (simp add: publish_pass_def)
qed

lemma feed_inv_sessions: "feed_inv s \<Longrightarrow> ss_id ` set (nf_sessions s) \<subseteq> ss_id ` set sessions \<Longrightarrow> feed_inv (s\<lparr>nf_sessions := sessions\<rparr>)"
  unfolding feed_inv_defs by (auto dest: subsetD)

lemma replace_inv:
  assumes inv: "feed_inv s" and csid: "\<forall>r\<in>set rs. nn_claude_session_id r = rg_claude_session_id data"
    and run: "replace_generation_and_import_batch_with_context s fresh now data rs cursor cx = Inr (x, t)"
  shows "feed_inv t"
proof -
  from run obtain s1 where "insert_file s (new_file data fresh now (next_generation s data)) = Inr s1"
    by (auto simp: replace_generation_and_import_batch_with_context_def Let_def bind_err_Inr_iff)
  from replace_spec [OF inv csid this, of cursor cx] run show ?thesis by auto
qed

lemma feed_step_inv: "feed_inv s \<Longrightarrow> feed_step s t \<Longrightarrow> feed_inv t"
proof (erule feed_step.cases, goal_cases)
  case (2 f s rs now cursor cx res t)
  with import_batch_spec [of s f rs now cursor None cx] show ?case by (auto simp: import_batch_with_context_def)
next
  case (12 s rows)
  then have "acks_inv (s\<lparr>nf_queue := rows\<rparr>)"
    using queue_step_inv_le [of "nf_queue s" rows] acks_queue [of s rows] by (auto simp: feed_inv_def tables_ok_def acks_inv_def)
  with 12 show ?case by (auto simp: feed_inv_def tables_ok_def files_inv_def records_inv_def outbox_inv_def links_inv_def feeds_complete_def)
next
  case (14 s ws turns eps nls bs)
  then show ?case by (simp add: feed_inv_defs)
qed (auto simp: resolve_or_bind_executor_def assign_manual_def assign_cli_def assign_discovered_session_def adopt_session_def
    bind_err_Inr_iff case_prod_unfold split: option.splits
    dest: register_file_inv replace_inv upsert_link_inv assign_checked_inv
    intro: publish_pass_inv prune_superseded_inv prune_unreachable_inv feed_inv_sessions)

interpretation feed_machine: invariant_system feed_step feed_inv
  by unfold_locales (rule feed_step_inv)

end
