(* ===== verification/ForkView.thy ===== *)
theory ForkView
  imports Prelude "HOL-Library.Monad_Syntax"
begin

text \<open>
  Forks of a conversation in a transcript (\<^verbatim>\<open>claude_transcript_ingest/forks.rs\<close>): the view of the first
  fork, and the tracker that proves one record at a time that there is none.  A \<open>HashMap\<close> is an
  association list in insertion order; a stack has its top in front.  The two searches that follow child
  links are \<open>partial_function\<close>s, whose value \<open>None\<close> is a run that does not end; the panics of the code (a
  drain past the end of the path, an empty branch) are the left values of the results.
\<close>

section \<open>Data\<close>

record native_dag_record =
  nd_uuid :: string
  nd_parent_uuid :: "string option"
  nd_kind :: string

record native_fork_branch =
  fb_root_uuid :: string
  fb_node_uuids :: "string list"
  fb_leaf_uuids :: "string list"

record native_fork_view =
  fv_fork_parent_uuid :: string
  fv_prefix_uuids :: "string list"
  fv_branches :: "native_fork_branch list"
  fv_default_branch :: "nat option"

definition is_conversational_kind :: "string \<Rightarrow> bool" where
  "is_conversational_kind kind = (kind = ''user'' \<or> kind = ''assistant'')"

type_synonym parent_map = "(string \<times> string option) list"

definition parent_of :: "parent_map \<Rightarrow> string \<Rightarrow> string option" where
  "parent_of parents u = (case map_of parents u of None \<Rightarrow> None | Some p \<Rightarrow> p)"

definition known :: "parent_map \<Rightarrow> string \<Rightarrow> bool" where
  "known parents u = (map_of parents u \<noteq> None)"

section \<open>The graph of the records\<close>

record fork_dag =
  fd_parents :: parent_map
  fd_children :: "string \<Rightarrow> string list"
  fd_conversational :: "string set"
  fd_order :: "string list"

definition dag_empty :: fork_dag where
  "dag_empty = \<lparr>fd_parents = [], fd_children = (\<lambda>_. []), fd_conversational = {}, fd_order = []\<rparr>"

definition add_sibling :: "(string \<Rightarrow> string list) \<Rightarrow> string option \<Rightarrow> string \<Rightarrow> string \<Rightarrow> string list" where
  "add_sibling children parent u =
     (case parent of
        None \<Rightarrow> children
      | Some p \<Rightarrow> if u \<in> set (children p) then children else children(p := children p @ [u]))"

text \<open>The first record of a uuid counts.\<close>

definition dag_add :: "fork_dag \<Rightarrow> native_dag_record \<Rightarrow> fork_dag" where
  "dag_add d r =
     (if known (fd_parents d) (nd_uuid r) then d
      else \<lparr>fd_parents = fd_parents d @ [(nd_uuid r, nd_parent_uuid r)],
            fd_children = add_sibling (fd_children d) (nd_parent_uuid r) (nd_uuid r),
            fd_conversational =
              (if is_conversational_kind (nd_kind r) then insert (nd_uuid r) (fd_conversational d) else fd_conversational d),
            fd_order = fd_order d @ [nd_uuid r]\<rparr>)"

definition dag_of :: "native_dag_record list \<Rightarrow> fork_dag" where
  "dag_of records = foldl dag_add dag_empty records"

text \<open>The loop that marks the ancestry of a record.\<close>

function mark_up :: "parent_map \<Rightarrow> string set \<Rightarrow> string option \<Rightarrow> string set" where
  "mark_up parents marked None = marked"
| "mark_up parents marked (Some current) =
     (if current \<in> marked then marked else mark_up parents (insert current marked) (parent_of parents current))"
  by pat_completeness auto

text \<open>Every round marks a known uuid, or comes to one whose parent is unknown.\<close>

definition unmarked :: "parent_map \<Rightarrow> string set \<Rightarrow> string option \<Rightarrow> nat" where
  "unmarked parents marked cursor = card (fst ` set parents - marked) + (case cursor of None \<Rightarrow> 0 | Some _ \<Rightarrow> 1)"

lemma unmarked_step:
  assumes "current \<notin> marked"
  shows "unmarked parents (insert current marked) (parent_of parents current) < unmarked parents marked (Some current)"
proof (cases "current \<in> fst ` set parents")
  case True
  then have "fst ` set parents - insert current marked \<subset> fst ` set parents - marked" using assms by blast
  then have "card (fst ` set parents - insert current marked) < card (fst ` set parents - marked)" by (intro psubset_card_mono) auto
  then show ?thesis by (simp add: unmarked_def split: option.split)
next
  case False
  then have "parent_of parents current = None" by (simp add: parent_of_def map_of_eq_None_iff [symmetric])
  moreover have "fst ` set parents - insert current marked = fst ` set parents - marked" using False by blast
  ultimately show ?thesis by (simp add: unmarked_def)
qed

termination mark_up
  by (relation "measure (\<lambda>(parents, marked, cursor). unmarked parents marked cursor)") (auto simp: unmarked_step)

definition contains_conversation :: "fork_dag \<Rightarrow> string set" where
  "contains_conversation d =
     foldl (\<lambda>marked u. if u \<in> fd_conversational d then mark_up (fd_parents d) marked (Some u) else marked) {} (fd_order d)"

definition conversational_children :: "fork_dag \<Rightarrow> string set \<Rightarrow> string \<Rightarrow> string list" where
  "conversational_children d marked u = filter (\<lambda>c. c \<in> marked) (fd_children d u)"

section \<open>The view\<close>

definition find_fork :: "fork_dag \<Rightarrow> string set \<Rightarrow> (string \<times> string list) option" where
  "find_fork d marked =
     map_option (\<lambda>u. (u, conversational_children d marked u))
       (find (\<lambda>u. length (conversational_children d marked u) > 1) (fd_order d))"

text \<open>The prefix: the conversational ancestors of the fork, nearest first.\<close>

function prefix_up :: "parent_map \<Rightarrow> string set \<Rightarrow> string set \<Rightarrow> string option \<Rightarrow> string list" where
  "prefix_up parents conversational seen None = []"
| "prefix_up parents conversational seen (Some u) =
     (if u \<in> seen then []
      else (if u \<in> conversational then [u] else []) @ prefix_up parents conversational (insert u seen) (parent_of parents u))"
  by pat_completeness auto
termination prefix_up
  by (relation "measure (\<lambda>(parents, _, seen, cursor). unmarked parents seen cursor)") (auto simp: unmarked_step)

text \<open>The raw tail of a leaf: everything below it.\<close>

partial_function (option) collect_tail :: "(string \<Rightarrow> string list) \<Rightarrow> string set \<Rightarrow> string list \<Rightarrow> string set option" where
  [code]: "collect_tail children seen stack =
     (case stack of
        [] \<Rightarrow> Some seen
      | u # rest \<Rightarrow>
          if u \<in> seen then collect_tail children seen rest
          else collect_tail children (insert u seen) (rev (children u) @ rest))"

datatype fork_panic = DrainOutOfRange | EmptyBranch

type_synonym branch_data = "(native_fork_branch \<times> string set) list"

text \<open>What a conversational node without conversational children adds to the branches.\<close>

definition leaf_branch :: "fork_dag \<Rightarrow> string list \<Rightarrow> string \<Rightarrow> (fork_panic + native_fork_branch) " where
  "leaf_branch d raw_path u =
     (case filter (\<lambda>v. v \<in> fd_conversational d) raw_path of
        [] \<Rightarrow> Inl EmptyBranch
      | root # nodes \<Rightarrow> Inr \<lparr>fb_root_uuid = root, fb_node_uuids = root # nodes, fb_leaf_uuids = [u]\<rparr>)"

text \<open>The depth-first search below one root, with one shared path.\<close>

partial_function (option) branch_search ::
    "fork_dag \<Rightarrow> string set \<Rightarrow> (string \<times> nat) list \<Rightarrow> string list \<Rightarrow> string set \<Rightarrow> branch_data \<Rightarrow> (fork_panic + branch_data) option" where
  [code]: "branch_search d marked stack raw_path on_path acc =
     (case stack of
        [] \<Rightarrow> Some (Inr acc)
      | item # rest \<Rightarrow>
          if length raw_path < snd item then Some (Inl DrainOutOfRange)
          else
            (let u = fst item;
                 on_path1 = on_path - set (drop (snd item) raw_path);
                 path1 = take (snd item) raw_path in
             if u \<in> on_path1 then branch_search d marked rest path1 on_path1 acc
             else
               (let path2 = path1 @ [u]; on_path2 = insert u on_path1; cs = conversational_children d marked u in
                if u \<in> fd_conversational d \<and> cs = [] then
                  (case leaf_branch d path2 u of
                     Inl e \<Rightarrow> Some (Inl e)
                   | Inr b \<Rightarrow>
                       Option.bind (collect_tail (fd_children d) (set path2) (rev (fd_children d u)))
                         (\<lambda>raw_nodes. branch_search d marked rest path2 on_path2 (acc @ [(b, raw_nodes)])))
                else branch_search d marked (map (\<lambda>c. (c, length path2)) cs @ rest) path2 on_path2 acc)))"

fun all_branches :: "fork_dag \<Rightarrow> string set \<Rightarrow> string list \<Rightarrow> branch_data \<Rightarrow> (fork_panic + branch_data) option" where
  "all_branches d marked [] acc = Some (Inr acc)"
| "all_branches d marked (root # roots) acc =
     Option.bind (branch_search d marked [(root, 0)] [] {} acc)
       (\<lambda>r. case r of Inl e \<Rightarrow> Some (Inl e) | Inr acc' \<Rightarrow> all_branches d marked roots acc')"

primrec position_of :: "('a \<Rightarrow> bool) \<Rightarrow> 'a list \<Rightarrow> nat option" where
  "position_of f [] = None"
| "position_of f (x # xs) = (if f x then Some 0 else map_option Suc (position_of f xs))"

definition compute_fork_view :: "native_dag_record list \<Rightarrow> string option \<Rightarrow> (fork_panic + native_fork_view option) option" where
  "compute_fork_view records leaf_hint =
     (let d = dag_of records; marked = contains_conversation d in
      case find_fork d marked of
        None \<Rightarrow> Some (Inr None)
      | Some (fork_parent, roots) \<Rightarrow>
          (let prefix = rev (fork_parent # prefix_up (fd_parents d) (fd_conversational d) {} (parent_of (fd_parents d) fork_parent)) in
           map_option
             (map_sum id
                (\<lambda>data. Some
                   \<lparr>fv_fork_parent_uuid = fork_parent, fv_prefix_uuids = prefix, fv_branches = map fst data,
                    fv_default_branch = Option.bind leaf_hint (\<lambda>hint. position_of (\<lambda>(_, raw_nodes). hint \<in> raw_nodes) data)\<rparr>))
             (all_branches d marked roots [])))"

section \<open>The tracker\<close>

record fork_free_tracker =
  ft_parents :: parent_map
  ft_referenced :: "string set"
  ft_marked :: "string set"
  ft_marked_children :: "string \<Rightarrow> nat"

definition tracker_default :: fork_free_tracker where
  "tracker_default = \<lparr>ft_parents = [], ft_referenced = {}, ft_marked = {}, ft_marked_children = (\<lambda>_. 0)\<rparr>"

function tracker_mark :: "fork_free_tracker \<Rightarrow> string option \<Rightarrow> fork_free_tracker \<times> bool" where
  "tracker_mark t None = (t, True)"
| "tracker_mark t (Some current) =
     (if current \<in> ft_marked t then (t, True)
      else
        (let t1 = t\<lparr>ft_marked := insert current (ft_marked t)\<rparr>; parent = parent_of (ft_parents t) current in
         case parent of
           None \<Rightarrow> (t1, True)
         | Some p \<Rightarrow>
             (let n = ft_marked_children t1 p + 1; t2 = t1\<lparr>ft_marked_children := (ft_marked_children t1)(p := n)\<rparr> in
              if n > 1 \<and> known (ft_parents t2) p then (t2, False) else tracker_mark t2 (Some p))))"
  by pat_completeness auto
termination tracker_mark
proof (relation "measure (\<lambda>(t, cursor). unmarked (ft_parents t) (ft_marked t) cursor)", goal_cases)
  case (2 t current t1 parent p n t2)
  then show ?case using unmarked_step [of current "ft_marked t" "ft_parents t"] by simp
qed simp

definition tracker_push :: "fork_free_tracker \<Rightarrow> native_dag_record \<Rightarrow> fork_free_tracker \<times> bool" where
  "tracker_push t r =
     (if known (ft_parents t) (nd_uuid r) then (t, True)
      else if nd_uuid r \<in> ft_referenced t then (t, False)
      else
        (let t1 = t\<lparr>ft_parents := ft_parents t @ [(nd_uuid r, nd_parent_uuid r)]\<rparr>;
             t2 = (case nd_parent_uuid r of None \<Rightarrow> t1 | Some p \<Rightarrow> t1\<lparr>ft_referenced := insert p (ft_referenced t1)\<rparr>) in
         if \<not> is_conversational_kind (nd_kind r) then (t2, True)
         else tracker_mark t2 (Some (nd_uuid r))))"

text \<open>The caller pushes one record after the other while the answer is \<open>true\<close>.\<close>

fun push_all :: "fork_free_tracker \<Rightarrow> native_dag_record list \<Rightarrow> fork_free_tracker \<times> bool" where
  "push_all t [] = (t, True)"
| "push_all t (r # rs) = (let (t', free) = tracker_push t r in if free then push_all t' rs else (t', False))"

end
