(* ===== verification/Projection.thy ===== *)
theory Projection
  imports NativeFeed ForkView
begin

text \<open>
  The projection a session's feed is served from (\<^verbatim>\<open>claude_transcript_ingest/projection.rs\<close>).  What turns a raw
  line into entries (the line adapters of the two agents and the stateful normalizer) is the argument
  \<open>adapters\<close>; everything below holds for all of them.  An entry type other than a user message is opaque.  A
  \<open>HashMap\<close> that is only read and written by key is a map.  The indices into files and entries are those
  that were just looked up or appended.
\<close>

section \<open>Data\<close>

datatype native_feed_origin = OriginCli | OriginApp | OriginExecutor

datatype 'x normalized_entry_type = UserMessage | OtherEntry 'x

record 'x normalized_entry =
  ne_timestamp :: "string option"
  ne_entry_type :: "'x normalized_entry_type"
  ne_content :: string
  ne_metadata :: "string option"

record native_branch_metadata =
  bm_fork_parent_uuid :: string
  bm_branch_index :: nat
  bm_branch_label :: string
  bm_is_default :: bool

record 'x native_feed_entry =
  fe_normalized_entry :: "'x normalized_entry"
  fe_claude_session_id :: string
  fe_uuid :: "string option"
  fe_parent_uuid :: "string option"
  fe_ts :: "string option"
  fe_origin :: native_feed_origin
  fe_linked_execution_process_id :: "uuid option"
  fe_git_branch :: "string option"
  fe_version :: "string option"
  fe_branch :: "native_branch_metadata option"
  fe_seq :: int

record native_feed_fork =
  ff_claude_session_id :: string
  ff_file_id :: uuid
  ff_fork :: native_fork_view

record native_file_import_health =
  fh_claude_session_id :: string
  fh_file_name :: string
  fh_generation :: int
  fh_last_import_at :: "datetime option"

record file_dag =
  fg_file_id :: uuid
  fg_claude_session_id :: string
  fg_records :: "native_dag_record list"
  fg_leaf_hint :: "string option"
  fg_tracker :: "fork_free_tracker option"
  fg_fork :: "native_fork_view option"

record native_feed_cursor =
  cu_epoch :: nat
  cu_version :: nat
  cu_len :: nat

record 'x native_feed_delta =
  dl_appended_from :: nat
  dl_appended :: "'x native_feed_entry list"
  dl_replaced :: "(nat \<times> 'x native_feed_entry) list"
  dl_forks_changed :: bool

record ('n, 'x) native_projection =
  np_revision :: nat
  np_last_row_seq :: int
  np_rows_visited :: nat
  np_normalizers :: "string \<rightharpoonup> 'n"
  np_entry_positions :: "string \<times> nat \<rightharpoonup> nat"
  np_entries :: "'x native_feed_entry list"
  np_file_dags :: "file_dag list"
  np_file_dag_positions :: "uuid \<rightharpoonup> nat"
  np_file_ids_by_path :: "string \<times> string \<rightharpoonup> uuid"
  np_files :: "native_file_import_health list"
  np_file_positions :: "uuid \<rightharpoonup> nat"
  np_branch_by_uuid :: "string \<rightharpoonup> native_branch_metadata"
  np_forks :: "native_feed_fork list"
  np_epoch :: nat
  np_version :: nat
  np_forks_version :: nat
  np_changes :: "(nat \<times> nat) list"

text \<open>A row of the session, with the executions it is attributed to.\<close>

record projection_row = session_native_record +
  sn_linked_execution_process_id :: "uuid option"
  sn_bound_turn_execution_process_id :: "uuid option"

section \<open>The adapters\<close>

record native_claude_metadata =
  cm_claude_session_id :: string
  cm_uuid :: "string option"
  cm_parent_uuid :: "string option"
  cm_timestamp :: "string option"
  cm_version :: "string option"
  cm_git_branch :: "string option"
  cm_entrypoint :: "string option"
  cm_kind :: string
  cm_leaf_uuid :: "string option"
  cm_is_sidechain :: bool

datatype native_claude_skip_reason = SkipBookkeeping | SkipSidechain

datatype native_claude_disposition = ClaudeRenderable | ClaudeSkip native_claude_skip_reason | ClaudeUnknown

datatype codex_rollout_disposition = CodexRenderable | CodexBookkeeping | CodexUnknown

record 'x codex_rollout_line =
  cx_disposition :: codex_rollout_disposition
  cx_kind :: string
  cx_item_id :: "string option"
  cx_turn_id :: "string option"
  cx_timestamp :: "string option"
  cx_entries :: "'x normalized_entry list"

text \<open>The part of an adapted line that the metadata do not hold, \<open>'l\<close>, is known by its disposition and its user text.\<close>

record ('l, 'n, 'x) adapters =
  ad_claude_line :: "string \<Rightarrow> string \<Rightarrow> (native_claude_metadata \<times> 'l) option"
  ad_disposition :: "'l \<Rightarrow> native_claude_disposition"
  ad_plain_user_text :: "'l \<Rightarrow> string option"
  ad_codex_line :: "string \<Rightarrow> string \<Rightarrow> bool \<Rightarrow> 'x codex_rollout_line option"
  ad_is_uuid :: "string \<Rightarrow> bool"
  ad_normalizer_default :: 'n
  ad_normalize :: "'n \<Rightarrow> native_claude_metadata \<times> 'l \<Rightarrow> string \<Rightarrow> 'n \<times> (nat \<times> 'x normalized_entry) list"

text \<open>\<open>rollout_thread_id\<close> of \<^verbatim>\<open>executors/codex/rollout.rs\<close>; whether a text is a uuid is decided by the adapters.\<close>

definition strip_suffix :: "string \<Rightarrow> string \<Rightarrow> string option" where
  "strip_suffix s p = map_option rev (strip_prefix (rev s) (rev p))"

definition rollout_thread_id :: "(string \<Rightarrow> bool) \<Rightarrow> string \<Rightarrow> string option" where
  "rollout_thread_id is_uuid file_name =
     Option.bind (strip_prefix file_name ''rollout-'') (\<lambda>rest.
     Option.bind (strip_suffix rest ''.jsonl'') (\<lambda>stem.
       if length stem < 36 then None
       else (let i = drop (length stem - 36) stem in if is_uuid i then Some i else None)))"

section \<open>Pasted content\<close>

definition paste_open_tag :: string where
  "paste_open_tag = ''<pasted_content id='' @ [CHR 0x22]"

definition paste_close_tag :: "string \<Rightarrow> string" where
  "paste_close_tag i = ''</pasted_content id='' @ [CHR 0x22] @ i @ [CHR 0x22] @ ''>''"

definition strip_newlines :: "string \<Rightarrow> string" where
  "strip_newlines body =
     (let b = (case body of c # cs \<Rightarrow> if c = CHR 0x0A then cs else body | [] \<Rightarrow> body) in
      if b \<noteq> [] \<and> last b = CHR 0x0A then butlast b else b)"

text \<open>One round of the loop: the text before the wrapper, its body and what follows it.\<close>

definition unwrap_one :: "string \<Rightarrow> (string \<times> string \<times> string) option" where
  "unwrap_one rest =
     Option.bind (find_str rest paste_open_tag) (\<lambda>start.
       let after_open = drop (start + length paste_open_tag) rest in
       Option.bind (find_str after_open ([CHR 0x22] @ ''>'')) (\<lambda>id_end.
         let i = take id_end after_open; body_start = drop (id_end + 2) after_open; close = paste_close_tag i in
         Option.bind (find_str body_start close) (\<lambda>close_at.
           Some (take start rest, strip_newlines (take close_at body_start), drop (close_at + length close) body_start))))"

lemma find_str_bound: "find_str s p = Some k \<Longrightarrow> k + length p \<le> length s"
  using find_from_Some [of 0 s p k] by (auto simp: find_str_def starts_with_iff dest!: arg_cong [of "drop k s" _ length])

lemma unwrap_one_shorter: "unwrap_one rest = Some (before, body, after) \<Longrightarrow> length after < length rest"
  by (auto simp: unwrap_one_def Let_def paste_open_tag_def split: bind_splits dest!: find_str_bound)

function unwrap_loop :: "string \<Rightarrow> string \<Rightarrow> bool \<Rightarrow> string option" where
  "unwrap_loop out rest changed =
     (case unwrap_one rest of
        None \<Rightarrow> if changed then Some (out @ rest) else None
      | Some (before, body, after) \<Rightarrow> unwrap_loop (out @ before @ body) after True)"
  by pat_completeness auto
termination unwrap_loop
  by (relation "measure (\<lambda>(_, rest, _). length rest)") (auto simp: unwrap_one_shorter)

declare unwrap_loop.simps [simp del]

definition unwrap_pasted_content :: "string \<Rightarrow> string option" where
  "unwrap_pasted_content content = unwrap_loop [] content False"

section \<open>Folding rows\<close>

definition row_origin :: "projection_row \<Rightarrow> native_feed_origin \<times> uuid option" where
  "row_origin row =
     (if sn_linked_execution_process_id row \<noteq> None then OriginExecutor
      else if sn_bound_turn_execution_process_id row \<noteq> None \<or> nr_bound_queued_message_id (sn_record row) \<noteq> None then OriginApp
      else OriginCli,
      if sn_linked_execution_process_id row \<noteq> None then sn_linked_execution_process_id row else sn_bound_turn_execution_process_id row)"

definition unwrap_entry :: "'x normalized_entry \<Rightarrow> 'x normalized_entry" where
  "unwrap_entry e =
     (case ne_entry_type e of
        UserMessage \<Rightarrow> (case unwrap_pasted_content (ne_content e) of Some c \<Rightarrow> e\<lparr>ne_content := c\<rparr> | None \<Rightarrow> e)
      | OtherEntry _ \<Rightarrow> e)"

text \<open>One change of the normalizer: an entry already projected is replaced in place, a new one appended.\<close>

definition apply_change ::
    "projection_row \<Rightarrow> native_claude_metadata \<Rightarrow> nat \<Rightarrow> ('n, 'x) native_projection \<Rightarrow> nat \<times> 'x normalized_entry \<Rightarrow> ('n, 'x) native_projection" where
  "apply_change row md base_len p change =
     (let entry = unwrap_entry (snd change); key = (nr_claude_session_id (sn_record row), fst change) in
      case np_entry_positions p key of
        Some position \<Rightarrow>
          p\<lparr>np_entries := (np_entries p)[position := (np_entries p ! position)\<lparr>fe_normalized_entry := entry\<rparr>],
            np_changes := np_changes p @ (if position < base_len then [(np_version p, position)] else [])\<rparr>
      | None \<Rightarrow>
          p\<lparr>np_entry_positions := (np_entry_positions p)(key \<mapsto> length (np_entries p)),
            np_entries := np_entries p @
              [\<lparr>fe_normalized_entry = entry, fe_claude_session_id = nr_claude_session_id (sn_record row), fe_uuid = cm_uuid md,
                fe_parent_uuid = cm_parent_uuid md, fe_ts = cm_timestamp md, fe_origin = fst (row_origin row),
                fe_linked_execution_process_id = snd (row_origin row), fe_git_branch = cm_git_branch md,
                fe_version = cm_version md, fe_branch = None, fe_seq = sn_seq row\<rparr>]\<rparr>)"

definition fold_codex_row :: "('l, 'n, 'x) adapters \<Rightarrow> projection_row \<Rightarrow> ('n, 'x) native_projection \<Rightarrow> ('n, 'x) native_projection" where
  "fold_codex_row ad row p =
     (if nr_disposition (sn_record row) \<noteq> disposition_str Renderable then p
      else
        (case ad_codex_line ad (nr_raw (sn_record row)) (sn_link_cwd row) True of
           None \<Rightarrow> p
         | Some line \<Rightarrow>
             p\<lparr>np_entries := np_entries p @
                 map (\<lambda>entry.
                   \<lparr>fe_normalized_entry = entry, fe_claude_session_id = nr_claude_session_id (sn_record row), fe_uuid = cx_item_id line,
                    fe_parent_uuid = cx_turn_id line, fe_ts = cx_timestamp line, fe_origin = fst (row_origin row),
                    fe_linked_execution_process_id = snd (row_origin row), fe_git_branch = None,
                    fe_version = None, fe_branch = None, fe_seq = sn_seq row\<rparr>) (cx_entries line)\<rparr>))"

text \<open>What every row does first: the counters and the health of its file.\<close>

definition note_file :: "projection_row \<Rightarrow> ('n, 'x) native_projection \<Rightarrow> ('n, 'x) native_projection" where
  "note_file row p =
     (let fid = nr_file_id (sn_record row);
          health = \<lparr>fh_claude_session_id = nr_claude_session_id (sn_record row), fh_file_name = fl_file_name (sn_file row),
                    fh_generation = fl_generation (sn_file row), fh_last_import_at = fl_last_import_at (sn_file row)\<rparr>;
          p1 = p\<lparr>np_rows_visited := np_rows_visited p + 1,
                 np_last_row_seq := max (np_last_row_seq p) (sn_seq row),
                 np_file_ids_by_path := (np_file_ids_by_path p)((fl_dir_path (sn_file row), fl_file_name (sn_file row)) \<mapsto> fid)\<rparr> in
      case np_file_positions p1 fid of
        Some position \<Rightarrow> p1\<lparr>np_files := (np_files p1)[position := health]\<rparr>
      | None \<Rightarrow> p1\<lparr>np_file_positions := (np_file_positions p1)(fid \<mapsto> length (np_files p1)), np_files := np_files p1 @ [health]\<rparr>)"

definition dag_entry :: "projection_row \<Rightarrow> ('n, 'x) native_projection \<Rightarrow> nat \<times> ('n, 'x) native_projection" where
  "dag_entry row p =
     (let fid = nr_file_id (sn_record row) in
      case np_file_dag_positions p fid of
        Some index \<Rightarrow> (index, p)
      | None \<Rightarrow>
          (length (np_file_dags p),
           p\<lparr>np_file_dag_positions := (np_file_dag_positions p)(fid \<mapsto> length (np_file_dags p)),
             np_file_dags := np_file_dags p @
               [\<lparr>fg_file_id = fid, fg_claude_session_id = nr_claude_session_id (sn_record row), fg_records = [], fg_leaf_hint = None,
                 fg_tracker = Some tracker_default, fg_fork = None\<rparr>]\<rparr>))"

definition dag_note :: "native_claude_metadata \<Rightarrow> file_dag \<Rightarrow> file_dag" where
  "dag_note md dag =
     (let dag1 = (case cm_uuid md of
                    None \<Rightarrow> dag
                  | Some u \<Rightarrow>
                      (let r = \<lparr>nd_uuid = u, nd_parent_uuid = cm_parent_uuid md, nd_kind = cm_kind md\<rparr> in
                       dag\<lparr>fg_tracker := (case fg_tracker dag of
                                            None \<Rightarrow> None
                                          | Some t \<Rightarrow> (let (t', free) = tracker_push t r in if free then Some t' else None)),
                           fg_records := fg_records dag @ [r]\<rparr>)) in
      case cm_leaf_uuid md of None \<Rightarrow> dag1 | Some leaf \<Rightarrow> dag1\<lparr>fg_leaf_hint := Some leaf\<rparr>)"

definition touches :: "native_claude_metadata \<Rightarrow> bool" where
  "touches md = (cm_uuid md \<noteq> None \<or> cm_leaf_uuid md \<noteq> None)"

definition fold_claude_row ::
    "('l, 'n, 'x) adapters \<Rightarrow> projection_row \<Rightarrow> nat \<Rightarrow> ('n, 'x) native_projection \<times> nat set \<Rightarrow> ('n, 'x) native_projection \<times> nat set" where
  "fold_claude_row ad row base_len pt =
     (let p = fst pt; sid = nr_claude_session_id (sn_record row) in
      if nr_disposition (sn_record row) = disposition_str Sidechain then pt
      else
        (case ad_claude_line ad (nr_raw (sn_record row)) sid of
           None \<Rightarrow> pt
         | Some line \<Rightarrow>
             (let md = fst line;
                  (index, p1) = dag_entry row p;
                  p2 = p1\<lparr>np_file_dags := (np_file_dags p1)[index := dag_note md (np_file_dags p1 ! index)]\<rparr>;
                  normalizer = (case np_normalizers p2 sid of None \<Rightarrow> ad_normalizer_default ad | Some n \<Rightarrow> n);
                  (normalizer', changes) = ad_normalize ad normalizer line (fl_dir_path (sn_file row));
                  p3 = p2\<lparr>np_normalizers := (np_normalizers p2)(sid \<mapsto> normalizer')\<rparr> in
              (foldl (apply_change row md base_len) p3 changes, if touches md then insert index (snd pt) else snd pt))))"

definition fold_row ::
    "('l, 'n, 'x) adapters \<Rightarrow> nat \<Rightarrow> ('n, 'x) native_projection \<times> nat set \<Rightarrow> projection_row \<Rightarrow> ('n, 'x) native_projection \<times> nat set" where
  "fold_row ad base_len pt row =
     (let p1 = note_file row (fst pt) in
      if rollout_thread_id (ad_is_uuid ad) (fl_file_name (sn_file row)) \<noteq> None then (fold_codex_row ad row p1, snd pt)
      else fold_claude_row ad row base_len (p1, snd pt))"

section \<open>Forks and branches\<close>

text \<open>The computation of a fork view always ends and never panics, so its value is the view.\<close>

definition fork_view :: "file_dag \<Rightarrow> native_fork_view option" where
  "fork_view dag = (case compute_fork_view (fg_records dag) (fg_leaf_hint dag) of Some (Inr v) \<Rightarrow> v | _ \<Rightarrow> None)"

fun decimal_str :: "nat \<Rightarrow> string" where
  "decimal_str n = (if n < 10 then [char_of (48 + n)] else decimal_str (n div 10) @ [char_of (48 + n mod 10)])"

declare decimal_str.simps [simp del]

definition branch_metadata :: "native_fork_view \<Rightarrow> nat \<Rightarrow> native_branch_metadata" where
  "branch_metadata fork i =
     \<lparr>bm_fork_parent_uuid = fv_fork_parent_uuid fork, bm_branch_index = i, bm_branch_label = ''Branch '' @ decimal_str (i + 1),
      bm_is_default = (fv_default_branch fork = Some i)\<rparr>"

text \<open>Later branches and later files overwrite the branch of a uuid.\<close>

definition fork_branches :: "native_fork_view \<Rightarrow> (string \<times> native_branch_metadata) list" where
  "fork_branches fork =
     concat (map (\<lambda>(i, branch). map (\<lambda>u. (u, branch_metadata fork i)) (fb_node_uuids branch)) (enumerate 0 (fv_branches fork)))"

definition branches_of_dags :: "file_dag list \<Rightarrow> (string \<rightharpoonup> native_branch_metadata)" where
  "branches_of_dags dags =
     foldl (\<lambda>m (u, b). m(u \<mapsto> b)) Map.empty (concat (map (\<lambda>dag. case fg_fork dag of None \<Rightarrow> [] | Some fork \<Rightarrow> fork_branches fork) dags))"

definition forks_of_dags :: "file_dag list \<Rightarrow> native_feed_fork list" where
  "forks_of_dags dags =
     concat (map (\<lambda>dag. case fg_fork dag of
         None \<Rightarrow> []
       | Some fork \<Rightarrow> [\<lparr>ff_claude_session_id = fg_claude_session_id dag, ff_file_id = fg_file_id dag, ff_fork = fork\<rparr>]) dags)"

definition branch_of_entry :: "(string \<rightharpoonup> native_branch_metadata) \<Rightarrow> 'x native_feed_entry \<Rightarrow> native_branch_metadata option" where
  "branch_of_entry branches e = Option.bind (fe_uuid e) branches"

definition set_branch :: "(string \<rightharpoonup> native_branch_metadata) \<Rightarrow> 'x native_feed_entry \<Rightarrow> 'x native_feed_entry" where
  "set_branch branches e = e\<lparr>fe_branch := branch_of_entry branches e\<rparr>"

text \<open>\<open>rebuild_branches\<close>: the entries below \<open>base_len\<close> whose branch changed are logged.\<close>

definition rebuild_branches :: "nat \<Rightarrow> ('n, 'x) native_projection \<Rightarrow> ('n, 'x) native_projection" where
  "rebuild_branches base_len p =
     (let branches = branches_of_dags (np_file_dags p) in
      p\<lparr>np_forks := forks_of_dags (np_file_dags p),
        np_branch_by_uuid := branches,
        np_entries := map (\<lambda>e. if fe_branch e \<noteq> branch_of_entry branches e then set_branch branches e else e) (np_entries p),
        np_changes := np_changes p @
          map (\<lambda>(i, e). (np_version p, i))
            (filter (\<lambda>(i, e). fe_branch e \<noteq> branch_of_entry branches e \<and> i < base_len) (enumerate 0 (np_entries p)))\<rparr>)"

section \<open>The operations\<close>

definition projection_new :: "nat \<Rightarrow> nat \<Rightarrow> ('n, 'x) native_projection" where
  "projection_new epoch revision =
     \<lparr>np_revision = revision, np_last_row_seq = - (2 ^ 63), np_rows_visited = 0, np_normalizers = Map.empty,
      np_entry_positions = Map.empty, np_entries = [], np_file_dags = [], np_file_dag_positions = Map.empty,
      np_file_ids_by_path = Map.empty, np_files = [], np_file_positions = Map.empty, np_branch_by_uuid = Map.empty,
      np_forks = [], np_epoch = epoch, np_version = 0, np_forks_version = 0, np_changes = []\<rparr>"

text \<open>\<open>epoch\<close> is the next value of the process-wide counter.\<close>

definition build :: "('l, 'n, 'x) adapters \<Rightarrow> nat \<Rightarrow> projection_row list \<Rightarrow> nat \<Rightarrow> ('n, 'x) native_projection" where
  "build ad epoch rows revision =
     (let (p, touched) = foldl (fold_row ad 0) (projection_new epoch revision, {}) rows in
      rebuild_branches 0 (p\<lparr>np_file_dags := map (\<lambda>dag. dag\<lparr>fg_fork := fork_view dag\<rparr>) (np_file_dags p)\<rparr>))"

definition can_extend :: "('n, 'x) native_projection \<Rightarrow> projection_row list \<Rightarrow> bool" where
  "can_extend p rows =
     list_all (\<lambda>row. sn_seq row > np_last_row_seq p \<and>
       (case np_file_ids_by_path p (fl_dir_path (sn_file row), fl_file_name (sn_file row)) of
          None \<Rightarrow> True
        | Some fid \<Rightarrow> fid = nr_file_id (sn_record row))) rows"

text \<open>The forks of the touched files, in index order; the flag tells whether one changed.\<close>

definition refork :: "file_dag list \<times> bool \<Rightarrow> nat \<Rightarrow> file_dag list \<times> bool" where
  "refork acc index =
     (let dag = fst acc ! index in
      if fg_tracker dag \<noteq> None then acc
      else
        (let fork = fork_view dag in
         if fork \<noteq> fg_fork dag then ((fst acc)[index := dag\<lparr>fg_fork := fork\<rparr>], True) else acc))"

definition extend :: "('l, 'n, 'x) adapters \<Rightarrow> ('n, 'x) native_projection \<Rightarrow> projection_row list \<Rightarrow> ('n, 'x) native_projection" where
  "extend ad p rows =
     (if rows = [] then p
      else
        (let base_len = length (np_entries p);
             (p1, touched) = foldl (fold_row ad base_len) (p\<lparr>np_version := np_version p + 1\<rparr>, {}) rows;
             (dags, forks_changed) = foldl refork (np_file_dags p1, False) (sorted_list_of_set touched);
             p2 = p1\<lparr>np_file_dags := dags\<rparr> in
         if forks_changed then rebuild_branches base_len (p2\<lparr>np_forks_version := np_version p2\<rparr>)
         else p2\<lparr>np_entries := take base_len (np_entries p2) @ map (set_branch (np_branch_by_uuid p2)) (drop base_len (np_entries p2))\<rparr>))"

definition cursor :: "('n, 'x) native_projection \<Rightarrow> native_feed_cursor" where
  "cursor p = \<lparr>cu_epoch = np_epoch p, cu_version = np_version p, cu_len = length (np_entries p)\<rparr>"

text \<open>\<open>partition_point\<close> of a list whose elements that satisfy the predicate all come first.\<close>

definition partition_point :: "('a \<Rightarrow> bool) \<Rightarrow> 'a list \<Rightarrow> nat" where
  "partition_point f xs = length (takeWhile f xs)"

definition delta_since :: "('n, 'x) native_projection \<Rightarrow> native_feed_cursor \<Rightarrow> 'x native_feed_delta option" where
  "delta_since p c =
     (if cu_epoch c \<noteq> np_epoch p \<or> cu_len c > length (np_entries p) then None
      else
        (let first_change = partition_point (\<lambda>(version, _). version \<le> cu_version c) (np_changes p);
             replaced = sorted_list_of_set (set (filter (\<lambda>i. i < cu_len c) (map snd (drop first_change (np_changes p))))) in
         Some \<lparr>dl_appended_from = cu_len c, dl_appended = drop (cu_len c) (np_entries p),
               dl_replaced = map (\<lambda>i. (i, np_entries p ! i)) replaced,
               dl_forks_changed = (np_forks_version p > cu_version c)\<rparr>))"

end
