(* ===== verification/TailReader.thy ===== *)
theory TailReader
  imports Prelude "HOL-Library.Word"
begin

text \<open>
  Reading a growing transcript (\<^verbatim>\<open>claude_transcript_ingest/tail.rs\<close>): complete lines in batches, the cursor
  behind the last of them, and the reasons to read a file again from its start.  The SHA-256 of the bytes of
  a line and the lossy decoding of bytes are the arguments \<open>hash\<close> and \<open>lossy\<close>.
\<close>

type_synonym byte = "8 word"

definition newline :: byte where
  "newline = 10"

definition carriage_return :: byte where
  "carriage_return = 13"

record complete_native_line =
  cl_line_seq :: int
  cl_start_offset :: int
  cl_end_offset :: int
  cl_raw :: string

record tail_chunk =
  tc_lines :: "complete_native_line list"
  tc_cursor_offset :: int
  tc_next_line_seq :: int
  tc_trailing_bytes :: nat
  tc_last_line_offset :: "int option"
  tc_last_line_hash :: "string option"

section \<open>Batches\<close>

text \<open>\<open>read_until\<close> the newline, which belongs to the result, or to the end.\<close>

definition read_until_newline :: "byte list \<Rightarrow> byte list \<times> byte list" where
  "read_until_newline bs =
     (case dropWhile (\<lambda>b. b \<noteq> newline) bs of
        [] \<Rightarrow> (bs, [])
      | _ # rest \<Rightarrow> (takeWhile (\<lambda>b. b \<noteq> newline) bs @ [newline], rest))"

definition raw_bytes :: "byte list \<Rightarrow> byte list" where
  "raw_bytes line =
     (let b = butlast line in if b \<noteq> [] \<and> last b = carriage_return then butlast b else b)"

definition tail_push :: "(byte list \<Rightarrow> string) \<Rightarrow> (byte list \<Rightarrow> string) \<Rightarrow> byte list \<Rightarrow> tail_chunk \<Rightarrow> tail_chunk" where
  "tail_push hash lossy line t =
     (let start_offset = tc_cursor_offset t; end_offset = start_offset + int (length line) in
      t\<lparr>tc_lines := tc_lines t @ [\<lparr>cl_line_seq = tc_next_line_seq t, cl_start_offset = start_offset, cl_end_offset = end_offset,
            cl_raw = lossy (raw_bytes line)\<rparr>],
        tc_cursor_offset := end_offset, tc_next_line_seq := tc_next_line_seq t + 1,
        tc_last_line_offset := Some start_offset, tc_last_line_hash := Some (hash line)\<rparr>)"

text \<open>The loop; \<open>k\<close> lines may still be read.  The second result is what the reader has left.\<close>

primrec read_lines ::
    "(byte list \<Rightarrow> string) \<Rightarrow> (byte list \<Rightarrow> string) \<Rightarrow> nat \<Rightarrow> byte list \<Rightarrow> tail_chunk \<Rightarrow> tail_chunk \<times> byte list" where
  "read_lines hash lossy 0 reader t = (t, reader)"
| "read_lines hash lossy (Suc k) reader t =
     (let (line, rest) = read_until_newline reader in
      if line = [] then (t, rest)
      else if last line \<noteq> newline then (t\<lparr>tc_trailing_bytes := length line\<rparr>, rest)
      else read_lines hash lossy k rest (tail_push hash lossy line t))"

definition empty_chunk :: "int \<Rightarrow> int \<Rightarrow> tail_chunk" where
  "empty_chunk base_offset first_line_seq =
     \<lparr>tc_lines = [], tc_cursor_offset = base_offset, tc_next_line_seq = first_line_seq, tc_trailing_bytes = 0,
      tc_last_line_offset = None, tc_last_line_hash = None\<rparr>"

definition read_complete_line_batch ::
    "(byte list \<Rightarrow> string) \<Rightarrow> (byte list \<Rightarrow> string) \<Rightarrow> byte list \<Rightarrow> int \<Rightarrow> int \<Rightarrow> nat \<Rightarrow> tail_chunk \<times> byte list" where
  "read_complete_line_batch hash lossy reader base_offset first_line_seq max_lines =
     read_lines hash lossy max_lines reader (empty_chunk base_offset first_line_seq)"

text \<open>
  The reference of the tests, \<open>split_complete_lines\<close>: one pass over the bytes with the bytes of the current line
  in \<open>line\<close>.
\<close>

primrec split_loop :: "(byte list \<Rightarrow> string) \<Rightarrow> (byte list \<Rightarrow> string) \<Rightarrow> byte list \<Rightarrow> byte list \<Rightarrow> tail_chunk \<Rightarrow> tail_chunk" where
  "split_loop hash lossy line [] t = t\<lparr>tc_trailing_bytes := length line\<rparr>"
| "split_loop hash lossy line (b # bs) t =
     (if b \<noteq> newline then split_loop hash lossy (line @ [b]) bs t
      else split_loop hash lossy [] bs (tail_push hash lossy (line @ [b]) t))"

definition split_complete_lines :: "(byte list \<Rightarrow> string) \<Rightarrow> (byte list \<Rightarrow> string) \<Rightarrow> byte list \<Rightarrow> int \<Rightarrow> int \<Rightarrow> tail_chunk" where
  "split_complete_lines hash lossy bytes base_offset first_line_seq =
     split_loop hash lossy [] bytes (empty_chunk base_offset first_line_seq)"

section \<open>Rescans\<close>

record stored_tail_state =
  st_dev :: int
  st_inode :: int
  st_cursor_offset :: int
  st_last_line_hash :: "string option"

record observed_file_state =
  os_dev :: int
  os_inode :: int
  os_size :: int
  os_verified_last_line_hash :: "string option"

datatype rescan_reason_kind = WatcherError | IdentityChanged | Truncated | LastLineChanged

definition rescan_reason :: "stored_tail_state \<Rightarrow> observed_file_state \<Rightarrow> bool \<Rightarrow> rescan_reason_kind option" where
  "rescan_reason stored observed watcher_error =
     (if watcher_error then Some WatcherError
      else if st_dev stored \<noteq> os_dev observed \<or> st_inode stored \<noteq> os_inode observed then Some IdentityChanged
      else if os_size observed < st_cursor_offset stored then Some Truncated
      else if st_cursor_offset stored > 0 \<and> st_last_line_hash stored \<noteq> os_verified_last_line_hash observed then Some LastLineChanged
      else None)"

section \<open>The complete lines of some bytes\<close>

lemma read_until_none: "newline \<notin> set bs \<Longrightarrow> read_until_newline bs = (bs, [])"
proof -
  assume "newline \<notin> set bs"
  then have "dropWhile (\<lambda>b. b \<noteq> newline) bs = []" by (metis (mono_tags, lifting) dropWhile_eq_Nil_conv)
  then show ?thesis by (simp only: read_until_newline_def list.case)
qed

lemma read_until_line:
  assumes "newline \<notin> set pre"
  shows "read_until_newline (pre @ newline # rest) = (pre @ [newline], rest)"
proof -
  have "\<forall>b \<in> set pre. b \<noteq> newline" using assms by auto
  then have "takeWhile (\<lambda>b. b \<noteq> newline) (pre @ newline # rest) = pre" "dropWhile (\<lambda>b. b \<noteq> newline) (pre @ newline # rest) = newline # rest"
    by (simp_all add: takeWhile_append2 dropWhile_append2)
  then show ?thesis by (simp add: read_until_newline_def)
qed

lemma read_until_cases:
  obtains (none) "newline \<notin> set bs" "read_until_newline bs = (bs, [])"
  | (line) pre rest where "bs = pre @ newline # rest" "newline \<notin> set pre" "read_until_newline bs = (pre @ [newline], rest)"
  using read_until_none read_until_line split_list_first [of newline bs] by metis

lemma read_until_append: "read_until_newline bs = (line, rest) \<Longrightarrow> line @ rest = bs"
  by (cases bs rule: read_until_cases) auto

lemma read_until_shorter: "read_until_newline bs = (line, rest) \<Longrightarrow> line \<noteq> [] \<Longrightarrow> length rest < length bs"
  by (drule read_until_append) auto

function complete_lines :: "byte list \<Rightarrow> byte list list" where
  "complete_lines bs =
     (let (line, rest) = read_until_newline bs in
      if line \<noteq> [] \<and> last line = newline then line # complete_lines rest else [])"
  by pat_completeness auto
termination complete_lines
  by (relation "measure length") (auto dest: read_until_shorter [OF sym])

declare complete_lines.simps [simp del]

text \<open>The lines with the numbers and offsets they get behind \<open>offset\<close>.\<close>

primrec number_lines :: "(byte list \<Rightarrow> string) \<Rightarrow> int \<Rightarrow> int \<Rightarrow> byte list list \<Rightarrow> complete_native_line list" where
  "number_lines lossy off seq [] = []"
| "number_lines lossy off seq (l # ls) =
     \<lparr>cl_line_seq = seq, cl_start_offset = off, cl_end_offset = off + int (length l), cl_raw = lossy (raw_bytes l)\<rparr>
     # number_lines lossy (off + int (length l)) (seq + 1) ls"

definition unfinished_line :: "byte list \<Rightarrow> byte list" where
  "unfinished_line bs = drop (length (concat (complete_lines bs))) bs"

lemma complete_lines_none: "newline \<notin> set bs \<Longrightarrow> complete_lines bs = []"
proof -
  assume none: "newline \<notin> set bs"
  then have "\<not> (bs \<noteq> [] \<and> last bs = newline)" by (metis last_in_set)
  then show ?thesis using none by (subst complete_lines.simps) (simp add: read_until_none)
qed

lemma complete_lines_line: "newline \<notin> set pre \<Longrightarrow> complete_lines (pre @ newline # rest) = (pre @ [newline]) # complete_lines rest"
  by (subst complete_lines.simps) (simp add: read_until_line)

lemma complete_lines_induct [case_names none line]:
  assumes "\<And>bs. newline \<notin> set bs \<Longrightarrow> P bs" "\<And>pre rest. newline \<notin> set pre \<Longrightarrow> P rest \<Longrightarrow> P (pre @ newline # rest)"
  shows "P bs"
proof (induction bs rule: length_induct)
  case (1 bs)
  then show ?case using assms by (cases bs rule: read_until_cases) auto
qed

lemma complete_lines_prefix: "bs = concat (complete_lines bs) @ unfinished_line bs \<and> newline \<notin> set (unfinished_line bs)"
  by (induction bs rule: complete_lines_induct) (auto simp: unfinished_line_def complete_lines_none complete_lines_line)

lemma complete_lines_ends: "l \<in> set (complete_lines bs) \<Longrightarrow> \<exists>pre. l = pre @ [newline] \<and> newline \<notin> set pre"
  by (induction bs rule: complete_lines_induct) (auto simp: complete_lines_none complete_lines_line)

text \<open>Bytes that are appended never change a line that is complete.\<close>

definition is_line :: "byte list \<Rightarrow> bool" where
  "is_line l \<longleftrightarrow> (\<exists>pre. l = pre @ [newline] \<and> newline \<notin> set pre)"

lemma complete_lines_lines: "\<forall>l \<in> set ls. is_line l \<Longrightarrow> complete_lines (concat ls @ r) = ls @ complete_lines r"
  by (induction ls) (auto simp: is_line_def complete_lines_line)

lemma complete_lines_is_line: "\<forall>l \<in> set (complete_lines bs). is_line l"
  using complete_lines_ends by (auto simp: is_line_def)

lemma unfinished_line_lines: "\<forall>l \<in> set ls. is_line l \<Longrightarrow> unfinished_line (concat ls) = []"
  using complete_lines_lines [of ls "[]"] by (simp add: unfinished_line_def complete_lines_none)

lemma number_lines_append:
  "number_lines lossy off seq (xs @ ys) = number_lines lossy off seq xs @ number_lines lossy (off + int (length (concat xs))) (seq + int (length xs)) ys"
  by (induction xs arbitrary: off seq) (simp_all add: algebra_simps)

lemma number_lines_take: "number_lines lossy off seq (take k ls) = take k (number_lines lossy off seq ls)"
  by (induction ls arbitrary: off seq k) (simp_all add: take_Cons split: nat.split)

lemma number_lines_length: "length (number_lines lossy off seq ls) = length ls"
  by (induction ls arbitrary: off seq) simp_all

section \<open>What a batch holds\<close>

text \<open>The chunk after some lines.\<close>

definition chunk_after :: "(byte list \<Rightarrow> string) \<Rightarrow> (byte list \<Rightarrow> string) \<Rightarrow> byte list list \<Rightarrow> tail_chunk \<Rightarrow> tail_chunk" where
  "chunk_after hash lossy ls t = foldl (\<lambda>t l. tail_push hash lossy l t) t ls"

lemma chunk_after_sel:
  "tc_lines (chunk_after hash lossy ls t) = tc_lines t @ number_lines lossy (tc_cursor_offset t) (tc_next_line_seq t) ls"
  "tc_cursor_offset (chunk_after hash lossy ls t) = tc_cursor_offset t + int (length (concat ls))"
  "tc_next_line_seq (chunk_after hash lossy ls t) = tc_next_line_seq t + int (length ls)"
  "tc_trailing_bytes (chunk_after hash lossy ls t) = tc_trailing_bytes t"
  by (induction ls arbitrary: t) (simp_all add: chunk_after_def tail_push_def Let_def)

lemma chunk_after_last:
  "ls \<noteq> [] \<Longrightarrow> tc_last_line_hash (chunk_after hash lossy ls t) = Some (hash (last ls))"
  "ls \<noteq> [] \<Longrightarrow> tc_last_line_offset (chunk_after hash lossy ls t) = Some (tc_cursor_offset t + int (length (concat (butlast ls))))"
proof -
  have snoc: "chunk_after hash lossy (xs @ [x]) t = tail_push hash lossy x (chunk_after hash lossy xs t)" for xs x
    by (simp add: chunk_after_def)
  show "ls \<noteq> [] \<Longrightarrow> tc_last_line_hash (chunk_after hash lossy ls t) = Some (hash (last ls))"
    "ls \<noteq> [] \<Longrightarrow> tc_last_line_offset (chunk_after hash lossy ls t) = Some (tc_cursor_offset t + int (length (concat (butlast ls))))"
    by (cases ls rule: rev_cases; simp add: snoc tail_push_def Let_def chunk_after_sel)+
qed

lemma read_lines_spec:
  "read_lines hash lossy k bs t =
     (let ls = take k (complete_lines bs); c = chunk_after hash lossy ls t in
      if k \<le> length (complete_lines bs) then (c, drop (length (concat ls)) bs)
      else (if unfinished_line bs = [] then c else c\<lparr>tc_trailing_bytes := length (unfinished_line bs)\<rparr>, []))"
proof (induction k arbitrary: bs t)
  case 0
  then show ?case by (simp add: chunk_after_def)
next
  case (Suc k)
  show ?case
  proof (cases bs rule: read_until_cases)
    case none
    then have "bs = [] \<or> last bs \<noteq> newline" using last_in_set by force
    then show ?thesis using none by (auto simp: complete_lines_none unfinished_line_def chunk_after_def)
  next
    case (line pre rest)
    then show ?thesis
      using Suc.IH [of rest "tail_push hash lossy (pre @ [newline]) t"]
      by (auto simp: complete_lines_line unfinished_line_def chunk_after_def Let_def)
  qed
qed

lemma split_loop_spec:
  "newline \<notin> set line \<Longrightarrow> split_loop hash lossy line bs t =
     (chunk_after hash lossy (complete_lines (line @ bs)) t)\<lparr>tc_trailing_bytes := length (unfinished_line (line @ bs))\<rparr>"
proof (induction bs arbitrary: line t)
  case Nil
  then show ?case by (simp add: complete_lines_none unfinished_line_def chunk_after_def)
next
  case (Cons b bs)
  show ?case
  proof (cases "b = newline")
    case True
    then show ?thesis using Cons.IH [of "[]" "tail_push hash lossy (line @ [b]) t"] Cons.prems
      by (simp add: complete_lines_line unfinished_line_def chunk_after_def)
  next
    case False
    then show ?thesis using Cons.IH [of "line @ [b]" t] Cons.prems by simp
  qed
qed

lemma batch_spec:
  assumes "read_complete_line_batch hash lossy bs base seq k = (t, rest)"
  defines "ls \<equiv> take k (complete_lines bs)"
  shows "tc_lines t = number_lines lossy base seq ls" "tc_cursor_offset t = base + int (length (concat ls))" "tc_next_line_seq t = seq + int (length ls)"
    "ls \<noteq> [] \<Longrightarrow> tc_last_line_hash t = Some (hash (last ls)) \<and> tc_last_line_offset t = Some (base + int (length (concat (butlast ls))))"
    "0 < tc_trailing_bytes t \<Longrightarrow> ls = complete_lines bs"
    "rest = (if k \<le> length (complete_lines bs) then drop (length (concat ls)) bs else [])"
proof -
  let ?c = "chunk_after hash lossy ls (empty_chunk base seq)"
  have t: "t = ?c \<and> tc_trailing_bytes t = 0 \<or> (\<exists>n. t = ?c\<lparr>tc_trailing_bytes := n\<rparr>) \<and> ls = complete_lines bs"
    using assms by (auto simp: read_complete_line_batch_def read_lines_spec Let_def chunk_after_sel empty_chunk_def split: if_splits)
  then show "tc_lines t = number_lines lossy base seq ls" "tc_cursor_offset t = base + int (length (concat ls))" "tc_next_line_seq t = seq + int (length ls)"
    by (auto simp: chunk_after_sel empty_chunk_def)
  show "ls \<noteq> [] \<Longrightarrow> tc_last_line_hash t = Some (hash (last ls)) \<and> tc_last_line_offset t = Some (base + int (length (concat (butlast ls))))"
    using t by (auto simp: chunk_after_last empty_chunk_def)
  show "0 < tc_trailing_bytes t \<Longrightarrow> ls = complete_lines bs" using t by auto
  show "rest = (if k \<le> length (complete_lines bs) then drop (length (concat ls)) bs else [])"
    using assms by (auto simp: read_complete_line_batch_def read_lines_spec Let_def split: if_splits)
qed

section \<open>Properties\<close>

text \<open>
  C24. Reading in batches is splitting at once: a batch holds the first lines the reference splits off, up to
  the limit, with their numbers and offsets, and it is the split of exactly the bytes it consumed; the cursor
  never enters a partial line.  When the batch is not full, it is the split of all the bytes.
\<close>

theorem batch_is_split:
  assumes "read_complete_line_batch hash lossy bytes base seq limit = (chunk, rest)"
  shows "tc_lines chunk = take limit (tc_lines (split_complete_lines hash lossy bytes base seq)) \<and>
    chunk = (split_complete_lines hash lossy (take (nat (tc_cursor_offset chunk - base)) bytes) base seq)\<lparr>tc_trailing_bytes := tc_trailing_bytes chunk\<rparr> \<and>
    (length (tc_lines chunk) < limit \<longrightarrow> chunk = split_complete_lines hash lossy bytes base seq)"
proof -
  let ?ls = "take limit (complete_lines bytes)" and ?t = "empty_chunk base seq"
  let ?c = "chunk_after hash lossy ?ls ?t"
  have chunk: "chunk = (if limit \<le> length (complete_lines bytes) \<or> unfinished_line bytes = [] then ?c else ?c\<lparr>tc_trailing_bytes := length (unfinished_line bytes)\<rparr>)"
    using assms by (auto simp: read_complete_line_batch_def read_lines_spec Let_def split: if_splits)
  have lines: "\<forall>l \<in> set ?ls. is_line l" using complete_lines_is_line [of bytes] set_take_subset [of limit "complete_lines bytes"] by blast
  have len: "nat (tc_cursor_offset chunk - base) = length (concat ?ls)" by (simp add: chunk chunk_after_sel empty_chunk_def)
  have "bytes = concat ?ls @ concat (drop limit (complete_lines bytes)) @ unfinished_line bytes"
    using complete_lines_prefix [of bytes] by (metis append.assoc append_take_drop_id concat_append)
  then have "take (length (concat ?ls)) bytes = concat ?ls" by (metis append_eq_conv_conj)
  then have "split_complete_lines hash lossy (take (nat (tc_cursor_offset chunk - base)) bytes) base seq = ?c\<lparr>tc_trailing_bytes := 0\<rparr>"
    using complete_lines_lines [OF lines, of "[]"] unfinished_line_lines [OF lines]
    by (simp add: len split_complete_lines_def split_loop_spec complete_lines_none)
  moreover have split: "split_complete_lines hash lossy bytes base seq = (chunk_after hash lossy (complete_lines bytes) ?t)\<lparr>tc_trailing_bytes := length (unfinished_line bytes)\<rparr>"
    by (simp add: split_complete_lines_def split_loop_spec)
  moreover have "tc_lines chunk = tc_lines ?c" by (simp add: chunk)
  then have "tc_lines chunk = take limit (tc_lines (split_complete_lines hash lossy bytes base seq))"
    by (simp add: split chunk_after_sel empty_chunk_def number_lines_take)
  moreover have "chunk = split_complete_lines hash lossy bytes base seq" if "length (tc_lines chunk) < limit"
  proof -
    have "length (complete_lines bytes) < limit" using that by (simp add: chunk chunk_after_sel empty_chunk_def number_lines_length split: if_splits)
    moreover have "tc_trailing_bytes (chunk_after hash lossy ls ?t) = 0" for ls by (simp add: chunk_after_sel empty_chunk_def)
    ultimately show ?thesis by (simp add: chunk split)
  qed
  ultimately show ?thesis by (auto simp: chunk)
qed

theorem batch_is_split_witness:
  defines "bytes \<equiv> [104, 105, 13, 10, 10, 120] :: byte list"
  shows "tc_lines (fst (read_complete_line_batch (\<lambda>_. []) (map (char_of \<circ> (unat :: byte \<Rightarrow> nat))) bytes 40 7 1)) =
    take 1 (tc_lines (split_complete_lines (\<lambda>_. []) (map (char_of \<circ> (unat :: byte \<Rightarrow> nat))) bytes 40 7))"
proof -
  obtain chunk rest where r: "read_complete_line_batch (\<lambda>_. []) (map (char_of \<circ> (unat :: byte \<Rightarrow> nat))) bytes 40 7 1 = (chunk, rest)"
    by (rule prod.exhaust)
  then show ?thesis using batch_is_split [OF r, THEN conjunct1] by (simp only: fst_conv)
qed

end
