(* ===== verification/NativeImport.thy ===== *)
theory NativeImport
  imports FeedMachine Projection TailReader CollabModel
begin

text \<open>
  One pass over a transcript file (\<^verbatim>\<open>process_native_path_inner\<close> and its helpers in
  \<^verbatim>\<open>services/claude_transcript_ingest.rs\<close>): the file is registered and linked, its last stored line is
  verified, and its complete lines are adapted and imported batch by batch, into a new generation when the
  file was rewritten.  The bytes, the adapters, the digest, the writer probe and the clock are arguments; a
  failed step keeps what was committed before it.
\<close>

section \<open>State\<close>

datatype import_error = ImportIo | ImportDb db_error

record ('l, 'n, 'x) import_env =
  ie_adapters :: "('l, 'n, 'x) adapters"
  ie_hash :: "byte list \<Rightarrow> string"
  ie_lossy :: "byte list \<Rightarrow> string"
  ie_parse_timestamp :: "string \<Rightarrow> datetime option"
  ie_probe :: "uuid \<Rightarrow> string \<Rightarrow> string option \<Rightarrow> cli_pane_binding option \<Rightarrow> bool \<Rightarrow> probe_report"
  ie_legacy_history :: "string \<times> string \<Rightarrow> bool"
  ie_clock :: "nat \<Rightarrow> datetime"
  ie_fresh :: uuid

text \<open>The fields of the service that a pass changes; \<open>ig_updates\<close> are the invalidated revisions it announces.\<close>

record ingest_state =
  ig_feed :: feed
  ig_revisions :: "uuid \<rightharpoonup> nat"
  ig_updates :: "(uuid \<times> nat) list"
  ig_publisher_notified :: bool
  ig_prune_pending :: bool
  ig_unknown_kinds :: nat
  ig_rescans :: nat
  ig_quarantined :: "(string \<times> string) set"
  ig_codex_seen :: "string \<times> string \<rightharpoonup> int \<times> int option"

record directory_context =
  dc_workspace_id :: uuid
  dc_cwd :: string

text \<open>What opening and reading the file gives.\<close>

record file_input =
  fi_is_file :: bool
  fi_dev :: int
  fi_inode :: int
  fi_size :: int
  fi_mtime_ms :: "int option"
  fi_bytes :: "byte list"

definition revision :: "ingest_state \<Rightarrow> uuid \<Rightarrow> nat" where
  "revision ig sid = (case ig_revisions ig sid of None \<Rightarrow> 0 | Some n \<Rightarrow> n)"

definition invalidate_revision :: "uuid \<Rightarrow> ingest_state \<Rightarrow> ingest_state" where
  "invalidate_revision sid ig =
     (let n = revision ig sid + 1 in
      ig\<lparr>ig_revisions := (ig_revisions ig)(sid \<mapsto> n), ig_updates := ig_updates ig @ [(sid, n)]\<rparr>)"

definition apply_link_mutation :: "claude_session_link_mutation \<Rightarrow> ingest_state \<Rightarrow> ingest_state" where
  "apply_link_mutation m ig =
     (let ig1 = (if lm_republished_outbox m > 0 then ig\<lparr>ig_publisher_notified := True\<rparr> else ig) in
      if \<not> session_changed m then ig1
      else
        (let ig2 = ig1\<lparr>ig_prune_pending := True\<rparr>;
             ig3 = (case lm_previous_session_id m of None \<Rightarrow> ig2 | Some p \<Rightarrow> invalidate_revision p ig2) in
         invalidate_revision (lk_session_id (lm_link m)) ig3))"

definition prune_outbox_if_pending :: "ingest_state \<Rightarrow> ingest_state" where
  "prune_outbox_if_pending ig =
     (if \<not> ig_prune_pending ig then ig
      else ig\<lparr>ig_prune_pending := False, ig_feed := snd (prune_superseded (ig_feed ig))\<rparr>)"

section \<open>The records of a line\<close>

definition unknown_record :: "int \<Rightarrow> string \<Rightarrow> string \<Rightarrow> string option \<Rightarrow> new_cli_native_record" where
  "unknown_record line_seq sid raw ts =
     \<lparr>nn_line_seq = line_seq, nn_claude_session_id = sid, nn_uuid = None, nn_parent_uuid = None, nn_kind = ''unknown'', nn_ts = ts,
      nn_raw = raw, nn_disposition = UnknownDisposition, nn_user_prompt = None, nn_paste_ack_prompt = None, nn_recorded_at = None\<rparr>"

fun claude_disposition :: "native_claude_disposition \<Rightarrow> cli_native_record_disposition" where
  "claude_disposition ClaudeRenderable = Renderable"
| "claude_disposition (ClaudeSkip SkipBookkeeping) = Bookkeeping"
| "claude_disposition (ClaudeSkip SkipSidechain) = Sidechain"
| "claude_disposition ClaudeUnknown = UnknownDisposition"

definition claude_native_record :: "('l, 'n, 'x) import_env \<Rightarrow> string \<Rightarrow> complete_native_line \<Rightarrow> new_cli_native_record \<times> bool" where
  "claude_native_record env sid line =
     (case ad_claude_line (ie_adapters env) (cl_raw line) sid of
        None \<Rightarrow> (unknown_record (cl_line_seq line) sid (cl_raw line) None, True)
      | Some (md, l) \<Rightarrow>
          (let disposition = ad_disposition (ie_adapters env) l in
           (\<lparr>nn_line_seq = cl_line_seq line, nn_claude_session_id = sid, nn_uuid = cm_uuid md, nn_parent_uuid = cm_parent_uuid md,
             nn_kind = cm_kind md, nn_ts = cm_timestamp md, nn_raw = cl_raw line, nn_disposition = claude_disposition disposition,
             nn_user_prompt = ad_plain_user_text (ie_adapters env) l, nn_paste_ack_prompt = None,
             nn_recorded_at = Option.bind (cm_timestamp md) (ie_parse_timestamp env)\<rparr>,
            disposition = ClaudeUnknown)))"

definition codex_native_record ::
    "('l, 'n, 'x) import_env \<Rightarrow> string \<Rightarrow> complete_native_line \<Rightarrow> string \<Rightarrow> bool \<Rightarrow> new_cli_native_record option \<times> bool" where
  "codex_native_record env thread_id line cwd legacy_history =
     (case ad_codex_line (ie_adapters env) (cl_raw line) cwd legacy_history of
        None \<Rightarrow> (Some (unknown_record (cl_line_seq line) thread_id (cl_raw line) None), True)
      | Some l \<Rightarrow>
          (case cx_disposition l of
             CodexBookkeeping \<Rightarrow> (None, False)
           | CodexUnknown \<Rightarrow> (Some (unknown_record (cl_line_seq line) thread_id (cl_raw line) (cx_timestamp l)), True)
           | CodexRenderable \<Rightarrow>
               (Some \<lparr>nn_line_seq = cl_line_seq line, nn_claude_session_id = thread_id, nn_uuid = cx_item_id l, nn_parent_uuid = cx_turn_id l,
                  nn_kind = cx_kind l, nn_ts = cx_timestamp l, nn_raw = cl_raw line, nn_disposition = Renderable, nn_user_prompt = None,
                  nn_paste_ack_prompt = map_option ne_content (find (\<lambda>e. ne_entry_type e = UserMessage) (cx_entries l)),
                  nn_recorded_at = Option.bind (cx_timestamp l) (ie_parse_timestamp env)\<rparr>, False)))"

text \<open>What a pass knows of its file.\<close>

record import_target =
  it_registration :: register_cli_native_file
  it_is_codex :: bool
  it_path :: "string \<times> string"
  it_cwd :: string
  it_session :: "uuid option"
  it_context :: native_import_context

definition line_record :: "('l, 'n, 'x) import_env \<Rightarrow> import_target \<Rightarrow> complete_native_line \<Rightarrow> new_cli_native_record option \<times> bool" where
  "line_record env it line =
     (let sid = rg_claude_session_id (it_registration it) in
      if it_is_codex it then codex_native_record env sid line (it_cwd it) (it_is_codex it \<and> ie_legacy_history env (it_path it))
      else map_prod Some id (claude_native_record env sid line))"

definition line_records :: "('l, 'n, 'x) import_env \<Rightarrow> import_target \<Rightarrow> complete_native_line list \<Rightarrow> new_cli_native_record list" where
  "line_records env it ls = List.map_filter (\<lambda>l. fst (line_record env it l)) ls"

definition unknown_lines :: "('l, 'n, 'x) import_env \<Rightarrow> import_target \<Rightarrow> complete_native_line list \<Rightarrow> nat" where
  "unknown_lines env it ls = length (filter (\<lambda>l. snd (line_record env it l)) ls)"

section \<open>The batches\<close>

definition IMPORT_BATCH_LINE_LIMIT :: nat where
  "IMPORT_BATCH_LINE_LIMIT = 256"

record batch_state =
  bs_cursor_offset :: int
  bs_next_line_seq :: int
  bs_last_line_offset :: int
  bs_last_line_hash :: "string option"
  bs_replace :: bool
  bs_file_id :: uuid
  bs_reader :: "byte list"
  bs_inserted :: nat
  bs_round :: nat

text \<open>A batch is committed to the file, or to its next generation, which invalidates the feed.\<close>

definition commit_batch ::
    "('l, 'n, 'x) import_env \<Rightarrow> import_target \<Rightarrow> batch_state \<Rightarrow> new_cli_native_record list \<Rightarrow> imported_cursor \<Rightarrow> ingest_state
       \<Rightarrow> import_error + (uuid \<times> import_batch_result) \<times> ingest_state" where
  "commit_batch env it b records cur ig =
     (let now = ie_clock env (bs_round b) in
      if bs_replace b then
        (case replace_generation_and_import_batch_with_context (ig_feed ig) (ie_fresh env) now (it_registration it) records cur (it_context it) of
           Inl e \<Rightarrow> Inl (ImportDb e)
         | Inr ((f, imported), s) \<Rightarrow>
             (let ig1 = ig\<lparr>ig_feed := s, ig_prune_pending := True, ig_rescans := ig_rescans ig + 1\<rparr> in
              Inr ((fl_id f, imported), case it_session it of None \<Rightarrow> ig1 | Some sid \<Rightarrow> invalidate_revision sid ig1)))
      else
        (case import_batch_with_context (ig_feed ig) now (bs_file_id b) records cur (it_context it) of
           Inl e \<Rightarrow> Inl (ImportDb e)
         | Inr (imported, s) \<Rightarrow> Inr ((bs_file_id b, imported), ig\<lparr>ig_feed := s\<rparr>)))"

definition batch_cursor :: "import_target \<Rightarrow> batch_state \<Rightarrow> tail_chunk \<Rightarrow> imported_cursor" where
  "batch_cursor it b t =
     \<lparr>ic_cursor_offset = tc_cursor_offset t, ic_next_line_seq = tc_next_line_seq t,
      ic_last_line_offset = (case tc_last_line_offset t of None \<Rightarrow> bs_last_line_offset b | Some off \<Rightarrow> off),
      ic_last_line_hash = (case tc_last_line_hash t of None \<Rightarrow> bs_last_line_hash b | Some h \<Rightarrow> Some h),
      ic_observed_size = rg_observed_size (it_registration it), ic_observed_mtime_ms = rg_observed_mtime_ms (it_registration it)\<rparr>"

definition next_batch :: "batch_state \<Rightarrow> imported_cursor \<Rightarrow> uuid \<Rightarrow> nat \<Rightarrow> byte list \<Rightarrow> batch_state" where
  "next_batch b cur file_id inserted rest =
     \<lparr>bs_cursor_offset = ic_cursor_offset cur, bs_next_line_seq = ic_next_line_seq cur,
      bs_last_line_offset = ic_last_line_offset cur, bs_last_line_hash = ic_last_line_hash cur,
      bs_replace = False, bs_file_id = file_id, bs_reader = rest, bs_inserted = bs_inserted b + inserted, bs_round = bs_round b + 1\<rparr>"

lemma number_lines_Nil_iff: "number_lines lossy off seq ls = [] \<longleftrightarrow> ls = []"
  by (cases ls) simp_all

lemma batch_shorter:
  assumes "read_complete_line_batch hash lossy bs base seq k = (t, rest)" "tc_lines t \<noteq> []"
  shows "length rest < length bs"
proof -
  let ?ls = "take k (complete_lines bs)"
  have ls: "?ls \<noteq> []" using assms(2) by (simp add: batch_spec [OF assms(1)] number_lines_Nil_iff del: take_eq_Nil)
  then have "hd ?ls \<in> set (complete_lines bs)" using hd_in_set [OF ls] set_take_subset by fastforce
  then have "hd ?ls \<noteq> []" using complete_lines_ends by fastforce
  then have "0 < length (concat ?ls)" using ls by (cases ?ls) auto
  moreover have "bs \<noteq> []" using ls complete_lines_none [of "[]"] by auto
  ultimately show ?thesis using batch_spec(6) [OF assms(1)] by auto
qed

function import_batches :: "('l, 'n, 'x) import_env \<Rightarrow> import_target \<Rightarrow> batch_state \<Rightarrow> ingest_state \<Rightarrow> ingest_state \<times> (import_error + nat)" where
  "import_batches env it b ig =
     (let (t, rest) = read_complete_line_batch (ie_hash env) (ie_lossy env) (bs_reader b) (bs_cursor_offset b) (bs_next_line_seq b) IMPORT_BATCH_LINE_LIMIT in
      if tc_lines t = [] then (ig, Inr (bs_inserted b))
      else
        (let ig1 = ig\<lparr>ig_unknown_kinds := ig_unknown_kinds ig + unknown_lines env it (tc_lines t)\<rparr>;
             cur = batch_cursor it b t in
         case commit_batch env it b (line_records env it (tc_lines t)) cur ig1 of
           Inl e \<Rightarrow> (ig1, Inl e)
         | Inr ((file_id, imported), ig2) \<Rightarrow>
             (let ig3 = (if ib_appended_outbox imported > 0 then ig2\<lparr>ig_publisher_notified := True\<rparr> else ig2);
                  b' = next_batch b cur file_id (ib_inserted_records imported) rest in
              if tc_trailing_bytes t > 0 then (ig3, Inr (bs_inserted b')) else import_batches env it b' ig3)))"
  by pat_completeness auto
termination import_batches
  by (relation "measure (\<lambda>(_, _, b, _). length (bs_reader b))") (auto simp: next_batch_def dest: batch_shorter [OF sym])

declare import_batches.simps [simp del]

section \<open>The pass\<close>

definition verify_last_line_hash :: "(byte list \<Rightarrow> string) \<Rightarrow> byte list \<Rightarrow> cli_native_file \<Rightarrow> import_error + string option" where
  "verify_last_line_hash hash bytes f =
     (if fl_cursor_offset f \<le> 0 \<or> fl_last_line_hash f = None then Inr None
      else
        (let n = nat (fl_cursor_offset f - fl_last_line_offset f); read = take n (drop (nat (fl_last_line_offset f)) bytes) in
         if length read < n then Inl ImportIo else Inr (Some (hash read))))"

definition stored_state :: "cli_native_file \<Rightarrow> stored_tail_state" where
  "stored_state f =
     \<lparr>st_dev = fl_dev f, st_inode = fl_inode f, st_cursor_offset = fl_cursor_offset f, st_last_line_hash = fl_last_line_hash f\<rparr>"

definition observed_state :: "file_input \<Rightarrow> string option \<Rightarrow> observed_file_state" where
  "observed_state fi verified =
     \<lparr>os_dev = fi_dev fi, os_inode = fi_inode fi, os_size = fi_size fi, os_verified_last_line_hash = verified\<rparr>"

definition start_batch :: "cli_native_file \<Rightarrow> file_input \<Rightarrow> bool \<Rightarrow> batch_state" where
  "start_batch f fi replacing =
     (if replacing then
        \<lparr>bs_cursor_offset = 0, bs_next_line_seq = 0, bs_last_line_offset = 0, bs_last_line_hash = None, bs_replace = True,
         bs_file_id = fl_id f, bs_reader = fi_bytes fi, bs_inserted = 0, bs_round = 1\<rparr>
      else
        \<lparr>bs_cursor_offset = fl_cursor_offset f, bs_next_line_seq = fl_next_line_seq f, bs_last_line_offset = fl_last_line_offset f,
         bs_last_line_hash = fl_last_line_hash f, bs_replace = False, bs_file_id = fl_id f,
         bs_reader = drop (nat (fl_cursor_offset f)) (fi_bytes fi), bs_inserted = 0, bs_round = 1\<rparr>)"

definition pass_reason :: "(byte list \<Rightarrow> string) \<Rightarrow> file_input \<Rightarrow> bool \<Rightarrow> cli_native_file \<Rightarrow> import_error + rescan_reason_kind option" where
  "pass_reason hash fi force_rescan f =
     (case (if fi_size fi \<ge> fl_cursor_offset f then verify_last_line_hash hash (fi_bytes fi) f else Inr None) of
        Inl e \<Rightarrow> Inl e
      | Inr verified \<Rightarrow> Inr (rescan_reason (stored_state f) (observed_state fi verified) force_rescan))"

definition import_pass ::
    "('l, 'n, 'x) import_env \<Rightarrow> import_target \<Rightarrow> file_input \<Rightarrow> bool \<Rightarrow> cli_native_file \<Rightarrow> ingest_state \<Rightarrow> ingest_state \<times> (import_error + nat)" where
  "import_pass env it fi force_rescan f ig =
     (case pass_reason (ie_hash env) fi force_rescan f of
        Inl e \<Rightarrow> (ig, Inl e)
      | Inr reason \<Rightarrow>
          (let (ig1, result) = import_batches env it (start_batch f fi (reason \<noteq> None)) ig in
           case result of
             Inl e \<Rightarrow> (ig1, Inl e)
           | Inr inserted \<Rightarrow>
               (if it_is_codex it then ig1\<lparr>ig_codex_seen := (ig_codex_seen ig1)(it_path it \<mapsto> (fi_size fi, fi_mtime_ms fi))\<rparr> else ig1,
                Inr inserted)))"

section \<open>Linking\<close>

text \<open>The part of a file name before its last dot, when that dot is not its first character.\<close>

definition file_stem :: "string \<Rightarrow> string option" where
  "file_stem name =
     (if name = [] \<or> name = ''..'' then None
      else
        (let rest = dropWhile (\<lambda>c. c \<noteq> CHR ''.'') (rev name) in
         Some (if length rest \<le> 1 then name else rev (tl rest))))"

definition try_auto_bind_cli_fresh ::
    "('l, 'n, 'x) import_env \<Rightarrow> feed \<Rightarrow> string \<Rightarrow> directory_context \<Rightarrow> db_error + claude_session_link_mutation option \<times> feed" where
  "try_auto_bind_cli_fresh env s csid dc =
     (case find_active_for_workspace (nf_bindings s) (dc_workspace_id dc) of
        None \<Rightarrow> Inr (None, s)
      | Some b \<Rightarrow>
          if pb_bound_via b \<noteq> CliFresh \<or> (case pb_claude_session_id b of None \<Rightarrow> False | Some sid \<Rightarrow> sid \<noteq> csid) then Inr (None, s)
          else
            (let r = ie_probe env (dc_workspace_id dc) (dc_cwd dc) None (Some b) True in
             if pr_probe_failed r \<or> \<not> pr_pane_session_exists r \<or> pr_agent_running r \<noteq> Some True \<or> pr_agent_program r \<noteq> Some ''claude''
                \<or> pr_sid_evidence r \<noteq> NoResumeArg \<or> pr_only_active_claude_in_cwd r \<noteq> Some True then Inr (None, s)
             else assign_discovered_session s (ie_fresh env) (ie_clock env 0) (pb_id b) (pb_claude_session_id b) csid (pb_session_id b)
                    (pb_workspace_id b) (dc_cwd dc)))"

definition resolve_link ::
    "('l, 'n, 'x) import_env \<Rightarrow> feed \<Rightarrow> bool \<Rightarrow> string \<Rightarrow> directory_context \<Rightarrow> db_error + claude_session_link_mutation option \<times> feed" where
  "resolve_link env s is_codex csid dc =
     (if is_codex then
        Inr (map_option (\<lambda>link. \<lparr>lm_link = link, lm_previous_session_id = Some (lk_session_id link), lm_republished_outbox = 0\<rparr>)
               (find_link (nf_links s) csid), s)
      else
        bind_err (resolve_or_bind_executor s csid (dc_cwd dc) (ie_clock env 0)) (\<lambda>(link, s1).
          if link = None then try_auto_bind_cli_fresh env s1 csid dc else Inr (link, s1)))"

definition import_context_of ::
    "('l, 'n, 'x) import_env \<Rightarrow> bool \<Rightarrow> string \<Rightarrow> directory_context \<Rightarrow> claude_session_link_mutation option \<Rightarrow> native_import_context" where
  "import_context_of env is_codex csid dc link =
     (case link of
        None \<Rightarrow> \<lparr>nc_app_pane_absent = False, nc_foreign_since = None\<rparr>
      | Some m \<Rightarrow>
          (let r = ie_probe env (dc_workspace_id dc) (dc_cwd dc) (Some csid) None False in
           \<lparr>nc_app_pane_absent = (\<not> (pr_probe_failed r \<or> pr_pane_session_exists r \<and> pr_agent_running r = Some True)),
            nc_foreign_since = (if is_codex then Some (lk_created_at (lm_link m)) else None)\<rparr>))"

definition process_native_path_inner ::
    "('l, 'n, 'x) import_env \<Rightarrow> string \<times> string \<Rightarrow> directory_context \<Rightarrow> file_input option \<Rightarrow> uuid \<Rightarrow> bool \<Rightarrow> ingest_state \<Rightarrow> ingest_state \<times> (import_error + nat)" where
  "process_native_path_inner env path dc input fresh_file force_rescan ig =
     (let (dir, name) = path; thread = rollout_thread_id (ad_is_uuid (ie_adapters env)) name in
      case (if thread \<noteq> None then thread else file_stem name) of
        None \<Rightarrow> (ig, Inr 0)
      | Some csid \<Rightarrow>
          (let is_codex = (thread \<noteq> None);
               ig1 = (if is_codex then ig\<lparr>ig_codex_seen := (ig_codex_seen ig)(path := None)\<rparr> else ig) in
           case input of
             None \<Rightarrow> (ig1, Inl ImportIo)
           | Some fi \<Rightarrow>
               if \<not> fi_is_file fi then (ig1, Inr 0)
               else
                 (let data = \<lparr>rg_claude_session_id = csid, rg_dir_path = dir, rg_file_name = name,
                              rg_discovered_workspace_id = Some (dc_workspace_id dc), rg_dev = fi_dev fi, rg_inode = fi_inode fi,
                              rg_observed_size = fi_size fi, rg_observed_mtime_ms = fi_mtime_ms fi\<rparr> in
                  case register_file (ig_feed ig1) fresh_file (ie_clock env 0) data of
                    Inl e \<Rightarrow> (ig1, Inl (ImportDb e))
                  | Inr (f, s1) \<Rightarrow>
                      (case resolve_link env s1 is_codex csid dc of
                         Inl e \<Rightarrow> (ig1\<lparr>ig_feed := s1\<rparr>, Inl (ImportDb e))
                       | Inr (link, s2) \<Rightarrow>
                           (let ig2 = ig1\<lparr>ig_feed := s2\<rparr>;
                                ig3 = (case link of
                                         Some m \<Rightarrow> (apply_link_mutation m ig2)\<lparr>ig_quarantined := ig_quarantined ig2 - {path}\<rparr>
                                       | None \<Rightarrow> ig2\<lparr>ig_quarantined := insert path (ig_quarantined ig2)\<rparr>);
                                it = \<lparr>it_registration = data, it_is_codex = is_codex, it_path = path, it_cwd = dc_cwd dc,
                                      it_session = map_option (lk_session_id \<circ> lm_link) link,
                                      it_context = import_context_of env is_codex csid dc link\<rparr> in
                            import_pass env it fi force_rescan f ig3)))))"

end
