(* ===== verification/FeedSafety.thy ===== *)
theory FeedSafety
  imports FeedMachine "HOL-Library.Multiset"
begin

text \<open>The properties of the transcript feed: what a session's feed shows, and that importing, replacing and pruning keep it so.\<close>

section \<open>Views that do not change\<close>

lemma product_filter: "List.product xs (filter p ys) = filter (\<lambda>(x, y). p y) (List.product xs ys)"
proof (induction xs)
  case (Cons x xs)
  have "map (Pair x) (filter p ys) = filter (\<lambda>(x, y). p y) (map (Pair x) ys)" by (induction ys) auto
  with Cons show ?case by simp
qed simp

lemma projectedI:
  "r \<in> set (nf_records s) \<Longrightarrow> f \<in> set (nf_files s) \<Longrightarrow> l \<in> set (nf_links s) \<Longrightarrow> fl_id f = nr_file_id r
    \<Longrightarrow> lk_claude_session_id l = nr_claude_session_id r \<Longrightarrow> ob_file_id ob = nr_file_id r \<Longrightarrow> ob_line_seq ob = nr_line_seq r
    \<Longrightarrow> ob_session_id ob = lk_session_id l \<Longrightarrow> is_latest_generation (nf_files s) f \<Longrightarrow> projected s ob"
  by (auto simp: projected_def)

lemma prune_superseded_view: "list_for_session_after (snd (prune_superseded s)) sid q = list_for_session_after s sid q"
proof -
  have "joined (s\<lparr>nf_outbox := filter (projected s) (nf_outbox s)\<rparr>) sid q = joined s sid q"
    by (auto simp: joined_def product_filter intro!: filter_cong projectedI)
  then show ?thesis by (simp add: list_after_joined prune_superseded_def)
qed

lemma list_after_eqI:
  assumes "feed_inv s" and "feed_inv t" and "set (joined s sid q) = set (joined t sid q)"
  shows "list_for_session_after s sid q = list_for_session_after t sid q"
proof (rule map_sorted_distinct_set_unique [of sn_seq])
  show eq: "set (list_for_session_after s sid q) = set (list_for_session_after t sid q)"
    using assms(3) by (simp add: list_after_joined)
  show "inj_on sn_seq (set (list_for_session_after s sid q) \<union> set (list_for_session_after t sid q))"
    using list_after_rows(2) [OF assms(2), of sid q] by (simp add: eq distinct_map)
qed (use list_after_rows(1,2) assms in auto)

lemma delete_unlinked_view:
  assumes inv: "feed_inv s" and unlinked: "\<And>f. f \<in> set (nf_files s) \<Longrightarrow> p f \<Longrightarrow> \<not> linked s (fl_claude_session_id f)"
  shows "list_for_session_after (delete_files p s) sid q = list_for_session_after s sid q"
proof (rule list_after_eqI [OF delete_files_inv [OF inv] inv])
  have kept: "\<not> p f \<and> nr_file_id r \<notin> fl_id ` set (filter p (nf_files s))"
    if r: "r \<in> set (nf_records s)" "f \<in> set (nf_files s)" "fl_id f = nr_file_id r" "l \<in> set (nf_links s)"
      "lk_claude_session_id l = nr_claude_session_id r" for r f l
  proof -
    have files: "files_inv s" using inv by (simp add: feed_inv_def tables_ok_def)
    obtain g where "g \<in> set (nf_files s)" "fl_id g = nr_file_id r" "fl_claude_session_id g = nr_claude_session_id r"
      using inv r(1) by (auto simp: feed_inv_def tables_ok_def records_inv_def)
    with r files_by_id [OF files, of f g] have "fl_claude_session_id f = nr_claude_session_id r" by simp
    with r unlinked [of f] have "\<not> p f" by (auto simp: linked_def)
    moreover have "h = f" if "h \<in> set (nf_files s)" "fl_id h = nr_file_id r" for h
      using files_by_id [OF files that(1) \<open>f \<in> set (nf_files s)\<close>] that \<open>fl_id f = nr_file_id r\<close> by simp
    ultimately show ?thesis by auto
  qed
  have latest: "is_latest_generation (nf_files s) f" if "f \<in> set (nf_files s)" for f
    using inv that by (simp add: latest_of_path feed_inv_def tables_ok_def)
  have latest': "is_latest_generation (nf_files (delete_files p s)) f" if "f \<in> set (nf_files (delete_files p s))" for f
    using delete_files_inv [OF inv] that by (simp add: latest_of_path feed_inv_def tables_ok_def)
  show "set (joined (delete_files p s) sid q) = set (joined s sid q)"
  proof (intro set_eqI iffI; clarsimp simp: joined_def)
    fix r f l ob
    assume "r \<in> set (nf_records (delete_files p s))" "f \<in> set (nf_files (delete_files p s))"
      "l \<in> set (nf_links (delete_files p s))" "ob \<in> set (nf_outbox (delete_files p s))"
    then show "r \<in> set (nf_records s) \<and> f \<in> set (nf_files s) \<and> l \<in> set (nf_links s) \<and> ob \<in> set (nf_outbox s)
        \<and> is_latest_generation (nf_files s) f"
      using latest by (auto simp: delete_files_sel)
  next
    fix r f l ob
    assume mem: "r \<in> set (nf_records s)" "f \<in> set (nf_files s)" "l \<in> set (nf_links s)" "ob \<in> set (nf_outbox s)"
      and eq: "fl_id f = nr_file_id r" "lk_claude_session_id l = nr_claude_session_id r" "ob_file_id ob = nr_file_id r"
    with kept [OF mem(1,2) eq(1) mem(3) eq(2)] show "r \<in> set (nf_records (delete_files p s)) \<and> f \<in> set (nf_files (delete_files p s))
        \<and> l \<in> set (nf_links (delete_files p s)) \<and> ob \<in> set (nf_outbox (delete_files p s))
        \<and> is_latest_generation (nf_files (delete_files p s)) f"
      using latest' [of f] by (simp add: delete_files_sel)
  qed
qed

lemma prune_fold_view:
  assumes "feed_inv s" and "\<And>i f. i \<in> set is \<Longrightarrow> f \<in> set (nf_files s) \<Longrightarrow> fl_id f = i \<Longrightarrow> \<not> linked s (fl_claude_session_id f)"
  shows "list_for_session_after (foldl (\<lambda>u i. prune_one i u) s is) sid q = list_for_session_after s sid q"
  using assms
proof (induction "is" arbitrary: s)
  case (Cons i "is")
  let ?t = "prune_one i s"
  have t: "?t = delete_files (\<lambda>f. fl_id f = i) s" using Cons.prems(1) by (rule prune_one_eq)
  have "list_for_session_after (foldl (\<lambda>u i. prune_one i u) ?t is) sid q = list_for_session_after ?t sid q"
  proof (rule Cons.IH)
    show "feed_inv ?t" using Cons.prems(1) by (rule prune_one_inv)
    fix j f assume "j \<in> set is" "f \<in> set (nf_files ?t)" "fl_id f = j"
    with Cons.prems(2) [of j f] show "\<not> linked ?t (fl_claude_session_id f)" by (auto simp: t delete_files_sel linked_def)
  qed
  also have "\<dots> = list_for_session_after s sid q"
    unfolding t by (rule delete_unlinked_view [OF Cons.prems(1)]) (use Cons.prems(2) in auto)
  finally show ?case by simp
qed simp

lemma prune_unreachable_view:
  assumes inv: "feed_inv s"
  shows "list_for_session_after (snd (prune_unreachable s now days lim)) sid q = list_for_session_after s sid q"
proof -
  have "\<not> linked s (fl_claude_session_id f)"
    if i: "i \<in> set (prune_candidates s cutoff lim)" "f \<in> set (nf_files s)" "fl_id f = i" for i f cutoff
  proof -
    obtain g where "g \<in> set (nf_files s)" "unreachable s cutoff g" "fl_id g = i"
      using i(1) by (auto simp: prune_candidates_def dest!: in_set_takeD)
    with i inv files_by_id [of s f g] show ?thesis by (auto simp: feed_inv_def tables_ok_def unreachable_def)
  qed
  with prune_fold_view [OF inv] show ?thesis by (simp add: prune_unreachable_def Let_def)
qed

section \<open>Replaying a batch\<close>

lemma fresh_records_lines: "nn_line_seq ` set rs \<subseteq> seen \<union> nn_line_seq ` set (fresh_records seen rs)"
proof (induction rs arbitrary: seen)
  case (Cons r rs)
  show ?case
  proof (cases "nn_line_seq r \<in> seen")
    case False
    with Cons.IH [of "insert (nn_line_seq r) seen"] show ?thesis by auto
  qed (use Cons.IH [of seen] in auto)
qed simp

lemma fresh_records_subset: "set (fresh_records seen rs) \<subseteq> set rs"
proof (induction rs arbitrary: seen)
  case (Cons r rs)
  from Cons.IH [of seen] Cons.IH [of "insert (nn_line_seq r) seen"] show ?case by auto
qed simp

lemma fresh_records_none: "nn_line_seq ` set rs \<subseteq> seen \<Longrightarrow> fresh_records seen rs = []"
  by (induction rs) auto

lemma stores_lines:
  assumes "list_all2 (stores i) new rs"
  shows "nr_line_seq ` set new = nn_line_seq ` set rs" and "\<forall>r\<in>set new. nr_file_id r = i"
proof -
  have one: "stores i e r \<Longrightarrow> nr_line_seq e = nn_line_seq r \<and> nr_file_id e = i" for e r
    unfolding stores_def by (metis cli_native_record.select_convs(1,2) new_record_def)
  show "nr_line_seq ` set new = nn_line_seq ` set rs" "\<forall>r\<in>set new. nr_file_id r = i"
    using assms by (induction rule: list_all2_induct) (auto dest: one)
qed

lemma stores_csid:
  assumes "list_all2 (stores i) new (fresh_records seen rs)" and "\<forall>r\<in>set rs. nn_claude_session_id r = csid"
  shows "\<forall>r\<in>set new. nr_claude_session_id r = csid"
proof -
  have one: "stores i e r \<Longrightarrow> nr_claude_session_id e = nn_claude_session_id r" for e r
    unfolding stores_def by (metis cli_native_record.select_convs(3) new_record_def)
  have "list_all2 (\<lambda>e r. nr_claude_session_id e = nn_claude_session_id r) new (fresh_records seen rs)"
    using assms(1) by (rule list_all2_mono) (rule one)
  then show ?thesis using fresh_records_subset [of seen rs] assms(2) by (fastforce simp: list_all2_conv_all_nth in_set_conv_nth)
qed

lemma fresh_records_replay:
  assumes "nf_records t = nf_records s @ new" and "list_all2 (stores i) new (fresh_records (stored_lines s i) rs)"
  shows "fresh_records (stored_lines t i) rs = []"
proof (rule fresh_records_none)
  have "stored_lines t i = stored_lines s i \<union> nr_line_seq ` set new"
    using assms(1) stores_lines(2) [OF assms(2)] by (auto simp: stored_lines_def)
  then show "nn_line_seq ` set rs \<subseteq> stored_lines t i"
    using fresh_records_lines [of rs "stored_lines s i"] stores_lines(1) [OF assms(2)] by simp
qed

lemma owner_owned:
  assumes inv: "feed_inv t" and f: "f \<in> set (nf_files t)" and fs: "file_session t (fl_id f) = Some sid"
    and r: "nr_claude_session_id r = fl_claude_session_id f"
  shows "owned t sid r"
  using assms file_session_eq [of t f]
  by (cases "find_link (nf_links t) (fl_claude_session_id f)")
    (auto simp: feed_inv_def tables_ok_def owned_def find_link_def dest!: select_one_Some)

section \<open>A sample transcript\<close>

definition sample_file :: cli_native_file where
  "sample_file = \<lparr>fl_id = 7, fl_claude_session_id = ''c'', fl_dir_path = ''d'', fl_file_name = ''c.jsonl'',
     fl_discovered_workspace_id = Some 3, fl_dev = 1, fl_inode = 1, fl_generation = 0, fl_cursor_offset = 0, fl_next_line_seq = 0,
     fl_last_line_offset = 0, fl_last_line_hash = None, fl_observed_size = 0, fl_observed_mtime_ms = None,
     fl_last_import_at = None, fl_created_at = 0, fl_updated_at = 0\<rparr>"

definition sample_message :: session_queued_message where
  "sample_message = \<lparr>qm_id = 9, qm_session_id = 5, qm_prompt = ''hi'', qm_executor_config = None, qm_source = Ui, qm_state = Pasted,
     qm_failure_reason = None, qm_claude_session_id = None, qm_executor_claim_owner = None, qm_paste_claim_owner = None,
     qm_dispatch_context = None, qm_pasted_at = Some 100, qm_acked_at = None, qm_created_at = 90, qm_updated_at = 100\<rparr>"

definition sample_feed :: feed where
  "sample_feed = \<lparr>nf_files = [sample_file], nf_records = [], nf_outbox = [], nf_watermarks = Map.empty,
     nf_links = [\<lparr>lk_claude_session_id = ''c'', lk_session_id = 5, lk_workspace_id = 3, lk_cwd = ''/w'', lk_bound_via = ViaCliFresh,
       lk_created_at = 0, lk_foreign_writer_seen_at = None\<rparr>],
     nf_sessions = [\<lparr>ss_id = 5, ss_workspace_id = 3, ss_executor = None, ss_agent_working_dir = None, ss_created_at = 0,
       ss_pending_cli_prompt = None\<rparr>],
     nf_workspaces = [3], nf_turns = [], nf_executions = [], nf_native_links = [], nf_queue = [sample_message], nf_bindings = []\<rparr>"

definition sample_line :: "int \<Rightarrow> string \<Rightarrow> new_cli_native_record" where
  "sample_line n p = \<lparr>nn_line_seq = n, nn_claude_session_id = ''c'', nn_uuid = None, nn_parent_uuid = None, nn_kind = ''user'', nn_ts = None,
     nn_raw = p, nn_disposition = Renderable, nn_user_prompt = Some p, nn_paste_ack_prompt = None, nn_recorded_at = Some 101\<rparr>"

definition sample_cursor :: imported_cursor where
  "sample_cursor = \<lparr>ic_cursor_offset = 20, ic_next_line_seq = 2, ic_last_line_offset = 10, ic_last_line_hash = None,
     ic_observed_size = 20, ic_observed_mtime_ms = None\<rparr>"

definition sample_context :: native_import_context where
  "sample_context = \<lparr>nc_app_pane_absent = False, nc_foreign_since = None\<rparr>"

definition sample_imported :: feed where
  "sample_imported =
     (case import_batch_with_context sample_feed 102 7 [sample_line 0 ''hi'', sample_line 1 ''hello''] sample_cursor sample_context of
        Inl _ \<Rightarrow> sample_feed | Inr (_, t) \<Rightarrow> t)"

definition sample_registration :: register_cli_native_file where
  "sample_registration = \<lparr>rg_claude_session_id = ''c'', rg_dir_path = ''d'', rg_file_name = ''c.jsonl'', rg_discovered_workspace_id = Some 3,
     rg_dev = 1, rg_inode = 2, rg_observed_size = 10, rg_observed_mtime_ms = None\<rparr>"

lemma sample_feed_inv: "feed_inv sample_feed"
  by (simp add: sample_feed_def sample_message_def feed_inv_defs queue_inv_def active_rows_def active_state_def row_ok.simps)

lemma sample_import:
  "\<exists>f rs cur cx now res. f \<in> set (nf_files sample_feed) \<and> (\<forall>r \<in> set rs. nn_claude_session_id r = fl_claude_session_id f) \<and>
     import_batch_with_context sample_feed now (fl_id f) rs cur cx = Inr (res, sample_imported)"
proof -
  let ?rs = "[sample_line 0 ''hi'', sample_line 1 ''hello'']"
  have f: "sample_file \<in> set (nf_files sample_feed)" by (simp add: sample_feed_def)
  have csid: "\<forall>r\<in>set ?rs. nn_claude_session_id r = fl_claude_session_id sample_file" by (simp add: sample_line_def sample_file_def)
  obtain res t where run: "import_batch_with_context sample_feed 102 (fl_id sample_file) ?rs sample_cursor sample_context = Inr (res, t)"
    using import_batch_spec [OF sample_feed_inv f csid] unfolding import_batch_with_context_def by blast
  have "t = sample_imported" using run by (simp add: sample_imported_def sample_file_def)
  with f csid run show ?thesis by blast
qed

lemma sample_imported_reach: "feed_step\<^sup>*\<^sup>* sample_feed sample_imported"
  using sample_import step_import by blast

lemma sample_records:
  "map (\<lambda>r. (nr_line_seq r, nr_bound_queued_message_id r)) (nf_records sample_imported) = [(0, Some 9), (1, None)]"
  by code_simp

section \<open>The properties\<close>

text \<open>
  C12.  A session's feed shows every record of the transcripts linked to it exactly once, in the
  order of sequence numbers that no two rows share; and no other record.
\<close>

theorem feed_exact:
  assumes "feed_step\<^sup>*\<^sup>* s0 s" and "feed_inv s0"
  shows "mset (map sn_record (list_for_session s sid)) = mset (filter (owned s sid) (nf_records s))
    \<and> sorted (map sn_seq (list_for_session s sid)) \<and> distinct (map sn_seq (list_for_session s sid))"
proof -
  have inv: "feed_inv s" by (rule feed_machine.reach_inv [OF assms])
  note rows = list_after_rows [OF inv, of sid "- (2 ^ 63)"]
  have placed: "\<exists>n > - (2 ^ 63). placed s sid n r" if r: "r \<in> set (nf_records s)" "owned s sid r" for r
  proof -
    obtain l where "l \<in> set (nf_links s)" "lk_claude_session_id l = nr_claude_session_id r" "lk_session_id l = sid"
      using r(2) by (auto simp: owned_def)
    with inv r(1) obtain ob where "ob \<in> set (nf_outbox s)" "outbox_key ob = (sid, record_key r)"
      by (fastforce simp: feed_inv_def feeds_complete_def)
    moreover from this inv have "0 < ob_seq ob" by (auto simp: feed_inv_def tables_ok_def outbox_inv_def)
    ultimately show ?thesis by (intro exI [of _ "ob_seq ob"]) (auto simp: placed_def outbox_key_def)
  qed
  have "sn_record ` set (list_for_session s sid) = snd ` (\<lambda>v. (sn_seq v, sn_record v)) ` set (list_for_session s sid)"
    by (simp add: image_image)
  also have "\<dots> = {r \<in> set (nf_records s). owned s sid r}"
    unfolding list_for_session_def rows(4) using placed by force
  finally have "set (map sn_record (list_for_session s sid)) = set (filter (owned s sid) (nf_records s))" by auto
  moreover have "distinct (filter (owned s sid) (nf_records s))"
    using inv by (auto simp: feed_inv_def tables_ok_def records_inv_def distinct_map)
  moreover have "distinct (map sn_record (list_for_session s sid))" using rows(3) by (simp add: list_for_session_def)
  ultimately have "mset (map sn_record (list_for_session s sid)) = mset (filter (owned s sid) (nf_records s))"
    by (metis set_eq_iff_mset_eq_distinct)
  with rows(1,2) show ?thesis by (simp add: list_for_session_def)
qed

theorem feed_exact_witness:
  "mset (map sn_record (list_for_session sample_imported 5)) = mset (filter (owned sample_imported 5) (nf_records sample_imported))
    \<and> sorted (map sn_seq (list_for_session sample_imported 5)) \<and> distinct (map sn_seq (list_for_session sample_imported 5))"
  by (rule feed_exact [OF sample_imported_reach sample_feed_inv])

text \<open>
  C14.  Importing a batch of a registered transcript never fails.  It stores exactly the records
  whose line is new, as they are; a reader of the session's feed that had read everything sees
  exactly these, in order and consecutively numbered; and importing the batch again stores and
  announces nothing.
\<close>

theorem import_exact:
  assumes "feed_step\<^sup>*\<^sup>* s0 s" and "feed_inv s0" and f: "f \<in> set (nf_files s)"
    and csid: "list_all (\<lambda>r. nn_claude_session_id r = fl_claude_session_id f) rs"
  shows "\<exists>res t new. import_batch_with_context s now (fl_id f) rs cursor cx = Inr (res, t)
    \<and> nf_records t = nf_records s @ new \<and> ib_inserted_records res = length new
    \<and> list_all2 (stores (fl_id f)) new (fresh_records (stored_lines s (fl_id f)) rs)
    \<and> (\<forall>sid. file_session s (fl_id f) = Some sid \<longrightarrow>
         map (\<lambda>v. (sn_seq v, sn_record v)) (list_for_session_after t sid (latest_seq s sid)) = numbered (latest_seq s sid + 1) new)
    \<and> (\<exists>res' u. import_batch_with_context t now' (fl_id f) rs cursor' cx' = Inr (res', u)
         \<and> ib_inserted_records res' = 0 \<and> u = t\<lparr>nf_files := nf_files u\<rparr>)"
proof -
  have inv: "feed_inv s" by (rule feed_machine.reach_inv [OF assms(1,2)])
  have csid': "\<forall>r\<in>set rs. nn_claude_session_id r = fl_claude_session_id f" using csid by (simp add: list_all_iff)
  let ?session = "file_session s (fl_id f)" and ?f = "advance_cursor cursor now f"
  obtain res t new where run: "import_batch_in_transaction s now (fl_id f) rs cursor None cx = Inr (res, t)" "feed_inv t"
      "nf_records t = nf_records s @ new" "list_all2 (stores (fl_id f)) new (fresh_records (stored_lines s (fl_id f)) rs)"
      "nf_outbox t = nf_outbox s @ session_rows ?session now (batch_start s ?session None) new"
      "ib_inserted_records res = length new" "file_session t (fl_id f) = ?session"
      "nf_files t = update_where (\<lambda>g. fl_id g = fl_id f) (advance_cursor cursor now) (nf_files s)"
    using import_batch_spec [OF inv f csid', of now cursor None cx] by blast
  have f': "?f \<in> set (nf_files t)" "fl_id ?f = fl_id f" "fl_claude_session_id ?f = fl_claude_session_id f"
    using f run(8) by (auto simp: update_where_def advance_cursor_def)
  have tail: "map (\<lambda>v. (sn_seq v, sn_record v)) (list_for_session_after t sid (latest_seq s sid)) = numbered (latest_seq s sid + 1) new"
    if sid: "?session = Some sid" for sid
  proof (rule feed_tail_rows [OF run(2), of "nf_outbox s" sid now])
    have "outbox_inv s" using inv by (simp add: feed_inv_def tables_ok_def)
    then have "batch_start s (Some sid) None = latest_seq s sid + 1"
      using next_seq_pos [of s sid] by (simp add: batch_start_def coalesce_def next_seq_latest)
    with run(5) sid show "nf_outbox t = nf_outbox s @ outbox_rows sid now (latest_seq s sid + 1) new" by (simp add: session_rows_def)
    show "ob_seq ob \<le> latest_seq s sid" if "ob \<in> set (nf_outbox s)" "ob_session_id ob = sid" for ob
      using next_seq_fresh [OF that] by (simp add: next_seq_latest)
    show "owned t sid r" if "r \<in> set new" for r
      using owner_owned [OF run(2) f'(1)] stores_csid [OF run(4) csid'] that run(7) sid f' by simp
  qed (use run(3) in auto)
  have "fresh_records (stored_lines t (fl_id f)) rs = []" by (rule fresh_records_replay [OF run(3,4)])
  with import_batch_spec [OF run(2) f'(1), of rs now' cursor' None cx'] csid' f'
  have "\<exists>res' u. import_batch_with_context t now' (fl_id f) rs cursor' cx' = Inr (res', u)
      \<and> ib_inserted_records res' = 0 \<and> u = t\<lparr>nf_files := nf_files u\<rparr>"
    by (auto simp: import_batch_with_context_def)
  with run tail show ?thesis unfolding import_batch_with_context_def by blast
qed

theorem import_exact_witness:
  "\<exists>res t new. import_batch_with_context sample_feed 102 7 [sample_line 0 ''hi''] sample_cursor sample_context = Inr (res, t)
    \<and> list_all2 (stores 7) new [sample_line 0 ''hi'']
    \<and> map (\<lambda>v. (sn_seq v, sn_record v)) (list_for_session_after t 5 0) = numbered 1 new"
proof -
  have f: "sample_file \<in> set (nf_files sample_feed)" by (simp add: sample_feed_def)
  have id: "fl_id sample_file = 7" "file_session sample_feed 7 = Some 5" "latest_seq sample_feed 5 = 0"
      "fresh_records (stored_lines sample_feed 7) [sample_line 0 ''hi''] = [sample_line 0 ''hi'']"
    by (simp_all add: sample_file_def sample_feed_def file_session_def find_file_def find_link_def select_one_def latest_seq_def max_seq_def
        coalesce_def stored_lines_def)
  have csid: "list_all (\<lambda>r. nn_claude_session_id r = fl_claude_session_id sample_file) [sample_line 0 ''hi'']"
    by (simp add: sample_line_def sample_file_def)
  from import_exact [OF rtranclp.rtrancl_refl sample_feed_inv f csid, of 102 sample_cursor sample_context 103 sample_cursor sample_context]
  obtain res t new where "import_batch_with_context sample_feed 102 7 [sample_line 0 ''hi''] sample_cursor sample_context = Inr (res, t)"
      "list_all2 (stores 7) new [sample_line 0 ''hi'']"
      "map (\<lambda>v. (sn_seq v, sn_record v)) (list_for_session_after t 5 (latest_seq sample_feed 5)) = numbered (latest_seq sample_feed 5 + 1) new"
    unfolding id(1,2,4) by blast
  then show ?thesis by (auto simp: id(3))
qed

lemma next_generation_new:
  assumes "f \<in> set (nf_files s)" and "fl_dir_path f = rg_dir_path data" and "fl_file_name f = rg_file_name data"
  shows "fl_generation f < next_generation s data"
proof -
  let ?gs = "map fl_generation (filter (\<lambda>f. fl_dir_path f = rg_dir_path data \<and> fl_file_name f = rg_file_name data) (nf_files s))"
  have mem: "fl_generation f \<in> set ?gs" using assms by auto
  show ?thesis
  proof (cases ?gs)
    case (Cons g gs)
    with mem foldl_max_ge [of "fl_generation f" g gs] show ?thesis by (simp add: next_generation_def)
  qed (use mem in simp)
qed

lemma insert_next_generation:
  assumes "fresh \<notin> fl_id ` set (nf_files s)" and "case rg_discovered_workspace_id data of None \<Rightarrow> True | Some w \<Rightarrow> w \<in> set (nf_workspaces s)"
  shows "\<exists>s1. insert_file s (new_file data fresh now (next_generation s data)) = Inr s1"
proof -
  have "\<not> (\<exists>g\<in>set (nf_files s). fl_id g = fresh \<or> fl_dir_path g = rg_dir_path data \<and> fl_file_name g = rg_file_name data
      \<and> fl_generation g = next_generation s data)"
    using assms(1) next_generation_new [of _ s data] by fastforce
  with assms(2) show ?thesis by (auto simp: insert_file_def new_file_def split: option.splits)
qed

text \<open>
  C15.  When a transcript was rewritten, its new generation takes the place of the old one in one
  step: nothing of the old generation remains, the new one is stored completely, and its records
  are numbered after everything the session's feed has ever shown, so that a reader who had read
  everything sees exactly them.
\<close>

theorem replace_tail:
  assumes "feed_step\<^sup>*\<^sup>* s0 s" and "feed_inv s0" and csid: "list_all (\<lambda>r. nn_claude_session_id r = rg_claude_session_id data) rs"
    and fresh: "fresh \<notin> fl_id ` set (nf_files s)"
    and ws: "case rg_discovered_workspace_id data of None \<Rightarrow> True | Some w \<Rightarrow> w \<in> set (nf_workspaces s)"
  shows "\<exists>f res t new. replace_generation_and_import_batch_with_context s fresh now data rs cursor cx = Inr ((f, res), t)
    \<and> list_all2 (stores fresh) new (fresh_records {} rs)
    \<and> nf_records t = filter (\<lambda>r. nr_file_id r \<notin> fl_id ` set (filter (same_path data) (nf_files s))) (nf_records s) @ new
    \<and> (\<forall>l. find_link (nf_links s) (rg_claude_session_id data) = Some l \<longrightarrow>
         map (\<lambda>v. (sn_seq v, sn_record v)) (list_for_session_after t (lk_session_id l) (latest_seq s (lk_session_id l)))
         = numbered (latest_seq s (lk_session_id l) + 1) new)"
proof -
  have inv: "feed_inv s" by (rule feed_machine.reach_inv [OF assms(1,2)])
  have csid': "\<forall>r\<in>set rs. nn_claude_session_id r = rg_claude_session_id data" using csid by (simp add: list_all_iff)
  obtain s1 where ins: "insert_file s (new_file data fresh now (next_generation s data)) = Inr s1"
    using insert_next_generation [OF fresh ws] by blast
  let ?gone = "fl_id ` set (filter (same_path data) (nf_files s))"
  let ?session = "map_option lk_session_id (find_link (nf_links s) (rg_claude_session_id data))"
  obtain f res t new where run: "replace_generation_and_import_batch_with_context s fresh now data rs cursor cx = Inr ((f, res), t)" "feed_inv t"
      "nf_records t = filter (\<lambda>r. nr_file_id r \<notin> ?gone) (nf_records s) @ new" "list_all2 (stores fresh) new (fresh_records {} rs)"
      "nf_outbox t = filter (\<lambda>ob. ob_file_id ob \<notin> ?gone) (nf_outbox s) @ session_rows ?session now (batch_start s ?session None) new"
      "fl_id f = fresh" "f \<in> set (nf_files t)" "fl_claude_session_id f = rg_claude_session_id data" "file_session t fresh = ?session"
    using replace_spec [OF inv csid' ins, of cursor cx] by blast
  have "map (\<lambda>v. (sn_seq v, sn_record v)) (list_for_session_after t (lk_session_id l) (latest_seq s (lk_session_id l)))
      = numbered (latest_seq s (lk_session_id l) + 1) new" if l: "find_link (nf_links s) (rg_claude_session_id data) = Some l" for l
  proof (rule feed_tail_rows [OF run(2), of "filter (\<lambda>ob. ob_file_id ob \<notin> ?gone) (nf_outbox s)" "lk_session_id l" now])
    have "outbox_inv s" using inv by (simp add: feed_inv_def tables_ok_def)
    then have "batch_start s (Some (lk_session_id l)) None = latest_seq s (lk_session_id l) + 1"
      using next_seq_pos [of s "lk_session_id l"] by (simp add: batch_start_def coalesce_def next_seq_latest)
    with run(5) l show "nf_outbox t = filter (\<lambda>ob. ob_file_id ob \<notin> ?gone) (nf_outbox s)
        @ outbox_rows (lk_session_id l) now (latest_seq s (lk_session_id l) + 1) new" by (simp add: session_rows_def)
    show "ob_seq ob \<le> latest_seq s (lk_session_id l)"
      if "ob \<in> set (filter (\<lambda>ob. ob_file_id ob \<notin> ?gone) (nf_outbox s))" "ob_session_id ob = lk_session_id l" for ob
      using that next_seq_fresh [of ob s "lk_session_id l"] by (simp add: next_seq_latest)
    show "owned t (lk_session_id l) r" if "r \<in> set new" for r
      using owner_owned [OF run(2,7)] stores_csid [OF run(4) csid'] that run(6,8,9) l by simp
  qed (use run(3) in auto)
  with run show ?thesis by blast
qed

theorem replace_tail_witness:
  "\<exists>f res t new. replace_generation_and_import_batch_with_context sample_imported 8 110 sample_registration [sample_line 0 ''hey'']
      sample_cursor sample_context = Inr ((f, res), t)
    \<and> list_all2 (stores 8) new [sample_line 0 ''hey'']
    \<and> nf_records t = new \<and> map (\<lambda>v. (sn_seq v, sn_record v)) (list_for_session_after t 5 2) = numbered 3 new"
proof -
  have gone: "filter (\<lambda>r. nr_file_id r \<notin> fl_id ` set (filter (same_path sample_registration) (nf_files sample_imported))) (nf_records sample_imported) = []"
    and link: "map_option lk_session_id (find_link (nf_links sample_imported) ''c'') = Some 5" and seq: "latest_seq sample_imported 5 = 2"
    and ids: "map fl_id (nf_files sample_imported) = [7]" and ws: "nf_workspaces sample_imported = [3]"
    by code_simp+
  have fresh: "8 \<notin> fl_id ` set (nf_files sample_imported)" using ids [THEN arg_cong, of set] by simp
  obtain l where l: "find_link (nf_links sample_imported) ''c'' = Some l" "lk_session_id l = 5" using link by auto
  have c: "rg_claude_session_id sample_registration = ''c''"
    and csid: "list_all (\<lambda>r. nn_claude_session_id r = rg_claude_session_id sample_registration) [sample_line 0 ''hey'']"
    and w: "case rg_discovered_workspace_id sample_registration of None \<Rightarrow> True | Some w \<Rightarrow> w \<in> set (nf_workspaces sample_imported)"
    by (simp_all add: sample_registration_def sample_line_def ws)
  from replace_tail [OF sample_imported_reach sample_feed_inv csid fresh w, of 110 sample_cursor sample_context]
  obtain f res t new where "replace_generation_and_import_batch_with_context sample_imported 8 110 sample_registration [sample_line 0 ''hey'']
        sample_cursor sample_context = Inr ((f, res), t)" "list_all2 (stores 8) new [sample_line 0 ''hey'']" "nf_records t = new"
      "map (\<lambda>v. (sn_seq v, sn_record v)) (list_for_session_after t (lk_session_id l) (latest_seq sample_imported (lk_session_id l)))
        = numbered (latest_seq sample_imported (lk_session_id l) + 1) new"
    unfolding gone c using l(1) by (auto simp: sample_line_def)
  then show ?thesis by (auto simp: l(2) seq)
qed

lemma filter_single:
  assumes "distinct xs" and "x \<in> set xs" and "p x" and "\<And>y. y \<in> set xs \<Longrightarrow> p y \<Longrightarrow> y = x"
  shows "filter p xs = [x]"
proof -
  have "filter p xs = filter (\<lambda>y. y = x) xs" using assms(3,4) by (intro filter_cong) auto
  also have "\<dots> = [x]" using assms(1,2) by (induction xs) (auto simp: filter_empty_conv)
  finally show ?thesis .
qed

text \<open>
  A queued message is acknowledged by at most one record of the transcripts, ever, and a
  message that a record acknowledges is marked as imported and stays so.
\<close>

theorem ack_once:
  assumes "feed_step\<^sup>*\<^sup>* s0 s" and "feed_inv s0" and r: "r \<in> set (nf_records s)" "nr_bound_queued_message_id r = Some i"
  shows "filter (\<lambda>r'. nr_bound_queued_message_id r' = Some i) (nf_records s) = [r]
    \<and> (\<exists>q\<in>set (nf_queue s). qm_id q = i \<and> qm_state q = Imported)"
proof -
  have inv: "acks_inv s" "records_inv s" using feed_machine.reach_inv [OF assms(1,2)] by (simp_all add: feed_inv_def tables_ok_def)
  have "r' = r" if "r' \<in> set (nf_records s)" "nr_bound_queued_message_id r' = Some i" for r'
    using inv(1) r that unfolding acks_inv_def by blast
  moreover have "distinct (nf_records s)" using inv(2) by (simp add: records_inv_def distinct_map)
  ultimately show ?thesis using r acksD [OF inv(1) r] by (intro conjI filter_single)
qed

theorem ack_once_witness:
  "filter (\<lambda>r. nr_bound_queued_message_id r = Some 9) (nf_records sample_imported) = [hd (nf_records sample_imported)]
    \<and> (\<exists>q\<in>set (nf_queue sample_imported). qm_id q = 9 \<and> qm_state q = Imported)"
proof -
  have r: "hd (nf_records sample_imported) \<in> set (nf_records sample_imported)" "nr_bound_queued_message_id (hd (nf_records sample_imported)) = Some 9"
    using sample_records by (cases "nf_records sample_imported"; simp)+
  show ?thesis by (rule ack_once [OF sample_imported_reach sample_feed_inv r])
qed

text \<open>
  Pruning is invisible: neither the removal of superseded outbox rows nor that of transcripts
  out of reach changes what any reader of any session's feed sees.
\<close>

theorem prune_keeps_feeds:
  assumes "feed_step\<^sup>*\<^sup>* s0 s" and "feed_inv s0"
  shows "list_for_session_after (snd (prune_superseded s)) sid q = list_for_session_after s sid q
    \<and> list_for_session_after (snd (prune_unreachable s now days lim)) sid q = list_for_session_after s sid q"
  using prune_superseded_view prune_unreachable_view feed_machine.reach_inv [OF assms] by blast

theorem prune_keeps_feeds_witness:
  "list_for_session_after (snd (prune_superseded sample_imported)) 5 1 = list_for_session_after sample_imported 5 1
    \<and> list_for_session_after (snd (prune_unreachable sample_imported 200 0 10)) 5 1 = list_for_session_after sample_imported 5 1"
  by (rule prune_keeps_feeds [OF sample_imported_reach sample_feed_inv])

end
