(* ===== verification/ImportSafety.thy ===== *)
theory ImportSafety
  imports NativeImport FeedSafety
begin

text \<open>
  A pass over a transcript leaves in the tables exactly what the file holds: the records of its complete
  lines, in order, and a cursor behind the last of them, from which the next pass goes on.
\<close>

section \<open>What is stored of some lines\<close>






lemma line_records_simps [simp]:
  "line_records env it [] = []"
  "line_records env it (l # ls) = (case fst (line_record env it l) of None \<Rightarrow> [] | Some r \<Rightarrow> [r]) @ line_records env it ls"
  by (simp_all add: line_records_def map_filter_simps split: option.split)








section \<open>One batch\<close>






section \<open>All batches\<close>


lemma invalidate_revision_feed [simp]: "ig_feed (invalidate_revision sid ig) = ig_feed ig"
  by (simp add: invalidate_revision_def Let_def)





section \<open>A pass\<close>





section \<open>Registering and linking\<close>





















section \<open>Properties\<close>

text \<open>The transcript at a path, as the passes over it see it.\<close>

definition transcript :: "('l, 'n, 'x) import_env \<Rightarrow> string \<times> string \<Rightarrow> directory_context \<Rightarrow> string \<Rightarrow> import_target" where
  "transcript env path dc csid =
     \<lparr>it_registration = \<lparr>rg_claude_session_id = csid, rg_dir_path = fst path, rg_file_name = snd path, rg_discovered_workspace_id = None,
        rg_dev = 0, rg_inode = 0, rg_observed_size = 0, rg_observed_mtime_ms = None\<rparr>,
      it_is_codex = (rollout_thread_id (ad_is_uuid (ie_adapters env)) (snd path) \<noteq> None), it_path = path, it_cwd = dc_cwd dc, it_session = None,
      it_context = \<lparr>nc_app_pane_absent = False, nc_foreign_since = None\<rparr>\<rparr>"





lemma apply_link_mutation_feed [simp]: "ig_feed (apply_link_mutation m ig) = ig_feed ig"
  by (simp add: apply_link_mutation_def Let_def split: option.split)



definition sample_import_env :: "(unit, unit, unit) import_env" where
  "sample_import_env =
     \<lparr>ie_adapters = \<lparr>ad_claude_line = (\<lambda>_ _. None), ad_disposition = (\<lambda>_. ClaudeRenderable), ad_plain_user_text = (\<lambda>_. None),
        ad_codex_line = (\<lambda>_ _ _. None), ad_is_uuid = (\<lambda>_. False), ad_normalizer_default = (), ad_normalize = (\<lambda>n _ _. (n, []))\<rparr>,
      ie_hash = (\<lambda>bs. replicate (length bs) CHR ''h''), ie_lossy = (\<lambda>bs. replicate (length bs) CHR ''x''), ie_parse_timestamp = (\<lambda>_. None),
      ie_probe = (\<lambda>_ _ _ _ _. probe_failed_report), ie_legacy_history = (\<lambda>_. False), ie_clock = (\<lambda>n. 100 + int n), ie_fresh = 9\<rparr>"



definition sample_directory :: directory_context where
  "sample_directory = \<lparr>dc_workspace_id = 3, dc_cwd = ''/w''\<rparr>"

abbreviation "sample_transcript \<equiv> transcript sample_import_env (''d'', ''c.jsonl'') sample_directory ''c''"



end
