(* ===== verification/ImportQueue.thy ===== *)
theory ImportQueue
  imports NativeImport
begin

text \<open>
  The requests to import a transcript (\<^verbatim>\<open>process_native_path\<close> and its callers in
  \<^verbatim>\<open>services/claude_transcript_ingest.rs\<close>): watchers, scans and manual assignments ask for the same path
  at the same time.  One task imports a path; a request that arrives meanwhile is noted and gives the
  task another pass.  A request is never lost: a pass that starts after it follows.
\<close>

section \<open>Coalescing\<close>




type_synonym transcript_path = "string \<times> string"












section \<open>No request is lost\<close>

declare split_paired_All [simp del] split_paired_Ex [simp del]













section \<open>Passes of one path\<close>




section \<open>Scans\<close>

record scan_counts =
  sc_directories :: nat
  sc_files :: nat
  sc_failed_files :: nat
  sc_records :: nat

definition scan_counts_default :: scan_counts where
  "scan_counts_default = \<lparr>sc_directories = 0, sc_files = 0, sc_failed_files = 0, sc_records = 0\<rparr>"

type_synonym path_import = "transcript_path \<Rightarrow> directory_context \<Rightarrow> bool \<Rightarrow> ingest_state \<Rightarrow> ingest_state \<times> (import_error + nat)"

text \<open>What the import of one file adds to the counts of a scan.\<close>

definition count_import :: "import_error + nat \<Rightarrow> scan_counts \<Rightarrow> scan_counts" where
  "count_import result c =
     (case result of Inr n \<Rightarrow> c\<lparr>sc_records := sc_records c + n\<rparr> | Inl _ \<Rightarrow> c\<lparr>sc_failed_files := sc_failed_files c + 1\<rparr>)"

text \<open>The tracked rollouts of a directory, each with its size and time when it can be read.\<close>

fun scan_codex_loop ::
    "path_import \<Rightarrow> bool \<Rightarrow> (transcript_path \<times> directory_context \<times> (int \<times> int option) option) list \<Rightarrow> ingest_state \<times> scan_counts \<Rightarrow> ingest_state \<times> scan_counts" where
  "scan_codex_loop process force [] s = s"
| "scan_codex_loop process force ((path, dc, metadata) # files) (ig, c) =
     (let c1 = c\<lparr>sc_files := sc_files c + 1\<rparr> in
      case metadata of
        None \<Rightarrow> scan_codex_loop process force files (ig, c1\<lparr>sc_failed_files := sc_failed_files c1 + 1\<rparr>)
      | Some stamp \<Rightarrow>
          if \<not> force \<and> ig_codex_seen ig path = Some stamp then scan_codex_loop process force files (ig, c1)
          else (case process path dc force ig of (ig', result) \<Rightarrow> scan_codex_loop process force files (ig', count_import result c1)))"

definition scan_codex_files ::
    "path_import \<Rightarrow> bool \<Rightarrow> (transcript_path \<times> directory_context \<times> (int \<times> int option) option) list \<Rightarrow> ingest_state \<Rightarrow> ingest_state \<times> scan_counts" where
  "scan_codex_files process force files ig = scan_codex_loop process force files (ig, scan_counts_default)"

text \<open>The extension of a file name.\<close>

definition extension :: "string \<Rightarrow> string option" where
  "extension name =
     (let rest = dropWhile (\<lambda>c. c \<noteq> CHR ''.'') (rev name) in
      if name = ''..'' \<or> length rest \<le> 1 then None else Some (rev (takeWhile (\<lambda>c. c \<noteq> CHR ''.'') (rev name))))"

definition is_transcript_name :: "string \<Rightarrow> bool" where
  "is_transcript_name name \<longleftrightarrow> \<not> (extension name \<noteq> Some ''jsonl'' \<or> take 6 name = ''agent-'')"

text \<open>The entries of a directory; an entry that cannot be read ends the scan with an error.\<close>

fun scan_entries ::
    "path_import \<Rightarrow> string \<Rightarrow> directory_context \<Rightarrow> bool \<Rightarrow> string option list \<Rightarrow> ingest_state \<times> scan_counts \<Rightarrow> ingest_state \<times> (import_error + scan_counts)" where
  "scan_entries process dir dc force [] (ig, c) = (ig, Inr c)"
| "scan_entries process dir dc force (None # entries) (ig, c) = (ig, Inl ImportIo)"
| "scan_entries process dir dc force (Some name # entries) (ig, c) =
     (if \<not> is_transcript_name name then scan_entries process dir dc force entries (ig, c)
      else (case process (dir, name) dc force ig of (ig', result) \<Rightarrow>
        scan_entries process dir dc force entries (ig', count_import result (c\<lparr>sc_files := sc_files c + 1\<rparr>))))"

definition scan_directory ::
    "path_import \<Rightarrow> bool \<Rightarrow> (transcript_path \<times> directory_context \<times> (int \<times> int option) option) list \<Rightarrow> string \<Rightarrow> directory_context option
       \<Rightarrow> string option list option \<Rightarrow> ingest_state \<Rightarrow> ingest_state \<times> (import_error + scan_counts)" where
  "scan_directory process force codex_files dir dc entries ig =
     (let (ig1, c) = scan_codex_files process force codex_files ig in
      case dc of
        None \<Rightarrow> (ig1, Inr c)
      | Some ctx \<Rightarrow> (case entries of None \<Rightarrow> (ig1, Inl ImportIo) | Some es \<Rightarrow> scan_entries process dir ctx force es (ig1, c)))"

text \<open>A rollout is current only behind a pass that succeeded: a failed one is imported again by the next scan.\<close>

lemma invalidate_revision_seen [simp]: "ig_codex_seen (invalidate_revision sid ig) = ig_codex_seen ig"
  by (simp add: invalidate_revision_def Let_def)

lemma apply_link_mutation_seen [simp]: "ig_codex_seen (apply_link_mutation m ig) = ig_codex_seen ig"
  by (simp add: apply_link_mutation_def Let_def split: option.split)

lemma commit_batch_seen: "commit_batch env it b rs cur ig = Inr (x, ig') \<Longrightarrow> ig_codex_seen ig' = ig_codex_seen ig"
  by (auto simp: commit_batch_def Let_def split: if_splits sum.splits option.splits)

lemma import_batches_seen: "ig_codex_seen (fst (import_batches env it b ig)) = ig_codex_seen ig"
proof (induction env it b ig rule: import_batches.induct)
  case (1 env it b ig)
  obtain t rest where t: "read_complete_line_batch (ie_hash env) (ie_lossy env) (bs_reader b) (bs_cursor_offset b) (bs_next_line_seq b) IMPORT_BATCH_LINE_LIMIT = (t, rest)"
    by fastforce
  let ?ig = "ig\<lparr>ig_unknown_kinds := ig_unknown_kinds ig + unknown_lines env it (tc_lines t)\<rparr>"
  show ?case
  proof (cases "commit_batch env it b (line_records env it (tc_lines t)) (batch_cursor it b t) ?ig")
    case (Inl e)
    then show ?thesis using t by (simp add: import_batches.simps [of env it b ig] Let_def)
  next
    case (Inr r)
    obtain file_id imported ig2 where r: "r = ((file_id, imported), ig2)" by (metis prod.exhaust)
    have "ig_codex_seen ig2 = ig_codex_seen ig" using commit_batch_seen [OF Inr [unfolded r]] by simp
    then show ?thesis using 1 [OF t [symmetric] refl _ refl refl Inr [unfolded r] refl refl refl refl] t Inr r
      by (simp add: import_batches.simps [of env it b ig] Let_def)
  qed
qed

lemma import_batches_keep_seen: "import_batches env it b ig = (ig', r) \<Longrightarrow> ig_codex_seen ig' = ig_codex_seen ig"
  using import_batches_seen [of env it b ig] by simp

lemma import_pass_seen:
  "import_pass env it fi force f ig = (ig', r) \<Longrightarrow> it_is_codex it \<Longrightarrow>
     ig_codex_seen ig' (it_path it) = (case r of Inr _ \<Rightarrow> Some (fi_size fi, fi_mtime_ms fi) | Inl _ \<Rightarrow> ig_codex_seen ig (it_path it))"
  by (auto simp: import_pass_def split: sum.splits prod.splits dest: import_batches_keep_seen)

lemma process_codex_seen:
  assumes run: "process_native_path_inner env path dc input fresh_file force ig = (ig', r)"
    and codex: "rollout_thread_id (ad_is_uuid (ie_adapters env)) (snd path) \<noteq> None"
  shows "ig_codex_seen ig' path = (case (r, input) of (Inr _, Some fi) \<Rightarrow> if fi_is_file fi then Some (fi_size fi, fi_mtime_ms fi) else None | _ \<Rightarrow> None)"
proof -
  obtain dir name where path: "path = (dir, name)" by fastforce
  show ?thesis
    using run codex unfolding path process_native_path_inner_def
    by (auto simp: Let_def path split: option.splits sum.splits if_splits prod.splits dest!: import_pass_seen)
qed

section \<open>Properties\<close>




declare split_paired_All [simp] split_paired_Ex [simp]

end
