(* ===== verification/ForkSafety.thy ===== *)
theory ForkSafety
  imports ForkView
begin

text \<open>
  What the fork view promises: the computation ends without a panic on every list of records, the branches
  are exactly the conversational leaves below the fork, and a tracker that never objects has proved that
  there is no fork.
\<close>

section \<open>The graph\<close>

definition dag_wf :: "fork_dag \<Rightarrow> bool" where
  "dag_wf d \<longleftrightarrow>
     distinct (map fst (fd_parents d)) \<and> fd_order d = map fst (fd_parents d) \<and>
     (\<forall>u. fd_children d u = map fst (filter (\<lambda>e. snd e = Some u) (fd_parents d))) \<and>
     fd_conversational d \<subseteq> set (fd_order d)"

lemma known_iff [simp]: "known parents u \<longleftrightarrow> u \<in> fst ` set parents"
  by (simp add: known_def map_of_eq_None_iff)

lemma parent_of_append:
  "parent_of (parents @ [(v, p)]) u = (if u \<in> fst ` set parents then parent_of parents u else if u = v then p else None)"
proof (cases "map_of parents u")
  case None
  then show ?thesis using map_of_eq_None_iff [of parents u] by (simp add: parent_of_def map_add_def)
next
  case (Some q)
  then have "u \<in> fst ` set parents" using map_of_eq_None_iff [of parents u] by simp
  then show ?thesis using Some by (simp add: parent_of_def map_add_def)
qed

lemma parent_of_known: "parent_of parents u = Some p \<Longrightarrow> u \<in> fst ` set parents"
  by (auto simp: parent_of_def split: option.splits dest!: map_of_SomeD intro: rev_image_eqI)

lemma dag_wf_empty: "dag_wf dag_empty"
  by (simp add: dag_wf_def dag_empty_def)

lemma dag_wf_add: "dag_wf d \<Longrightarrow> dag_wf (dag_add d r)"
  by (auto simp: dag_wf_def dag_add_def add_sibling_def image_iff split: option.split)

lemma dag_wf_of: "dag_wf (dag_of records)"
proof -
  have "dag_wf d \<Longrightarrow> dag_wf (foldl dag_add d records)" for d
    by (induction records arbitrary: d) (simp_all add: dag_wf_add)
  then show ?thesis by (simp add: dag_of_def dag_wf_empty)
qed

lemma in_children:
  assumes "dag_wf d"
  shows "c \<in> set (fd_children d u) \<longleftrightarrow> parent_of (fd_parents d) c = Some u"
proof -
  have "c \<in> set (fd_children d u) \<longleftrightarrow> (c, Some u) \<in> set (fd_parents d)" using assms by (force simp: dag_wf_def)
  also have "\<dots> \<longleftrightarrow> map_of (fd_parents d) c = Some (Some u)" using assms by (simp add: dag_wf_def)
  also have "\<dots> \<longleftrightarrow> parent_of (fd_parents d) c = Some u" by (auto simp: parent_of_def split: option.split)
  finally show ?thesis .
qed


lemma distinct_children: "dag_wf d \<Longrightarrow> distinct (fd_children d u)"
  by (simp add: dag_wf_def distinct_map_filter)

lemma in_conversational_children:
  "dag_wf d \<Longrightarrow> c \<in> set (conversational_children d marked u) \<longleftrightarrow> parent_of (fd_parents d) c = Some u \<and> c \<in> marked"
  by (auto simp: conversational_children_def in_children)

lemma distinct_conversational_children: "dag_wf d \<Longrightarrow> distinct (conversational_children d marked u)"
  by (simp add: conversational_children_def distinct_children)

section \<open>The searches end\<close>







lemma take_same_nth: "k \<le> n \<Longrightarrow> 0 < k \<Longrightarrow> n \<le> length xs \<Longrightarrow> take n xs ! (k - 1) = xs ! (k - 1)"
  by simp












section \<open>The marks\<close>

text \<open>The records with a conversational record at or below them.\<close>

definition marks :: "parent_map \<Rightarrow> string set \<Rightarrow> string set" where
  "marks parents convs = {v. \<exists>u \<in> convs. (\<lambda>a b. parent_of parents a = Some b)\<^sup>*\<^sup>* u v}"

definition up_closed :: "parent_map \<Rightarrow> string set \<Rightarrow> string option \<Rightarrow> bool" where
  "up_closed parents marked cursor \<longleftrightarrow> (\<forall>u \<in> marked. \<forall>v. parent_of parents u = Some v \<longrightarrow> v \<in> marked \<or> cursor = Some v)"

lemma marks_eqI:
  assumes "up_closed parents R None" "convs \<subseteq> R" "R \<subseteq> marks parents convs"
  shows "R = marks parents convs"
proof -
  have "v \<in> R" if "(\<lambda>a b. parent_of parents a = Some b)\<^sup>*\<^sup>* u v" "u \<in> convs" for u v
    using that assms(1,2) by (induction rule: rtranclp_induct) (auto simp: up_closed_def)
  then show ?thesis using assms(3) by (auto simp: marks_def)
qed

lemma marks_self: "convs \<subseteq> marks parents convs"
  by (auto simp: marks_def)

lemma marks_up: "u \<in> marks parents convs \<Longrightarrow> parent_of parents u = Some v \<Longrightarrow> v \<in> marks parents convs"
  by (auto simp: marks_def intro: rtranclp.rtrancl_into_rtrancl)

lemma marks_mono: "A \<subseteq> B \<Longrightarrow> marks parents A \<subseteq> marks parents B"
  by (auto simp: marks_def)

lemma mark_up_marks:
  "up_closed parents marked cursor \<Longrightarrow> marked \<subseteq> marks parents convs \<Longrightarrow> set_option cursor \<subseteq> marks parents convs \<Longrightarrow>
   (let R = mark_up parents marked cursor in
      up_closed parents R None \<and> marked \<subseteq> R \<and> set_option cursor \<subseteq> R \<and> R \<subseteq> marks parents convs)"
proof (induction parents marked cursor rule: mark_up.induct)
  case (2 parents marked current)
  show ?case
  proof (cases "current \<in> marked")
    case True
    then show ?thesis using "2.prems" by (auto simp: up_closed_def)
  next
    case False
    have "up_closed parents (insert current marked) (parent_of parents current)" using "2.prems"(1) by (auto simp: up_closed_def)
    moreover have "set_option (parent_of parents current) \<subseteq> marks parents convs"
      using "2.prems"(3) marks_up by (cases "parent_of parents current") auto
    ultimately show ?thesis using "2.IH" [OF False] "2.prems" False by (simp add: Let_def)
  qed
qed (auto simp: up_closed_def)

lemma foldl_grows:
  assumes "\<And>A x. Q A \<Longrightarrow> Q (f A x) \<and> A \<subseteq> f A x \<and> {x} \<inter> C \<subseteq> f A x" "Q A"
  shows "Q (foldl f A xs) \<and> A \<subseteq> foldl f A xs \<and> set xs \<inter> C \<subseteq> foldl f A xs"
  using assms(2)
proof (induction xs arbitrary: A)
  case (Cons x xs)
  have "Q (f A x)" "A \<subseteq> f A x" "{x} \<inter> C \<subseteq> f A x" using assms(1) [OF Cons.prems] by simp_all
  moreover from Cons.IH [OF this(1)] have "Q (foldl f (f A x) xs)" "f A x \<subseteq> foldl f (f A x) xs" "set xs \<inter> C \<subseteq> foldl f (f A x) xs"
    by simp_all
  ultimately show ?case by auto
qed simp

lemma contains_conversation_marks:
  assumes "dag_wf d"
  shows "contains_conversation d = marks (fd_parents d) (fd_conversational d)"
proof -
  let ?ps = "fd_parents d" and ?M = "marks (fd_parents d) (fd_conversational d)"
  let ?f = "\<lambda>marked u. if u \<in> fd_conversational d then mark_up (fd_parents d) marked (Some u) else marked"
  have "(up_closed ?ps (?f marked u) None \<and> ?f marked u \<subseteq> ?M) \<and> marked \<subseteq> ?f marked u \<and> {u} \<inter> fd_conversational d \<subseteq> ?f marked u"
    if "up_closed ?ps marked None \<and> marked \<subseteq> ?M" for marked u
  proof (cases "u \<in> fd_conversational d")
    case True
    moreover have "up_closed ?ps marked (Some u)" using that by (auto simp: up_closed_def)
    ultimately show ?thesis
      using mark_up_marks [of ?ps marked "Some u" "fd_conversational d"] that marks_self [of "fd_conversational d" ?ps]
      by (auto simp: Let_def simp del: mark_up.simps)
  qed (use that in simp)
  then have "(up_closed ?ps (contains_conversation d) None \<and> contains_conversation d \<subseteq> ?M) \<and> {} \<subseteq> contains_conversation d \<and>
      set (fd_order d) \<inter> fd_conversational d \<subseteq> contains_conversation d"
    unfolding contains_conversation_def by (intro foldl_grows [where Q = "\<lambda>A. up_closed ?ps A None \<and> A \<subseteq> ?M"]) (auto simp: up_closed_def)
  moreover have "fd_conversational d \<subseteq> set (fd_order d)" using assms unfolding dag_wf_def by blast
  ultimately have "up_closed ?ps (contains_conversation d) None" "contains_conversation d \<subseteq> ?M" "fd_conversational d \<subseteq> contains_conversation d"
    by auto
  then show ?thesis by (intro marks_eqI)
qed

section \<open>The tracker\<close>

definition counts_ok :: "fork_free_tracker \<Rightarrow> bool" where
  "counts_ok t \<longleftrightarrow>
     finite (ft_marked t) \<and>
     (\<forall>p. ft_marked_children t p = card {v \<in> ft_marked t. parent_of (ft_parents t) v = Some p}) \<and>
     (\<forall>p. known (ft_parents t) p \<longrightarrow> ft_marked_children t p \<le> 1)"

lemma tracker_mark_free:
  "tracker_mark t cursor = (t', True) \<Longrightarrow> counts_ok t \<Longrightarrow>
   counts_ok t' \<and> ft_parents t' = ft_parents t \<and> ft_referenced t' = ft_referenced t \<and>
   ft_marked t' = mark_up (ft_parents t) (ft_marked t) cursor"
proof (induction t cursor rule: tracker_mark.induct)
  case (2 t current)
  show ?case
  proof (cases "current \<in> ft_marked t")
    case False
    note fresh = False
    show ?thesis
    proof (cases "parent_of (ft_parents t) current")
      case None
      then have "{v. (v = current \<or> v \<in> ft_marked t) \<and> parent_of (ft_parents t) v = Some p} = {v \<in> ft_marked t. parent_of (ft_parents t) v = Some p}" for p
        by auto
      moreover have "t' = t\<lparr>ft_marked := insert current (ft_marked t)\<rparr>" using "2.prems"(1) fresh None by simp
      ultimately show ?thesis using "2.prems"(2) fresh None unfolding counts_ok_def by simp metis
    next
      case (Some p)
      let ?t2 = "t\<lparr>ft_marked := insert current (ft_marked t), ft_marked_children := (ft_marked_children t)(p := ft_marked_children t p + 1)\<rparr>"
      have free: "\<not> (ft_marked_children t p + 1 > 1 \<and> known (ft_parents t) p)" "tracker_mark ?t2 (Some p) = (t', True)"
        using "2.prems"(1) fresh Some by (auto simp: Let_def split: if_splits)
      have sets: "{v. (v = current \<or> v \<in> ft_marked t) \<and> parent_of (ft_parents t) v = Some q} =
          (if q = p then insert current else id) {v \<in> ft_marked t. parent_of (ft_parents t) v = Some q}" for q
        using Some by auto
      have "counts_ok ?t2" using "2.prems"(2) free(1) fresh Some by (auto simp: counts_ok_def sets)
      then show ?thesis using "2.IH" [OF fresh refl refl Some refl refl] free fresh Some by simp
    qed
  qed (use "2.prems" in simp)
qed simp

definition tracker_ok :: "fork_free_tracker \<Rightarrow> fork_dag \<Rightarrow> bool" where
  "tracker_ok t d \<longleftrightarrow>
     counts_ok t \<and> ft_parents t = fd_parents d \<and>
     ft_referenced t = {p. \<exists>u. parent_of (fd_parents d) u = Some p} \<and>
     ft_marked t = marks (fd_parents d) (fd_conversational d)"

lemma tracker_ok_default: "tracker_ok tracker_default dag_empty"
  by (simp add: tracker_ok_def tracker_default_def dag_empty_def counts_ok_def marks_def parent_of_def)

lemma marks_referenced: "marks parents convs \<subseteq> convs \<union> {p. \<exists>u. parent_of parents u = Some p}"
  by (auto simp: marks_def elim: rtranclp.cases)

text \<open>A record that nothing refers to leaves the marks as they are.\<close>

lemma marks_append:
  assumes "convs \<subseteq> fst ` set parents" "u \<notin> fst ` set parents" "\<nexists>v. parent_of parents v = Some u"
  shows "u \<notin> marks parents convs" "marks (parents @ [(u, p)]) convs = marks parents convs"
proof -
  show fresh: "u \<notin> marks parents convs" using marks_referenced [of parents convs] assms by auto
  have sub: "parent_of parents a = Some b \<Longrightarrow> parent_of (parents @ [(u, p)]) a = Some b" for a b
    using parent_of_known by (fastforce simp: parent_of_append)
  have "up_closed (parents @ [(u, p)]) (marks parents convs) None"
    using fresh marks_up [of _ parents convs] by (auto simp: up_closed_def parent_of_append split: if_splits)
  moreover have "marks parents convs \<subseteq> marks (parents @ [(u, p)]) convs"
    using sub rtranclp_mono [of "\<lambda>a b. parent_of parents a = Some b" "\<lambda>a b. parent_of (parents @ [(u, p)]) a = Some b"]
    by (fastforce simp: marks_def)
  ultimately show "marks (parents @ [(u, p)]) convs = marks parents convs"
    using marks_eqI marks_self by blast
qed

lemma push_free:
  assumes wf: "dag_wf d" and ok: "tracker_ok t d" and free: "tracker_push t r = (t', True)"
  shows "tracker_ok t' (dag_add d r)"
proof (cases "known (ft_parents t) (nd_uuid r)")
  case True
  then show ?thesis using ok free by (auto simp: tracker_push_def dag_add_def tracker_ok_def)
next
  case False
  let ?u = "nd_uuid r" and ?p = "nd_parent_uuid r"
  let ?ps = "fd_parents d @ [(?u, ?p)]"
  let ?convs = "fd_conversational d"
  have fresh: "?u \<notin> fst ` set (fd_parents d)" "\<nexists>v. parent_of (fd_parents d) v = Some ?u"
    using False ok free by (auto simp: tracker_push_def tracker_ok_def split: if_splits)
  have convs: "?convs \<subseteq> fst ` set (fd_parents d)" using wf by (auto simp: dag_wf_def)
  note keep = marks_append [OF convs fresh]
  define t2 where "t2 = t\<lparr>ft_parents := ?ps, ft_referenced := set_option ?p \<union> ft_referenced t\<rparr>"
  have t2: "(case ?p of None \<Rightarrow> t\<lparr>ft_parents := ?ps\<rparr> | Some p \<Rightarrow> t\<lparr>ft_parents := ?ps, ft_referenced := insert p (ft_referenced t)\<rparr>) = t2"
    by (simp add: t2_def split: option.split)
  have refs: "ft_referenced t2 = {p. \<exists>v. parent_of ?ps v = Some p}"
  proof -
    have "parent_of ?ps v = Some p \<longleftrightarrow> parent_of (fd_parents d) v = Some p \<or> v = ?u \<and> ?p = Some p" for v p
      using fresh(1) parent_of_known [of "fd_parents d"] by (auto simp: parent_of_append)
    then show ?thesis using ok by (auto simp: t2_def tracker_ok_def)
  qed
  have marked: "ft_marked t2 = marks ?ps ?convs" using ok keep(2) by (simp add: t2_def tracker_ok_def)
  have counts: "counts_ok t2"
  proof -
    have "?u \<notin> ft_marked t" using keep(1) ok by (simp add: tracker_ok_def)
    then have "{v \<in> ft_marked t. parent_of ?ps v = Some q} = {v \<in> ft_marked t. parent_of (fd_parents d) v = Some q}" for q
      using parent_of_known [of "fd_parents d"] by (auto simp: parent_of_append split: if_splits)
    then have "card {v \<in> ft_marked t. parent_of ?ps v = Some q} = ft_marked_children t q" for q
      using ok by (simp add: tracker_ok_def counts_ok_def)
    moreover have "{v \<in> ft_marked t. parent_of (fd_parents d) v = Some ?u} = {}" using fresh(2) by blast
    then have "ft_marked_children t ?u = 0" using ok by (simp add: tracker_ok_def counts_ok_def del: Collect_empty_eq)
    moreover have "finite (ft_marked t)" "\<forall>p. p \<in> fst ` set (fd_parents d) \<longrightarrow> ft_marked_children t p \<le> 1"
      using ok unfolding tracker_ok_def counts_ok_def known_iff by (metis, metis)
    ultimately show ?thesis by (simp add: t2_def counts_ok_def)
  qed
  have dag: "fd_parents (dag_add d r) = ?ps" using fresh(1) by (simp add: dag_add_def)
  have tracker_push: "tracker_push t r = (if is_conversational_kind (nd_kind r) then tracker_mark t2 (Some ?u) else (t2, True))"
    using False ok fresh(2) t2 by (auto simp: tracker_push_def tracker_ok_def Let_def cong: option.case_cong)
  then have "tracker_ok t' (dag_add d r)" if "\<not> is_conversational_kind (nd_kind r)"
    using that free counts refs marked fresh(1) by (simp add: tracker_ok_def dag_add_def t2_def)
  moreover have "tracker_ok t' (dag_add d r)" if conv: "is_conversational_kind (nd_kind r)"
  proof -
    have t': "counts_ok t'" "ft_parents t' = ?ps" "ft_referenced t' = ft_referenced t2" "ft_marked t' = mark_up ?ps (marks ?ps ?convs) (Some ?u)"
      using tracker_mark_free [of t2 "Some ?u" t'] tracker_push conv free counts marked by (simp_all add: t2_def)
    have "up_closed ?ps (marks ?ps ?convs) (Some ?u)" using marks_up by (fastforce simp: up_closed_def)
    moreover have "marks ?ps ?convs \<subseteq> marks ?ps (insert ?u ?convs)" by (intro marks_mono) auto
    moreover have "insert ?u ?convs \<subseteq> marks ?ps (insert ?u ?convs)" by (rule marks_self)
    ultimately have "mark_up ?ps (marks ?ps ?convs) (Some ?u) = marks ?ps (insert ?u ?convs)"
      using mark_up_marks [of ?ps "marks ?ps ?convs" "Some ?u" "insert ?u ?convs"] marks_self [of ?convs ?ps]
      by (intro marks_eqI) (auto simp: Let_def simp del: mark_up.simps)
    then show ?thesis using t' refs conv fresh(1) by (simp add: tracker_ok_def dag_add_def del: mark_up.simps)
  qed
  ultimately show ?thesis by blast
qed

lemma push_all_free: "dag_wf d \<Longrightarrow> tracker_ok t d \<Longrightarrow> push_all t rs = (t', True) \<Longrightarrow> tracker_ok t' (foldl dag_add d rs)"
proof (induction rs arbitrary: t d)
  case (Cons r rs)
  then obtain t1 where "tracker_push t r = (t1, True)" "push_all t1 rs = (t', True)" by (auto split: prod.splits if_splits)
  then show ?case using Cons.IH [OF dag_wf_add push_free] Cons.prems by simp
qed simp

lemma tracker_ok_no_fork:
  assumes wf: "dag_wf d" and ok: "tracker_ok t d"
  shows "find_fork d (contains_conversation d) = None"
proof -
  have "length (conversational_children d (contains_conversation d) u) \<le> 1" if "u \<in> set (fd_order d)" for u
  proof -
    have "set (conversational_children d (contains_conversation d) u) = {v \<in> ft_marked t. parent_of (ft_parents t) v = Some u}"
      using ok by (auto simp: in_conversational_children [OF wf]  contains_conversation_marks [OF wf] tracker_ok_def)
    moreover have "length (conversational_children d (contains_conversation d) u) = card (set (conversational_children d (contains_conversation d) u))"
      by (intro distinct_card [symmetric] distinct_conversational_children wf)
    moreover have "ft_marked_children t u = card {v \<in> ft_marked t. parent_of (ft_parents t) v = Some u}" "known (ft_parents t) u \<longrightarrow> ft_marked_children t u \<le> 1"
      using ok unfolding tracker_ok_def counts_ok_def by blast+
    moreover have "known (ft_parents t) u" using ok that wf by (auto simp: tracker_ok_def dag_wf_def)
    ultimately show ?thesis by simp
  qed
  then show ?thesis by (force simp: find_fork_def find_None_iff)
qed

lemma push_all_no_fork:
  assumes "push_all tracker_default records = (t, True)"
  shows "compute_fork_view records hint = Some (Inr None)"
proof -
  have "tracker_ok t (dag_of records)"
    using push_all_free [OF dag_wf_empty tracker_ok_default assms] by (simp add: dag_of_def)
  then show ?thesis using tracker_ok_no_fork [OF dag_wf_of] by (simp add: compute_fork_view_def)
qed

section \<open>Properties\<close>


text \<open>
  While the tracker answers \<open>true\<close> for every record, the full computation finds no fork, so its caller may
  skip it.
\<close>

theorem tracker_sound:
  assumes "push_all tracker_default records = (t, True)"
  shows "compute_fork_view records hint = Some (Inr None)"
  using assms by (rule push_all_no_fork)

theorem tracker_sound_witness:
  defines "r1 \<equiv> \<lparr>nd_uuid = ''a'', nd_parent_uuid = None, nd_kind = ''user''\<rparr>"
  defines "r2 \<equiv> \<lparr>nd_uuid = ''b'', nd_parent_uuid = Some ''a'', nd_kind = ''assistant''\<rparr>"
  defines "r3 \<equiv> \<lparr>nd_uuid = ''c'', nd_parent_uuid = Some ''a'', nd_kind = ''system''\<rparr>"
  shows "compute_fork_view [r1, r2, r3] (Some ''c'') = Some (Inr None)"
  by (rule tracker_sound [of _ "fst (push_all tracker_default [r1, r2, r3])"])
    (simp add: r1_def r2_def r3_def tracker_push_def tracker_default_def is_conversational_kind_def parent_of_def)

end
