(* ===== verification/ProjectionSafety.thy ===== *)
theory ProjectionSafety
  imports Projection ForkSafety
begin

text \<open>
  The projection of a session's rows: extending a projection gives what a full build over all the rows would
  give, and a consumer that applies the differences it is sent holds the same entries.
\<close>

section \<open>What a row does apart from forks and logs\<close>

definition bare_entry :: "'x native_feed_entry \<Rightarrow> 'x native_feed_entry" where
  "bare_entry e = e\<lparr>fe_branch := None\<rparr>"

definition bare_dag :: "file_dag \<Rightarrow> file_dag" where
  "bare_dag g = g\<lparr>fg_fork := None\<rparr>"

definition core :: "('n, 'x) native_projection \<Rightarrow> ('n, 'x) native_projection" where
  "core p = p\<lparr>np_epoch := 0, np_version := 0, np_forks_version := 0, np_changes := [], np_branch_by_uuid := Map.empty,
     np_forks := [], np_entries := map bare_entry (np_entries p), np_file_dags := map bare_dag (np_file_dags p)\<rparr>"

definition scan :: "('l, 'n, 'x) adapters \<Rightarrow> nat \<Rightarrow> projection_row list \<Rightarrow> ('n, 'x) native_projection \<times> nat set" where
  "scan ad revision rows = foldl (fold_row ad 0) (projection_new 0 revision, {}) rows"

lemma map_update_nth:
  "(\<And>x. f (g x) = h (f x)) \<Longrightarrow> map f (xs[i := g (xs ! i)]) = (map f xs)[i := h (map f xs ! i)]"
  by (cases "i < length xs") (simp_all add: map_update list_update_beyond)

lemma nth_update_any: "xs[k := x] ! i = (if k = i \<and> k < length xs then x else xs ! i)"
  by (cases "k < length xs") (simp_all add: nth_list_update list_update_beyond)

lemma core_sel [simp]:
  "np_revision (core p) = np_revision p" "np_last_row_seq (core p) = np_last_row_seq p" "np_rows_visited (core p) = np_rows_visited p"
  "np_normalizers (core p) = np_normalizers p" "np_entry_positions (core p) = np_entry_positions p"
  "np_entries (core p) = map bare_entry (np_entries p)" "np_file_dags (core p) = map bare_dag (np_file_dags p)"
  "np_file_dag_positions (core p) = np_file_dag_positions p" "np_file_ids_by_path (core p) = np_file_ids_by_path p"
  "np_files (core p) = np_files p" "np_file_positions (core p) = np_file_positions p"
  "np_version (core p) = 0" "np_changes (core p) = []"
  by (simp_all add: core_def)

lemma core_note_file: "core (note_file row p) = note_file row (core p)"
  by (simp add: note_file_def Let_def split: option.split) (simp add: core_def)

lemma core_dag_entry: "fst (dag_entry row (core p)) = fst (dag_entry row p)" "snd (dag_entry row (core p)) = core (snd (dag_entry row p))"
  by (simp_all add: dag_entry_def Let_def split: option.split) (simp add: core_def bare_dag_def)

lemma bare_dag_note: "bare_dag (dag_note md g) = dag_note md (bare_dag g)"
  by (simp add: dag_note_def bare_dag_def Let_def split: option.split)

lemma core_apply_change: "core (apply_change row md base p c) = apply_change row md 0 (core p) c"
proof (cases "np_entry_positions p (nr_claude_session_id (sn_record row), fst c)")
  case None
  then show ?thesis by (simp add: apply_change_def Let_def) (simp add: core_def bare_entry_def)
next
  case (Some i)
  have "map bare_entry ((np_entries p)[i := (np_entries p ! i)\<lparr>fe_normalized_entry := e\<rparr>]) =
      (map bare_entry (np_entries p))[i := (map bare_entry (np_entries p) ! i)\<lparr>fe_normalized_entry := e\<rparr>]" for e
    by (rule map_update_nth) (simp add: bare_entry_def)
  then show ?thesis using Some by (simp add: apply_change_def Let_def) (simp add: core_def)
qed

lemma core_apply_changes: "core (foldl (apply_change row md base) p cs) = foldl (apply_change row md 0) (core p) cs"
  by (induction cs arbitrary: p) (simp_all add: core_apply_change)

lemma core_fold_codex_row: "core (fold_codex_row ad row p) = fold_codex_row ad row (core p)"
  by (simp add: fold_codex_row_def split: option.split) (simp add: core_def bare_entry_def)

lemma core_update:
  "core (p\<lparr>np_file_dags := (np_file_dags p)[i := dag_note md (np_file_dags p ! i)]\<rparr>) =
     (core p)\<lparr>np_file_dags := (np_file_dags (core p))[i := dag_note md (np_file_dags (core p) ! i)]\<rparr>"
  "core (p\<lparr>np_normalizers := n\<rparr>) = (core p)\<lparr>np_normalizers := n\<rparr>"
  by (simp_all add: map_update_nth [of bare_dag _ "dag_note md", OF bare_dag_note]) (simp_all add: core_def map_update_nth [of bare_dag _ "dag_note md", OF bare_dag_note])

lemma core_fold_claude_row:
  "core (fst (fold_claude_row ad row base (p, T))) = fst (fold_claude_row ad row 0 (core p, T))"
  "snd (fold_claude_row ad row base (p, T)) = snd (fold_claude_row ad row 0 (core p, T))"
proof -
  obtain i p1 where d: "dag_entry row p = (i, p1)" by fastforce
  then have d': "dag_entry row (core p) = (i, core p1)" using core_dag_entry [of row p] by (metis fst_conv prod.collapse snd_conv)
  show "core (fst (fold_claude_row ad row base (p, T))) = fst (fold_claude_row ad row 0 (core p, T))"
    "snd (fold_claude_row ad row base (p, T)) = snd (fold_claude_row ad row 0 (core p, T))"
    by (simp_all add: fold_claude_row_def Let_def d d' core_apply_changes core_update case_prod_beta split: option.split)
qed

lemma core_fold_row: "(core (fst (fold_row ad base (p, T) row)), snd (fold_row ad base (p, T) row)) = fold_row ad 0 (core p, T) row"
  using core_fold_claude_row [of ad row base "note_file row p" T]
  by (simp add: fold_row_def Let_def core_note_file core_fold_codex_row prod_eq_iff)

lemma core_fold_rows:
  "(core (fst (foldl (fold_row ad base) (p, T) rows)), snd (foldl (fold_row ad base) (p, T) rows)) = foldl (fold_row ad 0) (core p, T) rows"
proof (induction rows arbitrary: p T)
  case (Cons row rows)
  show ?case
    using Cons [of "fst (fold_row ad base (p, T) row)" "snd (fold_row ad base (p, T) row)"] core_fold_row [of ad base p T row]
    by simp
qed simp

lemma core_new: "core (projection_new epoch revision) = projection_new 0 revision"
  by (simp add: core_def projection_new_def)

section \<open>What a row does to forks, branches and logs\<close>

lemma fold_claude_row_cases:
  obtains (skip) "fold_claude_row ad row base (p, T) = (p, T)"
  | (line) md i p1 g cs where "dag_entry row p = (i, p1)"
      "fold_claude_row ad row base (p, T) =
         (foldl (apply_change row md base)
            (np_normalizers_update g (p1\<lparr>np_file_dags := (np_file_dags p1)[i := dag_note md (np_file_dags p1 ! i)]\<rparr>)) cs,
          if touches md then insert i T else T)"
proof (cases "nr_disposition (sn_record row) = disposition_str Sidechain \<or> ad_claude_line ad (nr_raw (sn_record row)) (nr_claude_session_id (sn_record row)) = None")
  case True
  then show ?thesis by (intro skip) (auto simp: fold_claude_row_def Let_def split: option.split)
next
  case False
  obtain i p1 where d: "dag_entry row p = (i, p1)" by fastforce
  from False obtain md l where "ad_claude_line ad (nr_raw (sn_record row)) (nr_claude_session_id (sn_record row)) = Some (md, l)" by auto
  then show ?thesis using False d by (intro line [OF d]) (auto simp: fold_claude_row_def Let_def case_prod_beta)
qed

text \<open>Relative to the entries \<open>E\<close>, the log \<open>C\<close> and the dags at the start of an extension.\<close>

definition extending :: "'x native_feed_entry list \<Rightarrow> (nat \<times> nat) list \<Rightarrow> nat \<Rightarrow> ('n, 'x) native_projection \<Rightarrow> bool" where
  "extending E C v p \<longleftrightarrow>
     length E \<le> length (np_entries p) \<and> np_version p = v \<and>
     (\<forall>i < length E. fe_uuid (np_entries p ! i) = fe_uuid (E ! i) \<and> fe_branch (np_entries p ! i) = fe_branch (E ! i)) \<and>
     (\<exists>new. np_changes p = C @ new \<and> fst ` set new \<subseteq> {v} \<and> (\<forall>i < length E. np_entries p ! i \<noteq> E ! i \<longrightarrow> i \<in> snd ` set new))"

lemma extending_start: "extending (np_entries p) (np_changes p) (np_version p) p"
  by (simp add: extending_def)

lemma extending_same:
  "extending E C v p \<Longrightarrow> np_entries q = np_entries p @ added \<Longrightarrow> np_version q = np_version p \<Longrightarrow> np_changes q = np_changes p \<Longrightarrow> extending E C v q"
  by (auto simp: extending_def nth_append)

lemma extending_note_file: "extending E C v p \<Longrightarrow> extending E C v (note_file row p)"
  by (erule extending_same [where added = "[]"]) (simp_all add: note_file_def Let_def split: option.split)

lemma extending_dag_entry: "extending E C v p \<Longrightarrow> extending E C v (snd (dag_entry row p))"
  by (erule extending_same [where added = "[]"]) (simp_all add: dag_entry_def Let_def split: option.split)

lemma extending_update: "extending E C v (np_file_dags_update f p) = extending E C v p" "extending E C v (np_normalizers_update g p) = extending E C v p"
  by (simp_all add: extending_def)

lemma extending_codex: "extending E C v p \<Longrightarrow> extending E C v (fold_codex_row ad row p)"
proof -
  assume "extending E C v p"
  moreover have "\<exists>added. np_entries (fold_codex_row ad row p) = np_entries p @ added" by (auto simp: fold_codex_row_def split: option.split)
  moreover have "np_version (fold_codex_row ad row p) = np_version p" "np_changes (fold_codex_row ad row p) = np_changes p"
    by (simp_all add: fold_codex_row_def split: option.split)
  ultimately show ?thesis using extending_same by metis
qed

lemma extending_apply_change: "extending E C v p \<Longrightarrow> extending E C v (apply_change row md (length E) p c)"
proof (cases "np_entry_positions p (nr_claude_session_id (sn_record row), fst c)")
  case None
  moreover assume "extending E C v p"
  ultimately show ?thesis by (elim extending_same) (simp_all add: apply_change_def Let_def)
next
  case (Some k)
  assume ext: "extending E C v p"
  let ?q = "apply_change row md (length E) p c"
  obtain e where e: "np_entries ?q = (np_entries p)[k := (np_entries p ! k)\<lparr>fe_normalized_entry := e\<rparr>]"
    using Some by (simp add: apply_change_def Let_def)
  obtain new where new: "np_changes p = C @ new" "fst ` set new \<subseteq> {v}" "\<forall>i < length E. np_entries p ! i \<noteq> E ! i \<longrightarrow> i \<in> snd ` set new"
    using ext by (auto simp: extending_def)
  let ?new = "new @ (if k < length E then [(v, k)] else [])"
  have "np_changes ?q = C @ ?new" using Some new(1) ext by (simp add: apply_change_def Let_def extending_def)
  moreover have "fst ` set ?new \<subseteq> {v}" using new(2) by auto
  moreover have "\<forall>i < length E. np_entries ?q ! i \<noteq> E ! i \<longrightarrow> i \<in> snd ` set ?new"
    using new(3) e by (auto simp: nth_update_any)
  moreover have "\<forall>i < length E. fe_uuid (np_entries ?q ! i) = fe_uuid (E ! i) \<and> fe_branch (np_entries ?q ! i) = fe_branch (E ! i)"
    using ext e by (auto simp: extending_def nth_update_any)
  moreover have "np_version ?q = v" "length E \<le> length (np_entries ?q)"
    using ext Some e by (simp_all add: extending_def apply_change_def Let_def)
  ultimately show ?thesis unfolding extending_def by blast
qed

lemma extending_apply_changes: "extending E C v p \<Longrightarrow> extending E C v (foldl (apply_change row md (length E)) p cs)"
  by (induction cs arbitrary: p) (simp_all add: extending_apply_change)

lemma extending_fold_row: "extending E C v p \<Longrightarrow> extending E C v (fst (fold_row ad (length E) (p, T) row))"
proof -
  assume "extending E C v p"
  then have n: "extending E C v (note_file row p)" by (rule extending_note_file)
  have "extending E C v (fst (fold_claude_row ad row (length E) (note_file row p, T)))"
  proof (cases rule: fold_claude_row_cases [of ad row "length E" "note_file row p" T])
    case (line md i p1 g cs)
    then show ?thesis using extending_dag_entry [OF n, of row] by (simp add: extending_apply_changes extending_update)
  qed (use n in simp)
  then show ?thesis using n by (simp add: fold_row_def Let_def extending_codex)
qed

lemma extending_fold_rows: "extending E C v p \<Longrightarrow> extending E C v (fst (foldl (fold_row ad (length E)) (p, T) rows))"
proof (induction rows arbitrary: p T)
  case (Cons row rows)
  then show ?case
    using Cons.IH [OF extending_fold_row [OF Cons.prems], of ad T row "snd (fold_row ad (length E) (p, T) row)"] by simp
qed simp

section \<open>Positions\<close>

definition positions_ok :: "('n, 'x) native_projection \<Rightarrow> bool" where
  "positions_ok p \<longleftrightarrow>
     (\<forall>i \<in> ran (np_entry_positions p). i < length (np_entries p)) \<and>
     (\<forall>i \<in> ran (np_file_dag_positions p). i < length (np_file_dags p)) \<and>
     (\<forall>i \<in> ran (np_file_positions p). i < length (np_files p))"

lemma ran_upd_subset: "ran (m(k \<mapsto> v)) \<subseteq> insert v (ran m)"
  by (auto simp: ran_def)

lemma positions_note_file: "positions_ok p \<Longrightarrow> positions_ok (note_file row p)"
  using ran_upd_subset [of "np_file_positions p" "nr_file_id (sn_record row)" "length (np_files p)"]
  by (fastforce simp: positions_ok_def note_file_def Let_def split: option.split)

lemma positions_dag_entry:
  "positions_ok p \<Longrightarrow> positions_ok (snd (dag_entry row p)) \<and> fst (dag_entry row p) < length (np_file_dags (snd (dag_entry row p)))"
  using ran_upd_subset [of "np_file_dag_positions p" "nr_file_id (sn_record row)" "length (np_file_dags p)"]
  by (fastforce simp: positions_ok_def dag_entry_def Let_def intro: ranI split: option.split)

lemma positions_apply_change: "positions_ok p \<Longrightarrow> positions_ok (apply_change row md base p c)"
  using ran_upd_subset [of "np_entry_positions p" "(nr_claude_session_id (sn_record row), fst c)" "length (np_entries p)"]
  by (fastforce simp: positions_ok_def apply_change_def Let_def split: option.split)

lemma positions_apply_changes: "positions_ok p \<Longrightarrow> positions_ok (foldl (apply_change row md base) p cs)"
  by (induction cs arbitrary: p) (simp_all add: positions_apply_change)

lemma positions_codex: "positions_ok p \<Longrightarrow> positions_ok (fold_codex_row ad row p)"
  by (auto simp: positions_ok_def fold_codex_row_def split: option.split)

section \<open>The dags\<close>

text \<open>Outside the touched files \<open>T\<close> the fork is the view of the records, and a tracked file has none.\<close>

definition dags_ok :: "file_dag list \<Rightarrow> nat set \<Rightarrow> bool" where
  "dags_ok D T \<longleftrightarrow>
     T \<subseteq> {..<length D} \<and>
     (\<forall>i < length D.
        (\<forall>t. fg_tracker (D ! i) = Some t \<longrightarrow> push_all tracker_default (fg_records (D ! i)) = (t, True) \<and> fg_fork (D ! i) = None) \<and>
        (i \<notin> T \<longrightarrow> fg_fork (D ! i) = fork_view (D ! i)))"

lemma push_all_append: "push_all t (rs @ [r]) = (let (t', free) = push_all t rs in if free then tracker_push t' r else (t', False))"
  by (induction rs arbitrary: t) (auto simp: Let_def split: prod.split)

lemma tracked_fork_view: "push_all tracker_default (fg_records g) = (t, True) \<Longrightarrow> fork_view g = None"
  by (simp add: fork_view_def push_all_no_fork)

lemma fork_view_new: "fg_records g = [] \<Longrightarrow> fork_view g = None"
  by (rule tracked_fork_view [of _ tracker_default]) simp

lemma fork_view_cong: "fg_records g = fg_records h \<Longrightarrow> fg_leaf_hint g = fg_leaf_hint h \<Longrightarrow> fork_view g = fork_view h"
  by (simp add: fork_view_def)

lemma dag_note_same: "fg_fork (dag_note md g) = fg_fork g" "fg_file_id (dag_note md g) = fg_file_id g" "fg_claude_session_id (dag_note md g) = fg_claude_session_id g"
  by (simp_all add: dag_note_def Let_def split: option.split)

lemma dag_note_untouched: "\<not> touches md \<Longrightarrow> dag_note md g = g"
  by (simp add: touches_def dag_note_def)

lemma dag_note_tracked:
  assumes "fg_tracker (dag_note md g) = Some t" "\<And>t. fg_tracker g = Some t \<Longrightarrow> push_all tracker_default (fg_records g) = (t, True)"
  shows "push_all tracker_default (fg_records (dag_note md g)) = (t, True) \<and> fg_tracker g \<noteq> None"
  using assms by (auto simp: dag_note_def Let_def push_all_append split: option.splits prod.splits if_splits)

lemma dags_ok_append:
  assumes "dags_ok D T" "fg_records g = []" "fg_tracker g = Some tracker_default" "fg_fork g = None"
  shows "dags_ok (D @ [g]) T"
  using assms fork_view_new [of g] by (auto simp: dags_ok_def nth_append less_Suc_eq)

lemma dags_ok_note:
  assumes ok: "dags_ok D T" and i: "i < length D"
  shows "dags_ok (D[i := dag_note md (D ! i)]) (if touches md then insert i T else T)"
proof (cases "touches md")
  case False
  then show ?thesis using ok i by (simp add: dag_note_untouched list_update_same_conv)
next
  case True
  have "push_all tracker_default (fg_records (dag_note md (D ! i))) = (t, True) \<and> fg_fork (dag_note md (D ! i)) = None"
    if "fg_tracker (dag_note md (D ! i)) = Some t" for t
    using dag_note_tracked [OF that] ok i by (auto simp: dags_ok_def dag_note_same)
  then show ?thesis using True ok i by (auto simp: dags_ok_def nth_list_update)
qed

lemma map_update_same: "i < length xs \<Longrightarrow> f x = f (xs ! i) \<Longrightarrow> map f (xs[i := x]) = map f xs"
  by (simp add: map_update list_update_same_conv)

lemma forks_of_dags_update:
  assumes "i < length D"
  shows "forks_of_dags (D[i := dag_note md (D ! i)]) = forks_of_dags D" "branches_of_dags (D[i := dag_note md (D ! i)]) = branches_of_dags D"
  unfolding forks_of_dags_def branches_of_dags_def
  by (subst map_update_same [OF assms], simp add: dag_note_same cong: option.case_cong, rule refl)+

lemma forks_of_dags_append: "fg_fork g = None \<Longrightarrow> forks_of_dags (D @ [g]) = forks_of_dags D" "fg_fork g = None \<Longrightarrow> branches_of_dags (D @ [g]) = branches_of_dags D"
  by (simp_all add: forks_of_dags_def branches_of_dags_def)

text \<open>One row keeps all of it.\<close>

definition row_inv ::
    "native_feed_fork list \<Rightarrow> (string \<rightharpoonup> native_branch_metadata) \<Rightarrow> nat \<Rightarrow> nat \<Rightarrow> ('n, 'x) native_projection \<Rightarrow> nat set \<Rightarrow> bool" where
  "row_inv F B ep fv p T \<longleftrightarrow>
     positions_ok p \<and> dags_ok (np_file_dags p) T \<and> forks_of_dags (np_file_dags p) = F \<and> branches_of_dags (np_file_dags p) = B \<and>
     np_forks p = F \<and> np_branch_by_uuid p = B \<and> np_epoch p = ep \<and> np_forks_version p = fv"

lemma note_file_same:
  "np_file_dags (note_file row p) = np_file_dags p" "np_forks (note_file row p) = np_forks p" "np_branch_by_uuid (note_file row p) = np_branch_by_uuid p"
  "np_epoch (note_file row p) = np_epoch p" "np_forks_version (note_file row p) = np_forks_version p"
  by (simp_all add: note_file_def Let_def split: option.split)

lemma codex_same:
  "np_file_dags (fold_codex_row ad row p) = np_file_dags p" "np_forks (fold_codex_row ad row p) = np_forks p"
  "np_branch_by_uuid (fold_codex_row ad row p) = np_branch_by_uuid p"
  "np_epoch (fold_codex_row ad row p) = np_epoch p" "np_forks_version (fold_codex_row ad row p) = np_forks_version p"
  by (simp_all add: fold_codex_row_def split: option.split)

lemma apply_change_same:
  "np_file_dags (apply_change row md b p c) = np_file_dags p" "np_forks (apply_change row md b p c) = np_forks p"
  "np_branch_by_uuid (apply_change row md b p c) = np_branch_by_uuid p"
  "np_epoch (apply_change row md b p c) = np_epoch p" "np_forks_version (apply_change row md b p c) = np_forks_version p"
  by (simp_all add: apply_change_def Let_def split: option.split)

lemma row_inv_apply_changes: "row_inv F B ep fv p T \<Longrightarrow> row_inv F B ep fv (foldl (apply_change row md base) p cs) T"
  by (induction cs arbitrary: p) (simp_all add: row_inv_def positions_apply_change apply_change_same)

lemma row_inv_normalizers: "row_inv F B ep fv (np_normalizers_update g p) T = row_inv F B ep fv p T"
  by (simp add: row_inv_def positions_ok_def)

lemma row_inv_dag:
  assumes "row_inv F B ep fv p T" and d: "dag_entry row p = (i, p1)"
  shows "row_inv F B ep fv (p1\<lparr>np_file_dags := (np_file_dags p1)[i := dag_note md (np_file_dags p1 ! i)]\<rparr>) (if touches md then insert i T else T)"
proof -
  have pos: "positions_ok p1" "i < length (np_file_dags p1)" using positions_dag_entry [of p row] assms by (auto simp: row_inv_def)
  have "dags_ok (np_file_dags p1) T" "forks_of_dags (np_file_dags p1) = F" "branches_of_dags (np_file_dags p1) = B"
    "np_forks p1 = F" "np_branch_by_uuid p1 = B" "np_epoch p1 = ep" "np_forks_version p1 = fv"
    using assms by (auto simp: row_inv_def dag_entry_def Let_def dags_ok_append forks_of_dags_append split: option.splits)
  then show ?thesis using pos dags_ok_note [OF _ pos(2)] by (simp add: row_inv_def positions_ok_def forks_of_dags_update)
qed

lemma row_inv_fold_row:
  assumes "row_inv F B ep fv p T"
  shows "row_inv F B ep fv (fst (fold_row ad base (p, T) row)) (snd (fold_row ad base (p, T) row))"
proof -
  have n: "row_inv F B ep fv (note_file row p) T" using assms by (simp add: row_inv_def positions_note_file note_file_same)
  have "row_inv F B ep fv (fst (fold_claude_row ad row base (note_file row p, T))) (snd (fold_claude_row ad row base (note_file row p, T)))"
  proof (cases rule: fold_claude_row_cases [of ad row base "note_file row p" T])
    case (line md i p1 g cs)
    then show ?thesis using row_inv_dag [OF n line(1), of md] by (simp only: fst_conv snd_conv row_inv_apply_changes row_inv_normalizers)
  qed (use n in simp)
  moreover have "row_inv F B ep fv (fold_codex_row ad row (note_file row p)) T" using n by (simp add: row_inv_def positions_codex codex_same)
  ultimately show ?thesis by (simp add: fold_row_def Let_def)
qed

lemma row_inv_fold_rows:
  "row_inv F B ep fv p T \<Longrightarrow> row_inv F B ep fv (fst (foldl (fold_row ad base) (p, T) rows)) (snd (foldl (fold_row ad base) (p, T) rows))"
proof (induction rows arbitrary: p T)
  case (Cons row rows)
  then show ?case using Cons.IH [OF row_inv_fold_row [OF Cons.prems]] by simp
qed simp

section \<open>Recomputing the forks\<close>

lemma refork_one:
  assumes "i < length D" "refork (D, ch) i = (D', ch')"
  shows "length D' = length D" "map bare_dag D' = map bare_dag D" "\<And>j. j \<noteq> i \<Longrightarrow> D' ! j = D ! j"
    "fg_tracker (D ! i) = None \<Longrightarrow> fg_fork (D' ! i) = fork_view (D' ! i)" "fg_tracker (D ! i) \<noteq> None \<Longrightarrow> D' ! i = D ! i"
    "\<not> ch' \<Longrightarrow> D' = D \<and> \<not> ch"
  using assms map_update_same [of i D bare_dag "(D ! i)\<lparr>fg_fork := fork_view (D ! i)\<rparr>"]
  by (auto simp: refork_def Let_def bare_dag_def fork_view_def split: if_splits)

lemma refork_dags_ok:
  assumes "dags_ok D (set (i # is))" "refork (D, ch) i = (D', ch')"
  shows "dags_ok D' (set is)"
proof -
  have i: "i < length D" using assms(1) by (simp add: dags_ok_def)
  note r = refork_one [OF i assms(2)]
  have new: "fg_fork (D' ! i) = fork_view (D' ! i)"
    using r(4,5) assms(1) i tracked_fork_view by (cases "fg_tracker (D ! i)") (auto simp: dags_ok_def)
  have trackers: "fg_tracker (D' ! i) = fg_tracker (D ! i)" using r(1,2) i by (metis bare_dag_def file_dag.select_convs(5) file_dag.surjective file_dag.update_convs(6) nth_map)
  have "push_all tracker_default (fg_records (D' ! j)) = (t, True) \<and> fg_fork (D' ! j) = None" if "j < length D'" "fg_tracker (D' ! j) = Some t" for j t
    using assms(1) that r(1,3,5) trackers by (cases "j = i") (auto simp: dags_ok_def)
  moreover have "fg_fork (D' ! j) = fork_view (D' ! j)" if "j < length D'" "j \<notin> set is" for j
    using assms(1) that r(1,3) new by (cases "j = i") (auto simp: dags_ok_def)
  ultimately show ?thesis using assms(1) r(1) by (auto simp: dags_ok_def)
qed

lemma reforks_ok:
  assumes "dags_ok D (set is)" "foldl refork (D, ch) is = (D', ch')"
  shows "dags_ok D' {} \<and> map bare_dag D' = map bare_dag D \<and> (\<not> ch' \<longrightarrow> D' = D \<and> \<not> ch)"
  using assms
proof (induction "is" arbitrary: D ch)
  case (Cons i "is")
  obtain D1 ch1 where r: "refork (D, ch) i = (D1, ch1)" by fastforce
  have i: "i < length D" using Cons.prems(1) by (simp add: dags_ok_def)
  have "dags_ok D1 (set is)" using refork_dags_ok [OF Cons.prems(1) r] .
  moreover have "foldl refork (D1, ch1) is = (D', ch')" using Cons.prems(2) r by simp
  ultimately have "dags_ok D' {} \<and> map bare_dag D' = map bare_dag D1 \<and> (\<not> ch' \<longrightarrow> D' = D1 \<and> \<not> ch1)" by (rule Cons.IH)
  then show ?case using refork_one(2,6) [OF i r] by auto
qed simp

section \<open>The invariant of a projection\<close>

text \<open>A projection of \<open>rows\<close>: every part is determined by the rows, apart from the epoch, the versions and the log.\<close>

definition projects :: "('l, 'n, 'x) adapters \<Rightarrow> nat \<Rightarrow> projection_row list \<Rightarrow> ('n, 'x) native_projection \<Rightarrow> bool" where
  "projects ad revision rows p \<longleftrightarrow>
     core p = fst (scan ad revision rows) \<and>
     row_inv (np_forks p) (np_branch_by_uuid p) (np_epoch p) (np_forks_version p) p {} \<and>
     (\<forall>e \<in> set (np_entries p). fe_branch e = branch_of_entry (np_branch_by_uuid p) e)"

definition visible :: "('n, 'x) native_projection \<Rightarrow> ('n, 'x) native_projection" where
  "visible p = p\<lparr>np_epoch := 0, np_version := 0, np_forks_version := 0, np_changes := []\<rparr>"

lemma rebuild_entries: "np_entries (rebuild_branches b p) = map (set_branch (branches_of_dags (np_file_dags p))) (np_entries p)"
  by (auto simp: rebuild_branches_def Let_def set_branch_def)

lemma set_branch_ok: "fe_branch (set_branch B e) = branch_of_entry B (set_branch B e)" "bare_entry (set_branch B e) = bare_entry e"
  by (simp_all add: set_branch_def branch_of_entry_def bare_entry_def)

lemma rebuild_core: "core (rebuild_branches b p) = core p"
  using rebuild_entries [of b p] by (simp add: core_def rebuild_branches_def Let_def comp_def set_branch_ok)

lemma rebuild_projects:
  assumes "core p = fst (scan ad revision rows)" "positions_ok p" "dags_ok (np_file_dags p) {}"
  shows "projects ad revision rows (rebuild_branches b p)"
proof -
  have "positions_ok (rebuild_branches b p)" using assms(2) by (simp add: positions_ok_def rebuild_branches_def Let_def)
  moreover have "np_branch_by_uuid (rebuild_branches b p) = branches_of_dags (np_file_dags p)" "np_forks (rebuild_branches b p) = forks_of_dags (np_file_dags p)"
    "np_file_dags (rebuild_branches b p) = np_file_dags p"
    by (simp_all add: rebuild_branches_def Let_def)
  ultimately show ?thesis using assms by (auto simp: projects_def row_inv_def rebuild_core rebuild_entries set_branch_ok)
qed

lemma dags_core: "map bare_dag D = map bare_dag (np_file_dags p) \<Longrightarrow> core (np_file_dags_update (\<lambda>_. D) p) = core p"
  by (simp add: core_def)

lemma positions_dags: "length D = length (np_file_dags p) \<Longrightarrow> positions_ok (np_file_dags_update (\<lambda>_. D) p) = positions_ok p"
  by (simp add: positions_ok_def)

lemma row_inv_new: "row_inv [] Map.empty epoch 0 (projection_new epoch revision) {}"
  by (simp add: row_inv_def positions_ok_def dags_ok_def projection_new_def forks_of_dags_def branches_of_dags_def)

lemma build_projects: "projects ad revision rows (build ad epoch rows revision)"
proof -
  obtain p T where pT: "foldl (fold_row ad 0) (projection_new epoch revision, {}) rows = (p, T)" by fastforce
  have inv: "row_inv [] Map.empty epoch 0 p T" using row_inv_fold_rows [OF row_inv_new [of epoch revision], where ad = ad and base = 0 and rows = rows] pT by simp
  have "core p = fst (scan ad revision rows)"
    using core_fold_rows [of ad 0 "projection_new epoch revision" "{}" rows] pT by (simp add: scan_def core_new prod_eq_iff)
  let ?D = "map (\<lambda>dag. dag\<lparr>fg_fork := fork_view dag\<rparr>) (np_file_dags p)"
  have "dags_ok ?D {}" using inv tracked_fork_view by (fastforce simp: row_inv_def dags_ok_def fork_view_def)
  moreover have "map bare_dag ?D = map bare_dag (np_file_dags p)" by (simp add: bare_dag_def)
  ultimately show ?thesis
    using \<open>core p = _\<close> inv unfolding build_def pT
    by (simp add: rebuild_projects dags_core positions_dags row_inv_def del: map_map)
qed

text \<open>The touched files do not influence the rest.\<close>

lemma fold_rows_untouched: "fst (foldl (fold_row ad base) (p, T) rows) = fst (foldl (fold_row ad base) (p, T') rows)"
proof (induction rows arbitrary: p T T')
  case (Cons row rows)
  have "fst (fold_row ad base (p, T) row) = fst (fold_row ad base (p, T') row)" for T T'
    by (simp add: fold_row_def fold_claude_row_def Let_def case_prod_beta split: option.split)
  then show ?case
    using Cons [of "fst (fold_row ad base (p, T) row)" "snd (fold_row ad base (p, T) row)" "snd (fold_row ad base (p, T') row)"]
    by (metis foldl_Cons prod.collapse)
qed simp

lemma scan_append: "fst (foldl (fold_row ad 0) (fst (scan ad revision rows), T) new) = fst (scan ad revision (rows @ new))"
  using fold_rows_untouched [of ad 0 "fst (scan ad revision rows)" T new "snd (scan ad revision rows)"] by (simp add: scan_def)

lemma extend_projects:
  assumes proj: "projects ad revision rows p"
  shows "projects ad revision (rows @ new) (extend ad p new)"
proof (cases "new = []")
  case False
  let ?n = "length (np_entries p)"
  let ?p0 = "p\<lparr>np_version := np_version p + 1\<rparr>"
  let ?F = "np_forks p" and ?B = "np_branch_by_uuid p"
  obtain p1 T where p1: "foldl (fold_row ad ?n) (?p0, {}) new = (p1, T)" by fastforce
  obtain D ch where D: "foldl refork (np_file_dags p1, False) (sorted_list_of_set T) = (D, ch)" by fastforce
  have "row_inv ?F ?B (np_epoch p) (np_forks_version p) ?p0 {}" using proj by (simp add: projects_def row_inv_def positions_ok_def)
  then have inv: "row_inv ?F ?B (np_epoch p) (np_forks_version p) p1 T"
    using row_inv_fold_rows [where ad = ad and base = ?n and rows = new and p = ?p0 and T = "{}"] p1 by simp
  have "core ?p0 = fst (scan ad revision rows)" using proj by (simp add: projects_def core_def)
  then have core1: "core p1 = fst (scan ad revision (rows @ new))"
    using core_fold_rows [of ad ?n ?p0 "{}" new] p1 scan_append [of ad revision rows "{}" new] by (simp add: prod_eq_iff)
  have "finite T" using inv finite_subset [of T "{..<length (np_file_dags p1)}"] by (simp add: row_inv_def dags_ok_def)
  then have reforked: "dags_ok D {}" "map bare_dag D = map bare_dag (np_file_dags p1)" "\<not> ch \<longrightarrow> D = np_file_dags p1"
    using reforks_ok [OF _ D] inv by (simp_all add: row_inv_def)
  show ?thesis
  proof (cases ch)
    case True
    let ?p2 = "p1\<lparr>np_file_dags := D, np_forks_version := np_version p1\<rparr>"
    have "core ?p2 = core p1" using dags_core [OF reforked(2)] by (simp add: core_def)
    moreover have "positions_ok ?p2" using inv map_eq_imp_length_eq [OF reforked(2)] by (simp add: row_inv_def positions_ok_def)
    ultimately show ?thesis
      using rebuild_projects [of ?p2 ad revision "rows @ new" ?n] core1 reforked(1) False p1 D True by (simp add: extend_def)
  next
    case nochange: False
    let ?q = "p1\<lparr>np_entries := take ?n (np_entries p1) @ map (set_branch ?B) (drop ?n (np_entries p1))\<rparr>"
    have q: "extend ad p new = ?q"
      using False p1 D nochange reforked(3) inv by (simp add: extend_def row_inv_def Let_def)
    have ext: "extending (np_entries p) (np_changes p) (np_version p + 1) p1"
      using extending_fold_rows [OF extending_start [of ?p0], of ad "{}" new] p1 by simp
    have "core ?q = core p1"
    proof -
      have "map bare_entry (map (set_branch ?B) xs) = map bare_entry xs" for xs :: "'c native_feed_entry list" by (simp add: set_branch_ok)
      then have "map bare_entry (np_entries ?q) = map bare_entry (np_entries p1)"
        by (metis append_take_drop_id map_append native_projection.select_convs(6) native_projection.surjective native_projection.update_convs(6))
      then show ?thesis by (simp add: core_def)
    qed
    moreover have "min (length (np_entries p1)) ?n + (length (np_entries p1) - ?n) = length (np_entries p1)" by simp
    then have "row_inv ?F ?B (np_epoch p) (np_forks_version p) ?q {}"
      using inv reforked(1,3) nochange by (simp add: row_inv_def positions_ok_def)
    moreover have "fe_branch e = branch_of_entry ?B e" if e: "e \<in> set (np_entries ?q)" for e
    proof -
      consider i where "i < ?n" "e = np_entries p1 ! i" | e' where "e = set_branch ?B e'"
        using e ext by (fastforce simp: in_set_conv_nth extending_def)
      then show ?thesis
      proof cases
        case (1 i)
        then show ?thesis using ext proj by (simp add: extending_def projects_def branch_of_entry_def)
      qed (simp add: set_branch_ok)
    qed
    ultimately show ?thesis using inv core1 unfolding q by (simp add: projects_def row_inv_def)
  qed
qed (use proj in \<open>simp add: extend_def\<close>)

lemma extends_project: "projects ad revision rows p \<Longrightarrow> projects ad revision (rows @ concat bs) (foldl (extend ad) p bs)"
proof (induction bs arbitrary: rows p)
  case (Cons b bs)
  then show ?case using Cons.IH [OF extend_projects [OF Cons.prems, of b]] by simp
qed simp

text \<open>A projection of the rows is determined by them.\<close>

lemma projects_dags:
  assumes "dags_ok D {}" "dags_ok D' {}" "map bare_dag D = map bare_dag D'"
  shows "D = D'"
proof (rule nth_equalityI)
  show len: "length D = length D'" using map_eq_imp_length_eq [OF assms(3)] .
  fix i assume i: "i < length D"
  then have bare: "bare_dag (D ! i) = bare_dag (D' ! i)" using assms(3) len by (metis nth_map)
  then have "fg_records (D ! i) = fg_records (D' ! i)" "fg_leaf_hint (D ! i) = fg_leaf_hint (D' ! i)"
    by (cases "D ! i"; cases "D' ! i"; simp add: bare_dag_def)+
  then have "fg_fork (D ! i) = fg_fork (D' ! i)" using assms(1,2) i len by (simp add: dags_ok_def fork_view_def)
  then show "D ! i = D' ! i" using bare by (cases "D ! i"; cases "D' ! i"; simp add: bare_dag_def)
qed

lemma projects_entries:
  assumes "\<forall>e \<in> set es. fe_branch e = branch_of_entry B e" "\<forall>e \<in> set es'. fe_branch e = branch_of_entry B e" "map bare_entry es = map bare_entry es'"
  shows "es = es'"
proof (rule nth_equalityI)
  show len: "length es = length es'" using map_eq_imp_length_eq [OF assms(3)] .
  fix i assume i: "i < length es"
  then have bare: "bare_entry (es ! i) = bare_entry (es' ! i)" using assms(3) len by (metis nth_map)
  then have "fe_uuid (es ! i) = fe_uuid (es' ! i)" by (cases "es ! i"; cases "es' ! i"; simp add: bare_entry_def)
  then have "fe_branch (es ! i) = fe_branch (es' ! i)" using assms(1,2) i len by (simp add: branch_of_entry_def)
  then show "es ! i = es' ! i" using bare by (cases "es ! i"; cases "es' ! i"; simp add: bare_entry_def)
qed

lemma projects_unique:
  assumes "projects ad revision rows p" "projects ad revision rows q"
  shows "visible p = visible q"
proof -
  have core: "core p = core q" using assms by (simp add: projects_def)
  then have sel: "map bare_dag (np_file_dags p) = map bare_dag (np_file_dags q)" "map bare_entry (np_entries p) = map bare_entry (np_entries q)"
    by (metis core_sel(7), metis core_sel(6))
  have ok: "dags_ok (np_file_dags p) {}" "dags_ok (np_file_dags q) {}"
    "np_branch_by_uuid p = branches_of_dags (np_file_dags p)" "np_branch_by_uuid q = branches_of_dags (np_file_dags q)"
    "np_forks p = forks_of_dags (np_file_dags p)" "np_forks q = forks_of_dags (np_file_dags q)"
    "\<forall>e \<in> set (np_entries p). fe_branch e = branch_of_entry (np_branch_by_uuid p) e"
    "\<forall>e \<in> set (np_entries q). fe_branch e = branch_of_entry (np_branch_by_uuid q) e"
    using assms unfolding projects_def row_inv_def by metis+
  have D: "np_file_dags p = np_file_dags q" using ok(1,2) sel(1) by (rule projects_dags)
  then have B: "np_branch_by_uuid p = np_branch_by_uuid q" "np_forks p = np_forks q" using ok(3-6) by metis+
  have E: "np_entries p = np_entries q"
    using ok(7,8) sel(2) unfolding B by (rule projects_entries)
  show ?thesis using core D B E by (cases p; cases q) (simp add: core_def visible_def)
qed

section \<open>Differences\<close>

text \<open>What the log of a projection holds after an extension: only newer versions, and every changed entry.\<close>

definition later :: "('n, 'x) native_projection \<Rightarrow> ('n, 'x) native_projection \<Rightarrow> bool" where
  "later p q \<longleftrightarrow>
     np_epoch q = np_epoch p \<and> np_version p \<le> np_version q \<and> length (np_entries p) \<le> length (np_entries q) \<and>
     (\<exists>new. np_changes q = np_changes p @ new \<and> (\<forall>(v, i) \<in> set new. np_version p < v \<and> v \<le> np_version q) \<and>
        (\<forall>i < length (np_entries p). np_entries q ! i \<noteq> np_entries p ! i \<longrightarrow> i \<in> snd ` set new)) \<and>
     (np_forks q \<noteq> np_forks p \<longrightarrow> np_forks_version q > np_version p) \<and> np_forks_version p \<le> np_forks_version q"

definition log_ok :: "('n, 'x) native_projection \<Rightarrow> bool" where
  "log_ok p \<longleftrightarrow> (\<forall>(v, i) \<in> set (np_changes p). v \<le> np_version p) \<and> np_forks_version p \<le> np_version p"

lemma later_refl: "later p p"
  by (simp add: later_def)

lemma later_trans:
  assumes "later p q" "later q r"
  shows "later p r"
proof -
  obtain n1 where n1: "np_changes q = np_changes p @ n1" "\<forall>(v, i) \<in> set n1. np_version p < v \<and> v \<le> np_version q"
      "\<forall>i < length (np_entries p). np_entries q ! i \<noteq> np_entries p ! i \<longrightarrow> i \<in> snd ` set n1"
    using assms(1) by (auto simp: later_def)
  obtain n2 where n2: "np_changes r = np_changes q @ n2" "\<forall>(v, i) \<in> set n2. np_version q < v \<and> v \<le> np_version r"
      "\<forall>i < length (np_entries q). np_entries r ! i \<noteq> np_entries q ! i \<longrightarrow> i \<in> snd ` set n2"
    using assms(2) by (auto simp: later_def)
  have mono: "np_version p \<le> np_version q" "np_version q \<le> np_version r" "length (np_entries p) \<le> length (np_entries q)"
    using assms by (simp_all add: later_def)
  have "np_changes r = np_changes p @ (n1 @ n2)" using n1(1) n2(1) by simp
  moreover have "\<forall>(v, i) \<in> set (n1 @ n2). np_version p < v \<and> v \<le> np_version r" using n1(2) n2(2) mono by fastforce
  moreover have "\<forall>i < length (np_entries p). np_entries r ! i \<noteq> np_entries p ! i \<longrightarrow> i \<in> snd ` set (n1 @ n2)"
  proof (intro allI impI)
    fix i assume i: "i < length (np_entries p)" "np_entries r ! i \<noteq> np_entries p ! i"
    then have "i \<in> snd ` set n1 \<or> i \<in> snd ` set n2" using n1(3) n2(3) mono(3) by (cases "np_entries q ! i = np_entries p ! i") auto
    then show "i \<in> snd ` set (n1 @ n2)" by auto
  qed
  moreover have "np_forks r \<noteq> np_forks p \<longrightarrow> np_forks_version r > np_version p"
    using assms mono by (cases "np_forks q = np_forks p") (auto simp: later_def)
  ultimately show ?thesis using assms mono unfolding later_def by (intro conjI exI [of _ "n1 @ n2"]) simp_all
qed

lemma rebuild_log:
  "\<exists>log. np_changes (rebuild_branches b p) = np_changes p @ log \<and> fst ` set log \<subseteq> {np_version p} \<and>
     (\<forall>i < length (np_entries p). i < b \<longrightarrow> np_entries (rebuild_branches b p) ! i \<noteq> np_entries p ! i \<longrightarrow> i \<in> snd ` set log)"
proof -
  let ?B = "branches_of_dags (np_file_dags p)"
  let ?log = "map (\<lambda>(i, e). (np_version p, i)) (filter (\<lambda>(i, e). fe_branch e \<noteq> branch_of_entry ?B e \<and> i < b) (enumerate 0 (np_entries p)))"
  have "i \<in> snd ` set ?log" if "i < length (np_entries p)" "i < b" "np_entries (rebuild_branches b p) ! i \<noteq> np_entries p ! i" for i
  proof -
    have "fe_branch (np_entries p ! i) \<noteq> branch_of_entry ?B (np_entries p ! i)"
      using that by (auto simp: rebuild_entries set_branch_def)
    then show ?thesis using that by (auto simp: image_iff in_set_enumerate_eq intro!: bexI [of _ "(i, np_entries p ! i)"])
  qed
  moreover have "np_changes (rebuild_branches b p) = np_changes p @ ?log" by (simp add: rebuild_branches_def Let_def)
  moreover have "fst ` set ?log \<subseteq> {np_version p}" by auto
  ultimately show ?thesis by blast
qed

lemma later_extend:
  assumes proj: "projects ad revision done p" and log: "log_ok p"
  shows "later p (extend ad p rows) \<and> log_ok (extend ad p rows)"
proof (cases "rows = []")
  case True
  then show ?thesis using log by (simp add: extend_def later_refl)
next
  case False
  let ?n = "length (np_entries p)" and ?v = "np_version p + 1"
  let ?p0 = "p\<lparr>np_version := ?v\<rparr>"
  obtain p1 T where p1: "foldl (fold_row ad ?n) (?p0, {}) rows = (p1, T)" by fastforce
  obtain D ch where D: "foldl refork (np_file_dags p1, False) (sorted_list_of_set T) = (D, ch)" by fastforce
  have "row_inv (np_forks p) (np_branch_by_uuid p) (np_epoch p) (np_forks_version p) ?p0 {}"
    using proj by (simp add: projects_def row_inv_def positions_ok_def)
  then have same: "np_forks p1 = np_forks p" "np_epoch p1 = np_epoch p" "np_forks_version p1 = np_forks_version p"
    using row_inv_fold_rows [where ad = ad and base = ?n and rows = rows and p = ?p0 and T = "{}"] p1 by (simp_all add: row_inv_def)
  have ext: "extending (np_entries p) (np_changes p) ?v p1"
    using extending_fold_rows [OF extending_start [of ?p0], of ad "{}" rows] p1 by simp
  then obtain new where new: "np_changes p1 = np_changes p @ new" "fst ` set new \<subseteq> {?v}" "\<forall>i < ?n. np_entries p1 ! i \<noteq> np_entries p ! i \<longrightarrow> i \<in> snd ` set new"
    and p1_len: "?n \<le> length (np_entries p1)" "np_version p1 = ?v"
    by (auto simp: extending_def)
  define q where "q = extend ad p rows"
  have "\<exists>more_log. np_changes q = np_changes p @ new @ more_log \<and> fst ` set more_log \<subseteq> {?v} \<and>
      (\<forall>i < ?n. np_entries q ! i \<noteq> np_entries p1 ! i \<longrightarrow> i \<in> snd ` set more_log) \<and> length (np_entries q) = length (np_entries p1) \<and>
      np_version q = ?v \<and> np_epoch q = np_epoch p \<and> (np_forks q = np_forks p \<and> np_forks_version q = np_forks_version p \<or> np_forks_version q = ?v)"
  proof (cases ch)
    case True
    then have q: "q = rebuild_branches ?n (p1\<lparr>np_file_dags := D, np_forks_version := np_version p1\<rparr>)"
      using False p1 D by (simp add: extend_def q_def)
    then show ?thesis
      using rebuild_log [of ?n "p1\<lparr>np_file_dags := D, np_forks_version := np_version p1\<rparr>"] p1_len same new(1)
      by (auto simp: rebuild_entries) (simp_all add: rebuild_branches_def Let_def)
  next
    case nochange: False
    then have "q = p1\<lparr>np_file_dags := D, np_entries := take ?n (np_entries p1) @ map (set_branch (np_branch_by_uuid p1)) (drop ?n (np_entries p1))\<rparr>"
      using False p1 D by (simp add: extend_def q_def Let_def)
    then show ?thesis using p1_len same new(1) by (intro exI [of _ "[]"]) (simp add: nth_append)
  qed
  then obtain more_log where q: "np_changes q = np_changes p @ (new @ more_log)" "fst ` set more_log \<subseteq> {?v}"
      "\<forall>i < ?n. np_entries q ! i \<noteq> np_entries p1 ! i \<longrightarrow> i \<in> snd ` set more_log" "length (np_entries q) = length (np_entries p1)"
      "np_version q = ?v" "np_epoch q = np_epoch p" "np_forks q = np_forks p \<and> np_forks_version q = np_forks_version p \<or> np_forks_version q = ?v"
    by auto
  have logged: "\<forall>(v, i) \<in> set (new @ more_log). np_version p < v \<and> v \<le> np_version q" using new(2) q(2,5) by fastforce
  have "\<forall>i < ?n. np_entries q ! i \<noteq> np_entries p ! i \<longrightarrow> i \<in> snd ` set (new @ more_log)" using new(3) q(3) by (metis Un_iff image_Un set_append)
  moreover have "np_forks_version p \<le> np_version p" using log by (simp add: log_ok_def)
  ultimately have "later p q"
    unfolding later_def using q(1,4-7) logged p1_len by (intro conjI exI [of _ "new @ more_log"]) auto
  moreover have "log_ok q" using log q logged by (fastforce simp: log_ok_def)
  ultimately show ?thesis by (simp add: q_def)
qed

lemma later_extends:
  "projects ad revision done p \<Longrightarrow> log_ok p \<Longrightarrow> later p (foldl (extend ad) p bs) \<and> log_ok (foldl (extend ad) p bs)"
proof (induction bs arbitrary: "done" p)
  case (Cons b bs)
  then show ?case
    using Cons.IH [OF extend_projects [OF Cons.prems(1), of b]] later_extend [OF Cons.prems, of b] later_trans by auto
qed (simp add: later_refl)

lemma log_ok_build: "log_ok (build ad epoch rows revision)"
proof -
  have "extending [] [] 0 (projection_new epoch revision)" by (simp add: extending_def projection_new_def)
  then have ext: "extending [] [] 0 (fst (foldl (fold_row ad 0) (projection_new epoch revision, {}) rows))"
    using extending_fold_rows [of "[]" "[]" 0 "projection_new epoch revision" ad "{}" rows] by simp
  have "row_inv [] Map.empty epoch 0 (fst (foldl (fold_row ad 0) (projection_new epoch revision, {}) rows)) (snd (foldl (fold_row ad 0) (projection_new epoch revision, {}) rows))"
    by (rule row_inv_fold_rows [OF row_inv_new])
  then show ?thesis using ext
    by (auto simp: build_def log_ok_def rebuild_branches_def Let_def case_prod_beta extending_def row_inv_def)
qed

text \<open>The consumer's side: replace the entries it is told to, and append.\<close>

definition apply_delta :: "'x native_feed_entry list \<Rightarrow> 'x native_feed_delta \<Rightarrow> 'x native_feed_entry list" where
  "apply_delta held d = foldl (\<lambda>es (i, e). es[i := e]) (take (dl_appended_from d) held) (dl_replaced d) @ dl_appended d"

lemma foldl_update_nth:
  "j < length xs \<Longrightarrow> foldl (\<lambda>es (i, e). es[i := e]) xs (map (\<lambda>i. (i, ys ! i)) is) ! j = (if j \<in> set is then ys ! j else xs ! j)"
  by (induction "is" arbitrary: xs) auto

lemma foldl_update_length: "length (foldl (\<lambda>es (i, e). es[i := e]) xs us) = length xs"
  by (induction us arbitrary: xs) auto

lemma delta_of_later:
  assumes "later p q" "log_ok p"
  shows "\<exists>d. delta_since q (cursor p) = Some d \<and> apply_delta (np_entries p) d = np_entries q \<and> (dl_forks_changed d \<or> np_forks q = np_forks p)"
proof -
  let ?n = "length (np_entries p)"
  obtain new where new: "np_changes q = np_changes p @ new" "\<forall>(v, i) \<in> set new. np_version p < v"
      "\<forall>i < ?n. np_entries q ! i \<noteq> np_entries p ! i \<longrightarrow> i \<in> snd ` set new"
    using assms(1) by (auto simp: later_def)
  have len: "?n \<le> length (np_entries q)" "np_epoch q = np_epoch p" using assms(1) by (simp_all add: later_def)
  have "takeWhile (\<lambda>(version, _). version \<le> np_version p) (np_changes q) = np_changes p"
    using new(1,2) assms(2) by (cases new) (auto simp: log_ok_def takeWhile_append)
  then have "drop (partition_point (\<lambda>(version, _). version \<le> np_version p) (np_changes q)) (np_changes q) = new"
    using new(1) by (simp add: partition_point_def)
  let ?is = "sorted_list_of_set (set (filter (\<lambda>i. i < ?n) (map snd new)))"
  have d: "delta_since q (cursor p) = Some \<lparr>dl_appended_from = ?n, dl_appended = drop ?n (np_entries q), dl_replaced = map (\<lambda>i. (i, np_entries q ! i)) ?is,
      dl_forks_changed = (np_forks_version q > np_version p)\<rparr>"
    using len \<open>drop _ _ = new\<close> by (simp add: delta_since_def cursor_def)
  have "foldl (\<lambda>es (i, e). es[i := e]) (np_entries p) (map (\<lambda>i. (i, np_entries q ! i)) ?is) = take ?n (np_entries q)"
    using new(3) len(1) by (intro nth_equalityI) (auto simp: foldl_update_length foldl_update_nth)
  then show ?thesis using d assms(1) by (auto simp: apply_delta_def later_def)
qed

section \<open>Properties\<close>

text \<open>
  C21. Extending is rebuilding: a projection built over the rows \<open>a\<close> and extended batch by batch equals the one
  built at once over all the rows, in its entries, branches, forks, files and every table it will be extended
  with; only the epoch, the version counters and the log of changes differ.  It holds for all line adapters
  and all normalizers.
\<close>

theorem extend_is_build:
  "visible (foldl (extend ad) (build ad epoch a revision) batches) = visible (build ad epoch' (a @ concat batches) revision)"
  by (rule projects_unique [OF extends_project [OF build_projects] build_projects])

text \<open>
  C22. A consumer never diverges: whatever a consumer holds at a cursor, the difference it is sent after any
  number of further extensions, applied to what it holds, gives exactly the entries of the projection; and
  when it is told that the forks did not change, they did not.
\<close>

theorem delta_exact:
  fixes ad :: "('l, 'n, 'x) adapters"
  defines "earlier \<equiv> \<lambda>epoch rows revision batches. foldl (extend ad) (build ad epoch rows revision) batches"
  shows "\<exists>d. delta_since (foldl (extend ad) (earlier epoch rows revision batches) further) (cursor (earlier epoch rows revision batches)) = Some d \<and>
      apply_delta (np_entries (earlier epoch rows revision batches)) d = np_entries (foldl (extend ad) (earlier epoch rows revision batches) further) \<and>
      (dl_forks_changed d \<or> np_forks (foldl (extend ad) (earlier epoch rows revision batches) further) = np_forks (earlier epoch rows revision batches))"
proof -
  let ?p = "earlier epoch rows revision batches"
  have proj: "projects ad revision (rows @ concat batches) ?p" unfolding earlier_def by (rule extends_project [OF build_projects])
  have "log_ok ?p" unfolding earlier_def using later_extends [OF build_projects log_ok_build] by blast
  then show ?thesis using later_extends [OF proj] delta_of_later by blast
qed

end
