(* ===== verification/FeedCache.thy ===== *)
theory FeedCache
  imports NativeImport
begin

text \<open>
  What a chat connected to a session is sent (\<^verbatim>\<open>feed_since\<close> and \<^verbatim>\<open>ProjectionCache\<close> in
  \<^verbatim>\<open>services/claude_transcript_ingest.rs\<close>): the projection of the session is kept in a cell of a bounded
  cache, brought up to date with the rows behind its last one or rebuilt, and described as a whole or as
  the difference since a cursor.  Cells are shared, so they live in a store and the cache holds their
  addresses; a feed that still has the cell of an evicted session goes on with it.
\<close>

section \<open>The cache\<close>

record ('n, 'x) session_projection =
  sj_projection :: "('n, 'x) native_projection"
  sj_linked_sids :: "string list"

record cached_projection =
  cp_cell :: nat
  cp_last_used :: nat

record ('n, 'x) projection_cache =
  pc_sessions :: "(uuid \<times> cached_projection) list"
  pc_subscribers :: "uuid \<rightharpoonup> nat"
  pc_clock :: nat
  pc_cells :: "nat \<Rightarrow> ('n, 'x) session_projection option"
  pc_next_cell :: nat
  pc_next_epoch :: nat

definition PROJECTION_CACHE_CAPACITY :: nat where
  "PROJECTION_CACHE_CAPACITY = 32"


definition cache_remove :: "uuid \<Rightarrow> ('n, 'x) projection_cache \<Rightarrow> ('n, 'x) projection_cache" where
  "cache_remove sid c = c\<lparr>pc_sessions := filter (\<lambda>e. fst e \<noteq> sid) (pc_sessions c)\<rparr>"

text \<open>\<open>min_by_key\<close>: the first element with the least key.\<close>

fun min_by_key :: "('a \<Rightarrow> 'k::linorder) \<Rightarrow> 'a list \<Rightarrow> 'a option" where
  "min_by_key k [] = None"
| "min_by_key k (x # xs) = (case min_by_key k xs of None \<Rightarrow> Some x | Some y \<Rightarrow> if k x \<le> k y then Some x else Some y)"

definition eviction_key :: "('n, 'x) projection_cache \<Rightarrow> uuid \<times> cached_projection \<Rightarrow> bool \<times> nat" where
  "eviction_key c e = (pc_subscribers c (fst e) \<noteq> None, cp_last_used (snd e))"

definition evict_candidate :: "uuid \<Rightarrow> ('n, 'x) projection_cache \<Rightarrow> uuid option" where
  "evict_candidate sid c = map_option fst (min_by_key (eviction_key c) (filter (\<lambda>e. fst e \<noteq> sid) (pc_sessions c)))"

text \<open>The entry of the session, used now; a new one has an empty cell.\<close>

definition cache_touch :: "uuid \<Rightarrow> ('n, 'x) projection_cache \<Rightarrow> nat \<times> ('n, 'x) projection_cache" where
  "cache_touch sid c =
     (let clock = pc_clock c + 1 in
      case map_of (pc_sessions c) sid of
        Some e \<Rightarrow> (cp_cell e, c\<lparr>pc_clock := clock,
          pc_sessions := map (\<lambda>(i, e). (i, if i = sid then e\<lparr>cp_last_used := clock\<rparr> else e)) (pc_sessions c)\<rparr>)
      | None \<Rightarrow> (pc_next_cell c, c\<lparr>pc_clock := clock, pc_next_cell := pc_next_cell c + 1, pc_cells := (pc_cells c)(pc_next_cell c := None),
          pc_sessions := pc_sessions c @ [(sid, \<lparr>cp_cell = pc_next_cell c, cp_last_used = clock\<rparr>)]\<rparr>))"

definition cache_cell :: "uuid \<Rightarrow> ('n, 'x) projection_cache \<Rightarrow> nat \<times> ('n, 'x) projection_cache" where
  "cache_cell sid c =
     (let (cell, c1) = cache_touch sid c in
      (cell,
       if length (pc_sessions c1) > PROJECTION_CACHE_CAPACITY then
         (case evict_candidate sid c1 of None \<Rightarrow> c1 | Some i \<Rightarrow> cache_remove i c1)
       else c1))"

definition subscribe_feed :: "uuid \<Rightarrow> ('n, 'x) projection_cache \<Rightarrow> ('n, 'x) projection_cache" where
  "subscribe_feed sid c =
     snd (cache_cell sid (c\<lparr>pc_subscribers := (pc_subscribers c)(sid \<mapsto> (case pc_subscribers c sid of None \<Rightarrow> 0 | Some n \<Rightarrow> n) + 1)\<rparr>))"

definition drop_subscription :: "uuid \<Rightarrow> ('n, 'x) projection_cache \<Rightarrow> ('n, 'x) projection_cache" where
  "drop_subscription sid c =
     (case pc_subscribers c sid of
        None \<Rightarrow> c
      | Some claims \<Rightarrow>
          if claims - 1 = 0 then cache_remove sid (c\<lparr>pc_subscribers := (pc_subscribers c)(sid := None)\<rparr>)
          else c\<lparr>pc_subscribers := (pc_subscribers c)(sid \<mapsto> claims - 1)\<rparr>)"

section \<open>The feed of a session\<close>

text \<open>The rows of a session with the executions they are attributed to, which the queries compute.\<close>

type_synonym attribution = "cli_native_record \<Rightarrow> uuid option \<times> uuid option"

definition attributed :: "attribution \<Rightarrow> session_native_record \<Rightarrow> projection_row" where
  "attributed at v =
     \<lparr>sn_record = sn_record v, sn_seq = sn_seq v, sn_file = sn_file v, sn_link_cwd = sn_link_cwd v,
      sn_linked_execution_process_id = fst (at (sn_record v)), sn_bound_turn_execution_process_id = snd (at (sn_record v))\<rparr>"

record native_ingest_health =
  ih_unknown_kinds :: nat
  ih_rescans :: nat
  ih_quarantined_files :: nat
  ih_watch_degraded :: bool
  ih_foreign_writer_seen_at :: "datetime option"
  ih_files :: "native_file_import_health list"

record 'x native_feed_snapshot =
  ns_revision :: nat
  ns_seq :: int
  ns_entries :: "'x native_feed_entry list"
  ns_forks :: "native_feed_fork list"
  ns_health :: native_ingest_health

record 'x native_feed_update =
  nu_revision :: nat
  nu_seq :: int
  nu_delta :: "'x native_feed_delta"
  nu_forks :: "native_feed_fork list option"
  nu_health :: native_ingest_health

datatype 'x native_feed_change = FeedFull "'x native_feed_snapshot" | FeedDelta "'x native_feed_update"

definition ingest_health :: "ingest_state \<Rightarrow> bool \<Rightarrow> uuid \<Rightarrow> native_ingest_health" where
  "ingest_health ig degraded sid =
     \<lparr>ih_unknown_kinds = ig_unknown_kinds ig, ih_rescans = ig_rescans ig, ih_quarantined_files = card (ig_quarantined ig),
      ih_watch_degraded = degraded, ih_foreign_writer_seen_at = latest_foreign_writer_seen_for_session (ig_feed ig) sid, ih_files = []\<rparr>"

definition snapshot :: "('n, 'x) native_projection \<Rightarrow> int \<Rightarrow> native_ingest_health \<Rightarrow> 'x native_feed_snapshot" where
  "snapshot p seq health =
     \<lparr>ns_revision = np_revision p, ns_seq = seq, ns_entries = np_entries p, ns_forks = np_forks p, ns_health = health\<lparr>ih_files := np_files p\<rparr>\<rparr>"

text \<open>The cached projection extended by the rows behind its last one, when it is still the same feed.\<close>

definition try_extend ::
    "('l, 'n, 'x) adapters \<Rightarrow> attribution \<Rightarrow> feed \<Rightarrow> uuid \<Rightarrow> nat \<Rightarrow> string list \<Rightarrow> ('n, 'x) session_projection option \<Rightarrow> ('n, 'x) session_projection option" where
  "try_extend ad at s sid rv linked_sids cached =
     (case cached of
        None \<Rightarrow> None
      | Some current \<Rightarrow>
          if np_revision (sj_projection current) = rv \<and> sj_linked_sids current = linked_sids then
            (let rows = map (attributed at) (list_for_session_after s sid (np_last_row_seq (sj_projection current))) in
             if can_extend (sj_projection current) rows then Some (current\<lparr>sj_projection := Projection.extend ad (sj_projection current) rows\<rparr>) else None)
          else None)"

definition feed_change ::
    "('n, 'x) native_projection \<Rightarrow> int \<Rightarrow> native_ingest_health \<Rightarrow> native_feed_cursor option \<Rightarrow> 'x native_feed_change" where
  "feed_change p seq health since =
     (case Option.bind since (delta_since p) of
        None \<Rightarrow> FeedFull (snapshot p seq health)
      | Some delta \<Rightarrow> FeedDelta
          \<lparr>nu_revision = np_revision p, nu_seq = seq, nu_delta = delta,
           nu_forks = (if dl_forks_changed delta then Some (np_forks p) else None), nu_health = health\<lparr>ih_files := np_files p\<rparr>\<rparr>)"

record ('n, 'x) feed_service =
  fs_ingest :: ingest_state
  fs_cache :: "('n, 'x) projection_cache"

datatype feed_error = FeedSessionNotFound uuid

definition feed_since ::
    "('l, 'n, 'x) adapters \<Rightarrow> attribution \<Rightarrow> bool \<Rightarrow> uuid \<Rightarrow> native_feed_cursor option \<Rightarrow> ('n, 'x) feed_service
       \<Rightarrow> (feed_error + 'x native_feed_change \<times> native_feed_cursor) \<times> ('n, 'x) feed_service" where
  "feed_since ad at degraded sid since sv =
     (let ig = fs_ingest sv; s = ig_feed ig in
      case find_session (nf_sessions s) sid of
        None \<Rightarrow> (Inl (FeedSessionNotFound sid), sv)
      | Some session \<Rightarrow>
          (let (cell, c1) = cache_cell sid (fs_cache sv); rv = revision ig sid; seq = latest_seq s sid; linked_sids = claude_session_ids_for_session s sid;
               (current, c2) =
                 (case try_extend ad at s sid rv linked_sids (pc_cells c1 cell) of
                    Some current \<Rightarrow> (current, c1)
                  | None \<Rightarrow>
                      (\<lparr>sj_projection = build ad (pc_next_epoch c1) (map (attributed at) (list_for_session s sid)) rv, sj_linked_sids = linked_sids\<rparr>,
                       c1\<lparr>pc_next_epoch := pc_next_epoch c1 + 1\<rparr>));
               c3 = c2\<lparr>pc_cells := (pc_cells c2)(cell \<mapsto> current)\<rparr>;
               p = sj_projection current; health = ingest_health ig degraded sid in
           (Inr (feed_change p seq health since, cursor p), sv\<lparr>fs_cache := c3\<rparr>)))"

text \<open>The safety net of the publisher: a link that was changed behind the service invalidates its sessions.\<close>

definition check_moved_link :: "uuid \<times> cached_projection \<Rightarrow> ('n, 'x) feed_service \<Rightarrow> ('n, 'x) feed_service" where
  "check_moved_link e sv =
     (case pc_cells (fs_cache sv) (cp_cell (snd e)) of
        None \<Rightarrow> sv
      | Some cached \<Rightarrow>
          if claude_session_ids_for_session (ig_feed (fs_ingest sv)) (fst e) \<noteq> sj_linked_sids cached
          then sv\<lparr>fs_ingest := invalidate_revision (fst e) ((fs_ingest sv)\<lparr>ig_prune_pending := True\<rparr>)\<rparr>
          else sv)"

definition invalidate_moved_links :: "('n, 'x) feed_service \<Rightarrow> ('n, 'x) feed_service" where
  "invalidate_moved_links sv = foldl (\<lambda>sv e. check_moved_link e sv) sv (pc_sessions (fs_cache sv))"

text \<open>The listener for links that were persisted lagged: every cached session is invalidated.\<close>

definition invalidate_cached :: "('n, 'x) feed_service \<Rightarrow> ('n, 'x) feed_service" where
  "invalidate_cached sv =
     sv\<lparr>fs_ingest := foldl (\<lambda>ig e. invalidate_revision (fst e) ig) (fs_ingest sv) (pc_sessions (fs_cache sv))\<rparr>"

text \<open>A round of the publisher, after its notification or its safety tick; the announced maxima carry the revision.\<close>

definition publisher_round :: "bool \<Rightarrow> ('n, 'x) feed_service \<Rightarrow> ('n, 'x) feed_service \<times> (uuid \<times> int \<times> nat) list" where
  "publisher_round safety_tick sv =
     (let sv1 = (if safety_tick then invalidate_moved_links sv else sv);
          ig = fs_ingest sv1; (s, sent) = publish_pass (ig_feed ig) in
      (sv1\<lparr>fs_ingest := prune_outbox_if_pending (ig\<lparr>ig_feed := s\<rparr>)\<rparr>, map (\<lambda>(sid, seq). (sid, seq, revision ig sid)) sent))"

section \<open>The cache is bounded\<close>

definition cache_ok :: "('n, 'x) projection_cache \<Rightarrow> bool" where
  "cache_ok c \<longleftrightarrow>
     length (pc_sessions c) \<le> PROJECTION_CACHE_CAPACITY \<and> distinct (map fst (pc_sessions c)) \<and> distinct (map (cp_cell \<circ> snd) (pc_sessions c)) \<and>
     (\<forall>e \<in> set (pc_sessions c). cp_cell (snd e) < pc_next_cell c) \<and> (\<forall>i n. pc_subscribers c i = Some n \<longrightarrow> n > 0)"

lemma min_by_key_None [simp]: "min_by_key k xs = None \<longleftrightarrow> xs = []"
  by (cases xs) (auto split: option.splits)

lemma min_by_key_Some: "min_by_key k xs = Some x \<Longrightarrow> x \<in> set xs \<and> (\<forall>y \<in> set xs. k x \<le> k y)"
  by (induction xs arbitrary: x) (fastforce split: option.splits if_splits)+

lemma map_of_touched: "map_of xs k = Some e \<Longrightarrow> map_of (map (\<lambda>(i, e). (i, if i = k then e\<lparr>cp_last_used := n\<rparr> else e)) xs) k = Some (e\<lparr>cp_last_used := n\<rparr>)"
  by (induction xs) auto

lemma map_of_filter_other: "k \<noteq> i \<Longrightarrow> map_of (filter (\<lambda>e. fst e \<noteq> k) xs) i = map_of xs i"
  by (induction xs) auto

lemma cache_touch_spec:
  assumes ok: "cache_ok c" and run: "cache_touch sid c = (cell, c')"
  shows "distinct (map fst (pc_sessions c'))" "distinct (map (cp_cell \<circ> snd) (pc_sessions c'))" "\<forall>e \<in> set (pc_sessions c'). cp_cell (snd e) < pc_next_cell c'"
    "\<exists>e. map_of (pc_sessions c') sid = Some e \<and> cp_cell e = cell" "fst ` set (pc_sessions c') = insert sid (fst ` set (pc_sessions c))"
    "length (pc_sessions c') \<le> Suc (length (pc_sessions c))" "pc_subscribers c' = pc_subscribers c"
proof -
  have keep: "map fst (map (\<lambda>(i, e). (i, if i = sid then e\<lparr>cp_last_used := n\<rparr> else e)) xs) = map fst xs"
      "map (cp_cell \<circ> snd) (map (\<lambda>(i, e). (i, if i = sid then e\<lparr>cp_last_used := n\<rparr> else e)) xs) = map (cp_cell \<circ> snd) xs" for xs n
    by (simp_all add: case_prod_unfold)
  have "distinct (map fst (pc_sessions c')) \<and> distinct (map (cp_cell \<circ> snd) (pc_sessions c')) \<and> (\<forall>e \<in> set (pc_sessions c'). cp_cell (snd e) < pc_next_cell c') \<and>
    (\<exists>e. map_of (pc_sessions c') sid = Some e \<and> cp_cell e = cell) \<and> fst ` set (pc_sessions c') = insert sid (fst ` set (pc_sessions c)) \<and>
    length (pc_sessions c') \<le> Suc (length (pc_sessions c)) \<and> pc_subscribers c' = pc_subscribers c"
  proof (cases "map_of (pc_sessions c) sid")
    case None
    then have new: "sid \<notin> fst ` set (pc_sessions c)" by (simp add: map_of_eq_None_iff)
    let ?e = "\<lparr>cp_cell = pc_next_cell c, cp_last_used = pc_clock c + 1\<rparr>"
    have c': "pc_sessions c' = pc_sessions c @ [(sid, ?e)]" "pc_next_cell c' = pc_next_cell c + 1" "pc_subscribers c' = pc_subscribers c" "cell = pc_next_cell c"
      using None run by (auto simp: cache_touch_def)
    have "map_of (pc_sessions c @ [(sid, ?e)]) sid = Some ?e" using None by (simp add: map_add_def)
    moreover have cells: "\<forall>e \<in> set (pc_sessions c). cp_cell (snd e) < pc_next_cell c" using ok by (simp add: cache_ok_def)
    moreover have "pc_next_cell c \<notin> (cp_cell \<circ> snd) ` set (pc_sessions c)" using cells by auto
    ultimately show ?thesis using new ok unfolding c' by (auto simp: cache_ok_def less_SucI simp del: map_of_append)
  next
    case (Some e)
    let ?n = "Suc (pc_clock c)"
    let ?ss = "map (\<lambda>(i, e). (i, if i = sid then e\<lparr>cp_last_used := ?n\<rparr> else e)) (pc_sessions c)"
    have c': "c' = c\<lparr>pc_clock := ?n, pc_sessions := ?ss\<rparr>" "cell = cp_cell e" using Some run by (auto simp: cache_touch_def)
    have "fst ` set ?ss = fst ` set (pc_sessions c)" by (metis keep(1) list.set_map)
    moreover have "sid \<in> fst ` set (pc_sessions c)" using map_of_SomeD [OF Some] by force
    moreover have "map_of ?ss sid = Some (e\<lparr>cp_last_used := ?n\<rparr>)" using Some by (rule map_of_touched)
    moreover have "\<forall>e \<in> set ?ss. cp_cell (snd e) < pc_next_cell c" using ok by (auto simp: cache_ok_def split: if_splits)
    ultimately show ?thesis using ok unfolding c' by (simp add: keep cache_ok_def insert_absorb del: map_map)
  qed
  then show "distinct (map fst (pc_sessions c'))" "distinct (map (cp_cell \<circ> snd) (pc_sessions c'))" "\<forall>e \<in> set (pc_sessions c'). cp_cell (snd e) < pc_next_cell c'"
    "\<exists>e. map_of (pc_sessions c') sid = Some e \<and> cp_cell e = cell" "fst ` set (pc_sessions c') = insert sid (fst ` set (pc_sessions c))"
    "length (pc_sessions c') \<le> Suc (length (pc_sessions c))" "pc_subscribers c' = pc_subscribers c"
    by blast+
qed

lemma cache_cell_spec:
  assumes ok: "cache_ok c" and run: "cache_cell sid c = (cell, c')"
  shows "cache_ok c' \<and> (\<exists>e. map_of (pc_sessions c') sid = Some e \<and> cp_cell e = cell) \<and>
    (\<exists>c1 gone. cache_touch sid c = (cell, c1) \<and> pc_sessions c' = filter (\<lambda>e. fst e \<notin> gone) (pc_sessions c1) \<and> card gone \<le> 1 \<and>
       (\<forall>i e j e'. i \<in> gone \<longrightarrow> (i, e) \<in> set (pc_sessions c1) \<longrightarrow> (j, e') \<in> set (pc_sessions c1) \<longrightarrow> j \<noteq> sid \<longrightarrow>
          (pc_subscribers c i = None \<and> pc_subscribers c j \<noteq> None) \<or>
          ((pc_subscribers c i = None) = (pc_subscribers c j = None) \<and> cp_last_used e \<le> cp_last_used e')))"
proof -
  obtain c1 where touch: "cache_touch sid c = (cell, c1)" using run by (cases "cache_touch sid c") (simp add: cache_cell_def)
  note t = cache_touch_spec [OF ok touch]
  have subs: "\<forall>i n. pc_subscribers c1 i = Some n \<longrightarrow> n > 0" and small: "length (pc_sessions c) \<le> PROJECTION_CACHE_CAPACITY"
    using ok t(7) by (simp_all add: cache_ok_def)
  show ?thesis
  proof (cases "length (pc_sessions c1) > PROJECTION_CACHE_CAPACITY")
    case False
    then have c': "c' = c1" using run touch by (simp add: cache_cell_def)
    have "filter (\<lambda>e. fst e \<notin> {}) (pc_sessions c1) = pc_sessions c1" by simp
    moreover have "cache_ok c1" using False t(1-3) subs by (simp add: cache_ok_def)
    ultimately show ?thesis using t(4) touch unfolding c' by (intro conjI exI [of _ c1] exI [of _ "{}"]) auto
  next
    case True
    have two: "filter (\<lambda>e. fst e \<noteq> sid) (pc_sessions c1) \<noteq> []"
    proof
      assume none: "filter (\<lambda>e. fst e \<noteq> sid) (pc_sessions c1) = []"
      then have "set (map fst (pc_sessions c1)) \<subseteq> {sid}" by (auto simp: filter_empty_conv)
      then have "length (pc_sessions c1) \<le> 1" using distinct_card [OF t(1)] card_mono [of "{sid}" "set (map fst (pc_sessions c1))"] by simp
      then show False using True by (simp add: PROJECTION_CACHE_CAPACITY_def)
    qed
    then obtain x where x: "min_by_key (eviction_key c1) (filter (\<lambda>e. fst e \<noteq> sid) (pc_sessions c1)) = Some x" using min_by_key_None by (metis option.exhaust)
    note least = min_by_key_Some [OF x]
    have c': "c' = cache_remove (fst x) c1" using run touch True x by (simp add: cache_cell_def evict_candidate_def)
    have mem: "x \<in> set (pc_sessions c1)" "fst x \<noteq> sid" using least by auto
    have len: "length (pc_sessions c') < length (pc_sessions c1)"
      unfolding c' cache_remove_def using mem by (simp add: length_filter_less)
    have "cache_ok c'"
      using t(1-3,6) subs len small unfolding c' cache_remove_def by (auto simp: cache_ok_def distinct_map_filter)
    moreover have "map_of (pc_sessions c') sid = map_of (pc_sessions c1) sid"
      unfolding c' cache_remove_def using mem(2) map_of_filter_other by simp
    moreover have "(pc_subscribers c i = None \<and> pc_subscribers c j \<noteq> None) \<or>
        ((pc_subscribers c i = None) = (pc_subscribers c j = None) \<and> cp_last_used e \<le> cp_last_used e')"
      if ij: "i \<in> {fst x}" "(i, e) \<in> set (pc_sessions c1)" "(j, e') \<in> set (pc_sessions c1)" "j \<noteq> sid" for i e j e'
    proof -
      have "x = (i, e)" using eq_key_imp_eq_value [OF t(1), of i e "snd x"] mem ij by (cases x) auto
      moreover have "eviction_key c1 x \<le> eviction_key c1 (j, e')" using least ij by auto
      ultimately show ?thesis using t(7) by (auto simp: eviction_key_def less_eq_prod_def)
    qed
    moreover have "pc_sessions c' = filter (\<lambda>e. fst e \<notin> {fst x}) (pc_sessions c1)" by (simp add: c' cache_remove_def)
    ultimately show ?thesis using t(4) touch by (intro conjI exI [of _ c1] exI [of _ "{fst x}"]) auto
  qed
qed

text \<open>The cells of the entries after asking for a session: that of the session, or the ones they had.\<close>

lemma cache_cell_cells:
  assumes ok: "cache_ok c" and run: "cache_cell sid c = (cell, c')"
  shows "pc_next_epoch c' = pc_next_epoch c" "\<exists>e. (sid, e) \<in> set (pc_sessions c') \<and> cp_cell e = cell"
    "\<And>i e. (i, e) \<in> set (pc_sessions c') \<Longrightarrow>
       (\<exists>e0. (i, e0) \<in> set (pc_sessions c) \<and> pc_cells c' (cp_cell e) = pc_cells c (cp_cell e0)) \<or> i = sid \<and> pc_cells c' (cp_cell e) = None"
proof -
  obtain c1 where touch: "cache_touch sid c = (cell, c1)" using run by (cases "cache_touch sid c") (simp add: cache_cell_def)
  have sub: "set (pc_sessions c') \<subseteq> set (pc_sessions c1)" "pc_cells c' = pc_cells c1" "pc_next_epoch c' = pc_next_epoch c1"
    using run touch by (auto simp: cache_cell_def cache_remove_def split: if_splits option.splits)
  have "pc_next_epoch c1 = pc_next_epoch c" using touch by (auto simp: cache_touch_def Let_def split: option.splits)
  then show "pc_next_epoch c' = pc_next_epoch c" using sub by simp
  show "\<exists>e. (sid, e) \<in> set (pc_sessions c') \<and> cp_cell e = cell" using cache_cell_spec [OF ok run] map_of_SomeD by fast
  fix i e assume "(i, e) \<in> set (pc_sessions c')"
  then have e: "(i, e) \<in> set (pc_sessions c1)" using sub(1) by blast
  have below: "\<forall>x \<in> set (pc_sessions c). cp_cell (snd x) < pc_next_cell c" using ok by (simp add: cache_ok_def)
  show "(\<exists>e0. (i, e0) \<in> set (pc_sessions c) \<and> pc_cells c' (cp_cell e) = pc_cells c (cp_cell e0)) \<or> i = sid \<and> pc_cells c' (cp_cell e) = None"
  proof (cases "map_of (pc_sessions c) sid")
    case None
    then have c1: "pc_sessions c1 = pc_sessions c @ [(sid, \<lparr>cp_cell = pc_next_cell c, cp_last_used = pc_clock c + 1\<rparr>)]"
        "pc_cells c1 = (pc_cells c)(pc_next_cell c := None)"
      using touch by (auto simp: cache_touch_def)
    show ?thesis
    proof (cases "(i, e) \<in> set (pc_sessions c)")
      case True
      then have "cp_cell e \<noteq> pc_next_cell c" using below by fastforce
      then show ?thesis using True c1(2) sub(2) by auto
    next
      case False
      then show ?thesis using e c1 sub(2) by simp
    qed
  next
    case (Some e1)
    then have "pc_sessions c1 = map (\<lambda>(i, e). (i, if i = sid then e\<lparr>cp_last_used := pc_clock c + 1\<rparr> else e)) (pc_sessions c)" "pc_cells c1 = pc_cells c"
      using touch by (auto simp: cache_touch_def)
    then show ?thesis using e sub(2) by (auto split: if_splits)
  qed
qed




end
