(* ===== verification/FeedServe.thy ===== *)
theory FeedServe
  imports FeedCache FeedSafety ProjectionSafety
begin

text \<open>
  What a connected chat holds: under every interleaving of imports, pruning, moved links, evictions and
  reads, a consumer that applies the answers of \<^verbatim>\<open>feed_since\<close> holds exactly the projection of the rows
  of the session.
\<close>

section \<open>What a projection reads of a file\<close>

text \<open>
  A row carries its file, of which the entries and forks depend on the path and the generation only; the
  time of the last import is shown beside them.
\<close>

definition strip_file :: "cli_native_file \<Rightarrow> cli_native_file" where
  "strip_file f =
     \<lparr>fl_id = fl_id f, fl_claude_session_id = fl_claude_session_id f, fl_dir_path = fl_dir_path f, fl_file_name = fl_file_name f,
      fl_discovered_workspace_id = None, fl_dev = 0, fl_inode = 0, fl_generation = fl_generation f, fl_cursor_offset = 0, fl_next_line_seq = 0,
      fl_last_line_offset = 0, fl_last_line_hash = None, fl_observed_size = 0, fl_observed_mtime_ms = None,
      fl_last_import_at = None, fl_created_at = 0, fl_updated_at = 0\<rparr>"

definition strip_row :: "projection_row \<Rightarrow> projection_row" where
  "strip_row row = row\<lparr>sn_file := strip_file (sn_file row)\<rparr>"



lemma strip_row_sel [simp]:
  "sn_record (strip_row row) = sn_record row" "sn_seq (strip_row row) = sn_seq row" "sn_link_cwd (strip_row row) = sn_link_cwd row"
  "sn_file (strip_row row) = strip_file (sn_file row)" "row_origin (strip_row row) = row_origin row"
  by (simp_all add: strip_row_def row_origin_def)















section \<open>The rows of a session\<close>



lemma attributed_sel [simp]: "sn_seq (attributed at v) = sn_seq v" "sn_record (attributed at v) = sn_record v" "sn_file (attributed at v) = sn_file v"
  by (simp_all add: attributed_def)







section \<open>A cell follows the rows\<close>







section \<open>What the operations leave of the rows\<close>
























section \<open>The service and its consumers\<close>



























section \<open>The property\<close>


text \<open>A consumer of the sample session that reads before and after its transcript is imported.\<close>

definition sample_adapters :: "(string, nat, unit) adapters" where
  "sample_adapters =
     \<lparr>ad_claude_line = (\<lambda>raw sid. Some (\<lparr>cm_claude_session_id = sid, cm_uuid = Some raw, cm_parent_uuid = None, cm_timestamp = None, cm_version = None,
        cm_git_branch = None, cm_entrypoint = None, cm_kind = ''user'', cm_leaf_uuid = None, cm_is_sidechain = False\<rparr>, raw)),
      ad_disposition = (\<lambda>_. ClaudeRenderable), ad_plain_user_text = Some, ad_codex_line = (\<lambda>_ _ _. None), ad_is_uuid = (\<lambda>_. False),
      ad_normalizer_default = 0,
      ad_normalize = (\<lambda>n line _. (Suc n, [(n, \<lparr>ne_timestamp = None, ne_entry_type = UserMessage, ne_content = snd line, ne_metadata = None\<rparr>)]))\<rparr>"


abbreviation "sample_whole \<equiv> build sample_adapters 0 (map (attributed (\<lambda>_. (None, None))) (list_for_session sample_imported 5)) 0"



end
