(* ===== verification/CliActivity.thy ===== *)
theory CliActivity
  imports InputTypes LimitDetect
begin

text \<open>
  What the agent of a workspace's terminal is doing (\<^verbatim>\<open>workspace_cli_activity.rs\<close>): the reports of the
  agent's hooks reduced to a phase, the bucket of the sidebar, the state the user sets by hand,
  and the table that keeps them; and the handlers that receive reports and manual states
  (\<^verbatim>\<open>routes/workspaces/cli_activity.rs\<close>).
\<close>

section \<open>Buckets and phases\<close>

datatype cli_activity_state = ActIdle | ActRunning | ActAttention

fun activity_str :: "cli_activity_state \<Rightarrow> string" where
  "activity_str ActIdle = ''idle''"
| "activity_str ActRunning = ''running''"
| "activity_str ActAttention = ''attention''"

definition activity_parse :: "string \<Rightarrow> cli_activity_state" where
  "activity_parse s =
     (if s = ''running'' then ActRunning else if s = ''attention'' then ActAttention else ActIdle)"

datatype cli_phase =
  PhReady | PhWorking | PhQuestion | PhApproval | PhAttention | PhStopped | PhCompacting | PhToolFailed
  | PhRateLimit | PhError | PhEnded

fun phase_str :: "cli_phase \<Rightarrow> string" where
  "phase_str PhReady = ''ready''"
| "phase_str PhWorking = ''working''"
| "phase_str PhQuestion = ''question''"
| "phase_str PhApproval = ''approval''"
| "phase_str PhAttention = ''attention''"
| "phase_str PhStopped = ''stopped''"
| "phase_str PhCompacting = ''compacting''"
| "phase_str PhToolFailed = ''tool_failed''"
| "phase_str PhRateLimit = ''rate_limit''"
| "phase_str PhError = ''error''"
| "phase_str PhEnded = ''ended''"

definition phase_parse :: "string \<Rightarrow> cli_phase option" where
  "phase_parse s =
     (if s = ''ready'' then Some PhReady
      else if s = ''working'' then Some PhWorking
      else if s = ''question'' then Some PhQuestion
      else if s = ''approval'' then Some PhApproval
      else if s = ''attention'' then Some PhAttention
      else if s = ''stopped'' then Some PhStopped
      else if s = ''compacting'' then Some PhCompacting
      else if s = ''tool_failed'' then Some PhToolFailed
      else if s = ''rate_limit'' then Some PhRateLimit
      else if s = ''error'' then Some PhError
      else if s = ''ended'' then Some PhEnded
      else None)"

fun phase_bucket :: "cli_phase \<Rightarrow> cli_activity_state" where
  "phase_bucket PhWorking = ActRunning"
| "phase_bucket PhCompacting = ActRunning"
| "phase_bucket PhQuestion = ActAttention"
| "phase_bucket PhApproval = ActAttention"
| "phase_bucket PhAttention = ActAttention"
| "phase_bucket PhStopped = ActAttention"
| "phase_bucket PhToolFailed = ActAttention"
| "phase_bucket PhRateLimit = ActAttention"
| "phase_bucket PhError = ActAttention"
| "phase_bucket PhReady = ActIdle"
| "phase_bucket PhEnded = ActIdle"

definition hook_bucket :: "cli_phase \<Rightarrow> int option \<Rightarrow> cli_activity_state" where
  "hook_bucket phase tasks =
     (if phase = PhStopped \<and> (case tasks of None \<Rightarrow> 0 | Some n \<Rightarrow> n) > 0 then ActRunning else phase_bucket phase)"

lemma activity_parse_str [simp]: "activity_parse (activity_str st) = st"
  by (cases st) (simp_all add: activity_parse_def)

lemma phase_parse_str [simp]: "phase_parse (phase_str ph) = Some ph"
  by (cases ph) (simp_all add: phase_parse_def)

section \<open>Hook reports\<close>

record cli_hook_state =
  hk_agent_session_id :: string
  hk_transcript_path :: "string option"
  hk_phase :: cli_phase
  hk_tasks :: "int option"
  hk_crons :: "int option"
  hk_seq :: int

definition HOOK_EVENTS :: "string list" where
  "HOOK_EVENTS =
     [''SessionStart'', ''UserPromptSubmit'', ''PreToolUse'', ''PostToolUse'', ''PostToolUseFailure'', ''PermissionRequest'',
      ''Notification'', ''Stop'', ''SubagentStop'', ''PreCompact'', ''PostCompact'', ''StopFailure'', ''SessionEnd'',
      ''Elicitation'', ''ElicitationResult'']"

definition CODEX_ONLY_HOOK_EVENTS :: "string list" where
  "CODEX_ONLY_HOOK_EVENTS = [''Interrupt'']"

text \<open>\<open>Value::get\<close> on an object; a parsed object has one value per key.  Numbers of a payload are integers.\<close>

fun json_get :: "json \<Rightarrow> string \<Rightarrow> json option" where
  "json_get (JObj kvs) key = map_of kvs key"
| "json_get _ key = None"

fun json_str :: "json \<Rightarrow> string option" where
  "json_str (JStr s) = Some s"
| "json_str _ = None"

fun json_array_len :: "json \<Rightarrow> int option" where
  "json_array_len (JArr items) = Some (int (length items))"
| "json_array_len _ = None"

definition payload_str :: "json \<Rightarrow> string \<Rightarrow> string option" where
  "payload_str payload key = (case json_get payload key of None \<Rightarrow> None | Some v \<Rightarrow> json_str v)"

definition payload_len :: "json \<Rightarrow> string \<Rightarrow> int option" where
  "payload_len payload key = (case json_get payload key of None \<Rightarrow> None | Some v \<Rightarrow> json_array_len v)"

definition payload_truthy :: "json \<Rightarrow> string \<Rightarrow> bool" where
  "payload_truthy payload key =
     (case json_get payload key of
        None \<Rightarrow> False
      | Some v \<Rightarrow>
          (case v of JNull \<Rightarrow> False | JBool b \<Rightarrow> b | JNum n \<Rightarrow> n \<noteq> 0 | JStr s \<Rightarrow> s \<noteq> []
            | JArr items \<Rightarrow> items \<noteq> [] | JObj kvs \<Rightarrow> kvs \<noteq> []))"

definition nonempty :: "string option \<Rightarrow> string option" where
  "nonempty x = (case x of Some s \<Rightarrow> if s = [] then None else Some s | None \<Rightarrow> None)"

text \<open>The phase after an event; \<open>None\<close> is a notification that must not change anything.\<close>

definition next_phase :: "string \<Rightarrow> json \<Rightarrow> cli_phase \<Rightarrow> cli_phase option" where
  "next_phase event payload phase =
     (if event = ''SessionStart'' then Some PhReady
      else if event \<in> {''UserPromptSubmit'', ''PostToolUse'', ''ElicitationResult'', ''PostCompact''} then Some PhWorking
      else if event = ''PreToolUse'' then
        (if payload_str payload ''tool_name'' \<in> {Some ''AskUserQuestion'', Some ''request_user_input''} then Some PhQuestion
         else Some PhWorking)
      else if event = ''PostToolUseFailure'' then Some PhToolFailed
      else if event = ''PermissionRequest'' then Some PhApproval
      else if event = ''Elicitation'' then Some PhQuestion
      else if event = ''Notification'' then
        (if payload_str payload ''notification_type'' = Some ''permission_prompt'' then Some PhApproval
         else if payload_str payload ''notification_type'' = Some ''idle_prompt'' then
           (if phase \<in> {PhStopped, PhError, PhRateLimit} then Some phase else Some PhAttention)
         else None)
      else if event \<in> {''Stop'', ''Interrupt''} then Some PhStopped
      else if event = ''PreCompact'' then Some PhCompacting
      else if event = ''StopFailure'' then
        (if payload_str payload ''error'' = Some ''rate_limit'' then Some PhRateLimit else Some PhError)
      else if event = ''SessionEnd'' then Some PhEnded
      else Some phase)"

definition reduce_hook :: "cli_hook_state option \<Rightarrow> json \<Rightarrow> int \<Rightarrow> cli_hook_state option" where
  "reduce_hook previous payload seq =
     (case payload_str payload ''hook_event_name'' of
        None \<Rightarrow> None
      | Some event \<Rightarrow>
          if event \<notin> set HOOK_EVENTS \<and> event \<notin> set CODEX_ONLY_HOOK_EVENTS then None
          else
          (case nonempty (payload_str payload ''session_id'') of
             None \<Rightarrow> None
           | Some session_id \<Rightarrow>
               if payload_truthy payload ''agent_id'' \<and> event \<noteq> ''SubagentStop'' then None
               else if json_get payload ''cursor_version'' \<noteq> None then None
               else if (case previous of None \<Rightarrow> False | Some p \<Rightarrow> seq \<le> hk_seq p) then None
               else if (case previous of None \<Rightarrow> False | Some p \<Rightarrow> hk_agent_session_id p \<noteq> session_id) \<and> event \<noteq> ''SessionStart'' then None
               else if (case previous of None \<Rightarrow> False | Some p \<Rightarrow> hk_phase p = PhEnded) \<and> event \<noteq> ''SessionStart'' then None
               else
               (let fresh = \<lparr>hk_agent_session_id = session_id, hk_transcript_path = None, hk_phase = PhReady, hk_tasks = None,
                      hk_crons = None, hk_seq = seq\<rparr>;
                    state0 = (case previous of Some p \<Rightarrow> if event \<noteq> ''SessionStart'' then p else fresh | None \<Rightarrow> fresh);
                    state1 = state0\<lparr>hk_seq := seq\<rparr>;
                    state2 = (case nonempty (payload_str payload ''transcript_path'') of
                        Some path \<Rightarrow> state1\<lparr>hk_transcript_path := Some path\<rparr> | None \<Rightarrow> state1);
                    state3 = (if event \<in> {''Stop'', ''SubagentStop'', ''Interrupt''}
                        then state2\<lparr>hk_tasks := payload_len payload ''background_tasks'', hk_crons := payload_len payload ''session_crons''\<rparr>
                        else state2)
                in case next_phase event payload (hk_phase state3) of
                     None \<Rightarrow> None
                   | Some phase \<Rightarrow> Some (state3\<lparr>hk_phase := phase\<rparr>))))"

section \<open>The state set by hand\<close>

datatype cli_manual_kind = ManualLocked | ManualSeen

fun manual_str :: "cli_manual_kind \<Rightarrow> string" where
  "manual_str ManualLocked = ''locked''"
| "manual_str ManualSeen = ''seen''"

definition manual_parse :: "string \<Rightarrow> cli_manual_kind option" where
  "manual_parse s = (if s = ''locked'' then Some ManualLocked else if s = ''seen'' then Some ManualSeen else None)"

lemma manual_parse_str [simp]: "manual_parse (manual_str k) = Some k"
  by (cases k) (simp_all add: manual_parse_def)

record cli_manual =
  mn_kind :: cli_manual_kind
  mn_note :: "string option"

definition CLEARING_EVENTS :: "string list" where
  "CLEARING_EVENTS = [''UserPromptSubmit'', ''PreToolUse'', ''PostToolUse'', ''ElicitationResult'', ''PostCompact'']"

definition clears_manual :: "json \<Rightarrow> bool" where
  "clears_manual payload =
     (case payload_str payload ''hook_event_name'' of None \<Rightarrow> False | Some event \<Rightarrow> event \<in> set CLEARING_EVENTS)"

definition MANUAL_NOTE_MAX_CHARS :: nat where
  "MANUAL_NOTE_MAX_CHARS = 48"

text \<open>\<open>str::split_whitespace\<close>: the maximal runs of other characters.\<close>

fun split_whitespace :: "string \<Rightarrow> string list" where
  "split_whitespace [] = []"
| "split_whitespace (c # s) =
     (if is_whitespace c then split_whitespace s
      else case s of
        [] \<Rightarrow> [[c]]
      | d # s' \<Rightarrow>
          if is_whitespace d then [c] # split_whitespace s
          else (case split_whitespace s of [] \<Rightarrow> [[c]] | w # ws \<Rightarrow> (c # w) # ws))"

definition normalize_manual_note :: "string \<Rightarrow> string option" where
  "normalize_manual_note note =
     (let line = join_str '' '' (split_whitespace note);
          note1 = take MANUAL_NOTE_MAX_CHARS line;
          note2 = trim_end_matches is_whitespace note1
      in if note2 = [] then None else Some note2)"

section \<open>The table\<close>

text \<open>A row as the database holds it, and as the code reads it.\<close>

record cli_activity_row =
  ar_workspace_id :: uuid
  ar_state :: string
  ar_updated_at :: datetime
  ar_phase :: "string option"
  ar_tasks :: "int option"
  ar_crons :: "int option"
  ar_agent_session_id :: "string option"
  ar_transcript_path :: "string option"
  ar_seq :: int
  ar_hook_at :: "datetime option"
  ar_manual_kind :: "string option"
  ar_manual_note :: "string option"

type_synonym activity_table = "cli_activity_row list"

record workspace_cli_activity =
  wa_workspace_id :: uuid
  wa_state :: cli_activity_state
  wa_updated_at :: datetime
  wa_phase :: "cli_phase option"
  wa_hook :: "cli_hook_state option"
  wa_hook_at :: "datetime option"

definition row_phase :: "cli_activity_row \<Rightarrow> cli_phase option" where
  "row_phase r = (case ar_phase r of None \<Rightarrow> None | Some p \<Rightarrow> phase_parse p)"

definition read_row :: "cli_activity_row \<Rightarrow> workspace_cli_activity" where
  "read_row r =
     \<lparr>wa_workspace_id = ar_workspace_id r, wa_state = activity_parse (ar_state r), wa_updated_at = ar_updated_at r,
      wa_phase = row_phase r,
      wa_hook = map_option (\<lambda>sid. \<lparr>hk_agent_session_id = sid, hk_transcript_path = ar_transcript_path r,
          hk_phase = (case row_phase r of None \<Rightarrow> PhReady | Some p \<Rightarrow> p), hk_tasks = ar_tasks r, hk_crons = ar_crons r,
          hk_seq = ar_seq r\<rparr>) (ar_agent_session_id r),
      wa_hook_at = ar_hook_at r\<rparr>"

definition HOOK_PHASE_TTL_SECS :: int where
  "HOOK_PHASE_TTL_SECS = 3600"

definition fresh_phase :: "workspace_cli_activity \<Rightarrow> datetime \<Rightarrow> cli_phase option" where
  "fresh_phase a now =
     (case wa_hook_at a of None \<Rightarrow> None | Some at \<Rightarrow> if now - at < HOOK_PHASE_TTL_SECS then wa_phase a else None)"

definition shown_phase :: "workspace_cli_activity \<Rightarrow> cli_phase option" where
  "shown_phase a =
     (case wa_hook_at a of
        Some at \<Rightarrow> if wa_phase a = Some PhEnded \<and> wa_updated_at a > at then None else wa_phase a
      | None \<Rightarrow> wa_phase a)"

text \<open>The defaults of the columns.\<close>

definition default_row :: "uuid \<Rightarrow> datetime \<Rightarrow> cli_activity_row" where
  "default_row w now =
     \<lparr>ar_workspace_id = w, ar_state = ''idle'', ar_updated_at = now, ar_phase = None, ar_tasks = None, ar_crons = None,
      ar_agent_session_id = None, ar_transcript_path = None, ar_seq = 0, ar_hook_at = None, ar_manual_kind = None,
      ar_manual_note = None\<rparr>"

definition has_row :: "activity_table \<Rightarrow> uuid \<Rightarrow> bool" where
  "has_row rows w = (\<exists>r\<in>set rows. ar_workspace_id r = w)"

text \<open>\<open>INSERT ... ON CONFLICT(workspace_id) DO UPDATE ... WHERE p\<close>; an unknown workspace violates the foreign key.\<close>

definition insert_or_update ::
  "uuid set \<Rightarrow> activity_table \<Rightarrow> cli_activity_row \<Rightarrow> (cli_activity_row \<Rightarrow> bool) \<Rightarrow> (cli_activity_row \<Rightarrow> cli_activity_row)
     \<Rightarrow> db_error + activity_table" where
  "insert_or_update workspaces rows new p f =
     (if has_row rows (ar_workspace_id new)
      then Inr (update_where (\<lambda>r. ar_workspace_id r = ar_workspace_id new \<and> p r) f rows)
      else if ar_workspace_id new \<notin> workspaces then Inl DbError
      else Inr (rows @ [new]))"

definition upsert_activity :: "uuid set \<Rightarrow> activity_table \<Rightarrow> uuid \<Rightarrow> cli_activity_state \<Rightarrow> datetime \<Rightarrow> db_error + activity_table" where
  "upsert_activity workspaces rows w state now =
     insert_or_update workspaces rows ((default_row w now)\<lparr>ar_state := activity_str state\<rparr>) (\<lambda>_. True)
       (\<lambda>r. r\<lparr>ar_state := activity_str state, ar_updated_at := now\<rparr>)"

definition hook_set :: "cli_hook_state \<Rightarrow> datetime \<Rightarrow> cli_activity_row \<Rightarrow> cli_activity_row" where
  "hook_set hook at r =
     r\<lparr>ar_state := activity_str (hook_bucket (hk_phase hook) (hk_tasks hook)), ar_updated_at := at,
       ar_phase := Some (phase_str (hk_phase hook)), ar_tasks := hk_tasks hook, ar_crons := hk_crons hook,
       ar_agent_session_id := Some (hk_agent_session_id hook), ar_transcript_path := hk_transcript_path hook,
       ar_seq := hk_seq hook, ar_hook_at := Some at\<rparr>"

definition upsert_hook :: "uuid set \<Rightarrow> activity_table \<Rightarrow> uuid \<Rightarrow> cli_hook_state \<Rightarrow> bool \<Rightarrow> datetime \<Rightarrow> db_error + activity_table" where
  "upsert_hook workspaces rows w hook clear_manual at =
     insert_or_update workspaces rows (hook_set hook at (default_row w at)) (\<lambda>r. hk_seq hook \<ge> ar_seq r)
       (\<lambda>r. let r1 = hook_set hook at r
            in if clear_manual then r1\<lparr>ar_manual_kind := None, ar_manual_note := None\<rparr> else r1)"

definition set_manual :: "uuid set \<Rightarrow> activity_table \<Rightarrow> uuid \<Rightarrow> cli_manual option \<Rightarrow> datetime \<Rightarrow> db_error + activity_table" where
  "set_manual workspaces rows w manual now =
     (let kind = map_option (manual_str \<circ> mn_kind) manual;
          note = (case manual of None \<Rightarrow> None | Some m \<Rightarrow> mn_note m)
      in insert_or_update workspaces rows ((default_row w now)\<lparr>ar_manual_kind := kind, ar_manual_note := note\<rparr>)
           (\<lambda>r. \<not> (kind = Some ''seen'' \<and> ar_manual_kind r = Some ''locked''))
           (\<lambda>r. r\<lparr>ar_manual_kind := kind, ar_manual_note := note\<rparr>))"

definition clear_ended_phase :: "activity_table \<Rightarrow> uuid \<Rightarrow> activity_table" where
  "clear_ended_phase rows w =
     update_where (\<lambda>r. ar_workspace_id r = w \<and> ar_phase r = Some ''ended'')
       (\<lambda>r. r\<lparr>ar_phase := None, ar_tasks := None, ar_crons := None\<rparr>) rows"

definition find_all_manual :: "activity_table \<Rightarrow> uuid \<Rightarrow> cli_manual option" where
  "find_all_manual rows =
     map_of (List.map_filter (\<lambda>r. case ar_manual_kind r of None \<Rightarrow> None
       | Some k \<Rightarrow> map_option (\<lambda>kind. (ar_workspace_id r, \<lparr>mn_kind = kind, mn_note = ar_manual_note r\<rparr>)) (manual_parse k)) rows)"

definition find_all_activity :: "activity_table \<Rightarrow> workspace_cli_activity list" where
  "find_all_activity rows = map read_row rows"

definition find_workspaces_needing_attention :: "activity_table \<Rightarrow> (uuid \<rightharpoonup> bool) \<Rightarrow> bool \<Rightarrow> uuid set" where
  "find_workspaces_needing_attention rows archived_of archived =
     set (map ar_workspace_id (filter (\<lambda>r. ar_state r = ''attention'' \<and> archived_of (ar_workspace_id r) = Some archived) rows))"

definition find_activity :: "activity_table \<Rightarrow> uuid \<Rightarrow> workspace_cli_activity option" where
  "find_activity rows w = map_option read_row (select_one (\<lambda>r. ar_workspace_id r = w) rows)"

section \<open>The handlers\<close>

text \<open>\<open>str::parse\<close> of an \<open>i64\<close> and of a \<open>u32\<close>: an optional sign, digits, and a value in range.\<close>

definition all_digits :: "string \<Rightarrow> bool" where
  "all_digits s = (s \<noteq> [] \<and> list_all is_ascii_digit s)"

definition parse_i64 :: "string \<Rightarrow> int option" where
  "parse_i64 s =
     (let (neg, digits) = (case s of [] \<Rightarrow> (False, []) | c # r \<Rightarrow>
            if c = CHR ''-'' then (True, r) else if c = CHR ''+'' then (False, r) else (False, s));
          v = (if neg then - int (decimal digits) else int (decimal digits))
      in if all_digits digits \<and> - (2 ^ 63) \<le> v \<and> v < 2 ^ 63 then Some v else None)"

definition parse_u32 :: "string \<Rightarrow> nat option" where
  "parse_u32 s =
     (let digits = (case s of [] \<Rightarrow> [] | c # r \<Rightarrow> if c = CHR ''+'' then r else s)
      in if all_digits digits \<and> decimal digits < 2 ^ 32 then Some (decimal digits) else None)"

text \<open>The order of a report: its own stamp, else the clock of the server.\<close>

definition report_seq :: "string option \<Rightarrow> int option \<Rightarrow> int \<Rightarrow> int" where
  "report_seq seq nanos millis =
     (case (case seq of None \<Rightarrow> None | Some s \<Rightarrow> parse_i64 (trim s)) of
        Some n \<Rightarrow> n
      | None \<Rightarrow> (case nanos of Some n \<Rightarrow> n | None \<Rightarrow> millis))"

text \<open>
  A report reads the row and reduces, and writes later; what it asks of the handover and of the
  transcript import follows from the two.  \<open>rollout\<close> tells whether a path names a rollout.
\<close>

definition report_next :: "activity_table \<Rightarrow> uuid \<Rightarrow> json \<Rightarrow> int \<Rightarrow> cli_hook_state option" where
  "report_next rows w payload seq =
     reduce_hook (case find_activity rows w of None \<Rightarrow> None | Some a \<Rightarrow> wa_hook a) payload seq"

record report_effects =
  re_fallback_ready :: "(string \<times> string) option"
  re_codex_import :: "(string \<times> bool) option"

definition effects_of :: "(string \<Rightarrow> bool) \<Rightarrow> cli_hook_state option \<Rightarrow> cli_hook_state \<Rightarrow> json \<Rightarrow> string option \<Rightarrow> report_effects" where
  "effects_of rollout previous nxt payload capability =
     \<lparr>re_fallback_ready = (if payload_str payload ''hook_event_name'' = Some ''SessionStart''
        then map_option (\<lambda>c. (hk_agent_session_id nxt, c)) capability else None),
      re_codex_import = (if (case hk_transcript_path nxt of None \<Rightarrow> False | Some path \<Rightarrow> rollout path)
        then Some (hk_agent_session_id nxt, case previous of None \<Rightarrow> False
          | Some hook \<Rightarrow> hk_agent_session_id hook \<noteq> hk_agent_session_id nxt) else None)\<rparr>"

definition report_cli_activity ::
  "(string \<Rightarrow> bool) \<Rightarrow> uuid set \<Rightarrow> activity_table \<Rightarrow> uuid \<Rightarrow> string option \<Rightarrow> int option \<Rightarrow> int \<Rightarrow> string option \<Rightarrow> json \<Rightarrow> datetime
     \<Rightarrow> report_effects option \<times> activity_table" where
  "report_cli_activity rollout workspaces rows w seq nanos millis capability payload now =
     (let previous = (case find_activity rows w of None \<Rightarrow> None | Some a \<Rightarrow> wa_hook a) in
      case reduce_hook previous payload (report_seq seq nanos millis) of
        None \<Rightarrow> (None, rows)
      | Some nxt \<Rightarrow>
          (Some (effects_of rollout previous nxt payload capability),
           case upsert_hook workspaces rows w nxt (clears_manual payload) now of Inl _ \<Rightarrow> rows | Inr rows' \<Rightarrow> rows'))"

definition set_cli_manual ::
  "uuid set \<Rightarrow> activity_table \<Rightarrow> uuid \<Rightarrow> cli_manual_kind option \<Rightarrow> string option \<Rightarrow> datetime \<Rightarrow> db_error + activity_table" where
  "set_cli_manual workspaces rows w kind note now =
     set_manual workspaces rows w
       (map_option (\<lambda>k. \<lparr>mn_kind = k, mn_note = (case k of
            ManualLocked \<Rightarrow> (case note of None \<Rightarrow> None | Some n \<Rightarrow> normalize_manual_note n) | ManualSeen \<Rightarrow> None)\<rparr>) kind) now"

end
