(* ===== verification/ActivityMonitor.thy ===== *)
theory ActivityMonitor
  imports CliActivity "HOL-Library.AList"
begin

text \<open>
  The watcher of terminal panes (\<^verbatim>\<open>local-deployment/src/cli_activity.rs\<close>): what tmux and the process table
  say about a workspace's pane, the state machine that turns it and the agent's own report into
  the sidebar bucket, the probes for a live agent, and the sweep that keeps absent clients from
  sizing a window.  The output of tmux, the process table, the clock and the results of tmux
  commands are arguments; parsing of a UUID is a parameter.
\<close>

section \<open>Processes\<close>

text \<open>A snapshot of the process table: the parent of a process and whether it is an agent, in the order of iteration.\<close>

type_synonym proc_snapshot = "(nat \<times> nat \<times> bool) list"

definition WALK_LIMIT :: nat where
  "WALK_LIMIT = 4096"

definition is_agent_pid :: "proc_snapshot \<Rightarrow> nat \<Rightarrow> bool" where
  "is_agent_pid procs pid = (case map_of procs pid of None \<Rightarrow> False | Some (_, is_agent) \<Rightarrow> is_agent)"

definition add_child :: "nat \<Rightarrow> nat list \<Rightarrow> nat \<times> nat \<times> bool \<Rightarrow> nat list" where
  "add_child current ds entry = (case entry of (pid, ppid, _) \<Rightarrow> if ppid = current \<and> pid \<notin> set ds then ds @ [pid] else ds)"

text \<open>The loop: \<open>seen\<close> is the set of the descendants collected so far.\<close>

function subtree_walk :: "proc_snapshot \<Rightarrow> nat list \<Rightarrow> nat \<Rightarrow> bool" where
  "subtree_walk procs descendants cursor =
     (if cursor < length descendants \<and> length descendants < WALK_LIMIT then
        (let current = descendants ! cursor in
         if is_agent_pid procs current then True
         else subtree_walk procs (foldl (add_child current) descendants procs) (cursor + 1))
      else False)"
  by pat_completeness auto
termination
  by (relation "measure (\<lambda>(_, _, cursor). WALK_LIMIT - cursor)") auto

declare subtree_walk.simps [simp del]

definition subtree_has_agent :: "nat \<Rightarrow> proc_snapshot \<Rightarrow> bool" where
  "subtree_has_agent root procs = subtree_walk procs [root] 0"

definition subtree_has_claude :: "nat \<Rightarrow> proc_snapshot \<Rightarrow> bool" where
  "subtree_has_claude root procs = subtree_has_agent root procs"

text \<open>
  An entry of \<^verbatim>\<open>/proc\<close>: its name, and the contents of \<^verbatim>\<open>stat\<close> and \<^verbatim>\<open>cmdline\<close> where they could be read.
  \<open>parse_stat\<close> gives the command and the parent.
\<close>

record proc_entry =
  pe_name :: "string option"
  pe_stat :: "string option"
  pe_cmdline :: "string option"

definition rfind_char :: "string \<Rightarrow> char \<Rightarrow> nat option" where
  "rfind_char s c = (case find_str (rev s) [c] of None \<Rightarrow> None | Some k \<Rightarrow> Some (length s - 1 - k))"

definition parse_stat :: "string \<Rightarrow> (string \<times> nat) option" where
  "parse_stat stat =
     (case find_str stat ''('' of
        None \<Rightarrow> None
      | Some op \<Rightarrow>
          (case rfind_char stat (CHR '')'') of
             None \<Rightarrow> None
           | Some cl \<Rightarrow>
               (case split_whitespace (drop (cl + 1) stat) of
                  _ # ppid # _ \<Rightarrow>
                    (case parse_u32 ppid of None \<Rightarrow> None
                     | Some p \<Rightarrow> Some (take (cl - (op + 1)) (drop (op + 1) stat), p))
                | _ \<Rightarrow> None)))"

definition INTERPRETERS :: "string list" where
  "INTERPRETERS = [''node'', ''python'', ''python3'', ''bun'']"

definition snapshot_entry :: "(proc_entry \<Rightarrow> string \<Rightarrow> bool) \<Rightarrow> proc_entry \<Rightarrow> (nat \<times> nat \<times> bool) option" where
  "snapshot_entry is_match e =
     (case pe_name e of None \<Rightarrow> None | Some name \<Rightarrow>
      (case parse_u32 name of None \<Rightarrow> None | Some pid \<Rightarrow>
       (case pe_stat e of None \<Rightarrow> None | Some stat \<Rightarrow>
        (case parse_stat stat of None \<Rightarrow> None | Some (comm, ppid) \<Rightarrow> Some (pid, ppid, is_match e comm)))))"

definition program_match :: "string list \<Rightarrow> proc_entry \<Rightarrow> string \<Rightarrow> bool" where
  "program_match programs e comm =
     (comm \<in> set programs \<or>
      (comm \<in> set INTERPRETERS \<and> (case pe_cmdline e of None \<Rightarrow> False | Some c \<Rightarrow> list_ex (\<lambda>p. contains c p) programs)))"

text \<open>\<open>None\<close> is a process table that cannot be listed.\<close>

definition snapshot_processes_for :: "string list \<Rightarrow> proc_entry list option \<Rightarrow> proc_snapshot" where
  "snapshot_processes_for programs entries =
     (case entries of None \<Rightarrow> [] | Some es \<Rightarrow> List.map_filter (snapshot_entry (program_match programs)) es)"

definition snapshot_processes_matching :: "(string \<Rightarrow> bool) \<Rightarrow> proc_entry list option \<Rightarrow> proc_snapshot" where
  "snapshot_processes_matching is_match entries =
     (case entries of None \<Rightarrow> [] | Some es \<Rightarrow> List.map_filter (snapshot_entry (\<lambda>_ comm. is_match comm)) es)"

definition CLI_AGENT_PROGRAMS :: "string list" where
  "CLI_AGENT_PROGRAMS = [''claude'', ''codex'']"

definition snapshot_processes :: "proc_entry list option \<Rightarrow> proc_snapshot" where
  "snapshot_processes entries = snapshot_processes_for CLI_AGENT_PROGRAMS entries"

section \<open>Panes\<close>

record observation =
  oc_claude_like :: bool
  oc_last_activity :: int
  oc_attached :: bool

record tmux_observation_snapshot =
  ts_observations :: "(uuid \<times> observation) list"
  ts_complete :: bool

datatype tmux_pane_socket_snapshot = PaneRows string | PaneEmpty | PaneFailed

definition workspace_id_from_cli_session_name :: "(string \<Rightarrow> uuid option) \<Rightarrow> string \<Rightarrow> uuid option" where
  "workspace_id_from_cli_session_name parse_uuid name =
     (case strip_prefix name ''bc_'' of
        None \<Rightarrow> None
      | Some hex \<Rightarrow> if str_len hex \<noteq> 32 then None else parse_uuid hex)"

definition tmux_list_panes_exit_is_definitively_empty :: "string \<Rightarrow> bool" where
  "tmux_list_panes_exit_is_definitively_empty stderr =
     (contains stderr ''no server running'' \<or> contains stderr ''No such file or directory'' \<or> contains stderr ''Connection refused'')"

text \<open>The outcome of \<^verbatim>\<open>tmux list-panes\<close>: an error, or whether it succeeded with its two outputs.\<close>

definition observe_tmux_socket_on :: "unit + bool \<times> string \<times> string \<Rightarrow> tmux_pane_socket_snapshot" where
  "observe_tmux_socket_on result =
     (case result of
        Inl _ \<Rightarrow> PaneFailed
      | Inr (success, stdout, stderr) \<Rightarrow>
          if \<not> success then (if tmux_list_panes_exit_is_definitively_empty stderr then PaneEmpty else PaneFailed)
          else if stdout = [] then PaneEmpty else PaneRows stdout)"

definition merge_observation :: "observation \<Rightarrow> observation \<Rightarrow> observation" where
  "merge_observation new old =
     \<lparr>oc_claude_like = (oc_claude_like old \<or> oc_claude_like new),
      oc_last_activity = max (oc_last_activity old) (oc_last_activity new),
      oc_attached = (oc_attached old \<or> oc_attached new)\<rparr>"

definition parse_pane_line :: "(string \<Rightarrow> uuid option) \<Rightarrow> proc_snapshot \<Rightarrow> string \<Rightarrow> (uuid \<times> observation) option" where
  "parse_pane_line parse_uuid procs line =
     (case split_char (CHR ''|'') line of
        session_name # pane_pid # activity # attached # _ \<Rightarrow>
          (case workspace_id_from_cli_session_name parse_uuid session_name of
             None \<Rightarrow> None
           | Some w \<Rightarrow>
               Some (w, \<lparr>oc_claude_like = (case parse_u32 (trim pane_pid) of None \<Rightarrow> False | Some pid \<Rightarrow> subtree_has_claude pid procs),
                 oc_last_activity = (case parse_i64 (trim activity) of None \<Rightarrow> 0 | Some n \<Rightarrow> n),
                 oc_attached = (case parse_i64 (trim attached) of None \<Rightarrow> False | Some n \<Rightarrow> n > 0)\<rparr>))
      | _ \<Rightarrow> None)"

definition add_observation :: "(uuid \<times> observation) list \<Rightarrow> uuid \<times> observation \<Rightarrow> (uuid \<times> observation) list" where
  "add_observation obs wo =
     (case wo of (w, new) \<Rightarrow>
        AList.update w (case map_of obs w of None \<Rightarrow> new | Some old \<Rightarrow> merge_observation new old) obs)"

definition observe_tmux_on ::
  "(string \<Rightarrow> uuid option) \<Rightarrow> proc_entry list option \<Rightarrow> tmux_pane_socket_snapshot list \<Rightarrow> tmux_observation_snapshot" where
  "observe_tmux_on parse_uuid entries sockets =
     (let outputs = List.map_filter (\<lambda>s. case s of PaneRows rows \<Rightarrow> Some rows | _ \<Rightarrow> None) sockets;
          procs = (if outputs = [] then [] else snapshot_processes entries)
      in \<lparr>ts_observations = foldl add_observation []
            (List.map_filter (parse_pane_line parse_uuid procs) (concat (map str_lines outputs))),
          ts_complete = list_all (\<lambda>s. s \<noteq> PaneFailed) sockets\<rparr>)"

section \<open>Probes\<close>

datatype agent_presence = NoSession | Alive | Absent | Unknown

text \<open>
  The process identifiers of a workspace's panes.  \<open>None\<close> when tmux could not be read, or when the
  identifier of a pane of this workspace cannot be parsed.
\<close>

definition pane_line_pid :: "(string \<Rightarrow> uuid option) \<Rightarrow> uuid \<Rightarrow> string \<Rightarrow> nat option option" where
  "pane_line_pid parse_uuid w line =
     (case split_char (CHR ''|'') line of
        name # pid # _ \<Rightarrow>
          if workspace_id_from_cli_session_name parse_uuid name \<noteq> Some w then None else Some (parse_u32 (trim pid))
      | _ \<Rightarrow> None)"

primrec all_some :: "'a option list \<Rightarrow> 'a list option" where
  "all_some [] = Some []"
| "all_some (x # xs) = (case x of None \<Rightarrow> None | Some v \<Rightarrow> (case all_some xs of None \<Rightarrow> None | Some vs \<Rightarrow> Some (v # vs)))"

definition cli_pane_pids_for :: "(string \<Rightarrow> uuid option) \<Rightarrow> bool \<Rightarrow> tmux_pane_socket_snapshot list \<Rightarrow> uuid \<Rightarrow> nat list option" where
  "cli_pane_pids_for parse_uuid available sockets w =
     (if \<not> available \<or> PaneFailed \<in> set sockets then None
      else all_some (concat (map (\<lambda>s. case s of
             PaneRows rows \<Rightarrow> List.map_filter (pane_line_pid parse_uuid w) (str_lines rows) | _ \<Rightarrow> []) sockets)))"

definition presence_of :: "nat list option \<Rightarrow> proc_snapshot \<Rightarrow> agent_presence" where
  "presence_of pids procs =
     (case pids of
        None \<Rightarrow> Unknown
      | Some pane_pids \<Rightarrow>
          if pane_pids = [] then NoSession
          else if procs = [] then Unknown
          else if list_ex (\<lambda>pid. subtree_has_agent pid procs) pane_pids then Alive else Absent)"

definition probe_workspace_agent ::
  "(string \<Rightarrow> uuid option) \<Rightarrow> bool \<Rightarrow> tmux_pane_socket_snapshot list \<Rightarrow> proc_entry list option \<Rightarrow> uuid \<Rightarrow> string \<Rightarrow> agent_presence" where
  "probe_workspace_agent parse_uuid available sockets entries w program =
     presence_of (cli_pane_pids_for parse_uuid available sockets w) (snapshot_processes_for [program] entries)"

definition PANE_SHELLS :: "string list" where
  "PANE_SHELLS = [''sh'', ''bash'', ''zsh'', ''dash'', ''fish'', ''ash'', ''ksh'', ''tcsh'']"

definition probe_workspace_pane_busy ::
  "(string \<Rightarrow> uuid option) \<Rightarrow> bool \<Rightarrow> tmux_pane_socket_snapshot list \<Rightarrow> proc_entry list option \<Rightarrow> uuid \<Rightarrow> agent_presence" where
  "probe_workspace_pane_busy parse_uuid available sockets entries w =
     presence_of (cli_pane_pids_for parse_uuid available sockets w)
       (snapshot_processes_matching (\<lambda>comm. comm \<notin> set PANE_SHELLS) entries)"

section \<open>The state machine\<close>

definition ACTIVE_WINDOW_SECS :: int where
  "ACTIVE_WINDOW_SECS = 5"

definition DETACH_SETTLE_SECS :: int where
  "DETACH_SETTLE_SECS = 5"

record hook_view =
  hv_bucket :: cli_activity_state
  hv_acked :: bool

definition next_state :: "cli_activity_state \<Rightarrow> observation \<Rightarrow> bool \<Rightarrow> int \<Rightarrow> hook_view option \<Rightarrow> cli_activity_state" where
  "next_state prev obs ran_while_detached now hook =
     (if \<not> oc_claude_like obs then ActIdle
      else case hook of
        Some h \<Rightarrow> if hv_bucket h = ActAttention \<and> (oc_attached obs \<or> hv_acked h) then ActIdle else hv_bucket h
      | None \<Rightarrow>
          if now - oc_last_activity obs \<le> ACTIVE_WINDOW_SECS then ActRunning
          else (case prev of
              ActRunning \<Rightarrow> if \<not> oc_attached obs \<and> ran_while_detached then ActAttention else ActIdle
            | ActAttention \<Rightarrow> if oc_attached obs then ActIdle else ActAttention
            | ActIdle \<Rightarrow> ActIdle))"

definition should_transition_missing_to_idle :: "bool \<Rightarrow> bool \<Rightarrow> cli_activity_state \<Rightarrow> bool" where
  "should_transition_missing_to_idle snapshot_complete observed previous =
     (snapshot_complete \<and> \<not> observed \<and> previous \<noteq> ActIdle)"

record monitor =
  mo_states :: "(uuid \<times> cli_activity_state) list"
  mo_detached_since :: "uuid \<rightharpoonup> int"
  mo_hook_acked :: "uuid \<rightharpoonup> int"

definition monitor_init :: monitor where
  "monitor_init = \<lparr>mo_states = [], mo_detached_since = Map.empty, mo_hook_acked = Map.empty\<rparr>"

text \<open>The fresh reports of a tick: the bucket they imply and their sequence number.\<close>

definition hooks_of :: "workspace_cli_activity list \<Rightarrow> datetime \<Rightarrow> uuid \<Rightarrow> (cli_activity_state \<times> int) option" where
  "hooks_of rows now =
     map_of (List.map_filter (\<lambda>a. case fresh_phase a now of
         None \<Rightarrow> None
       | Some phase \<Rightarrow> (case wa_hook a of None \<Rightarrow> None
           | Some hook \<Rightarrow> Some (wa_workspace_id a, hook_bucket phase (hk_tasks hook), hk_seq hook))) rows)"

text \<open>A recorded state: a write of the table, which may fail; the second component lists the writes of a tick.\<close>

definition record_state :: "(uuid \<Rightarrow> bool) \<Rightarrow> uuid \<Rightarrow> cli_activity_state \<Rightarrow> monitor \<times> (uuid \<times> cli_activity_state) list
    \<Rightarrow> monitor \<times> (uuid \<times> cli_activity_state) list" where
  "record_state write_ok w state mw =
     (case mw of (m, writes) \<Rightarrow>
        (if write_ok w then m\<lparr>mo_states := AList.update w state (mo_states m)\<rparr> else m, writes @ [(w, state)]))"

text \<open>The body of the loop over the observed sessions.\<close>

definition watch_one ::
  "(uuid \<Rightarrow> bool) \<Rightarrow> int \<Rightarrow> (uuid \<rightharpoonup> cli_activity_state \<times> int) \<Rightarrow> uuid \<times> observation
     \<Rightarrow> monitor \<times> (uuid \<times> cli_activity_state) list \<Rightarrow> monitor \<times> (uuid \<times> cli_activity_state) list" where
  "watch_one write_ok now hooks wo mw =
     (case wo of (w, obs) \<Rightarrow> case mw of (m, writes) \<Rightarrow>
      let prev = (case map_of (mo_states m) w of None \<Rightarrow> ActIdle | Some st \<Rightarrow> st);
          m1 = (if oc_attached obs then m\<lparr>mo_detached_since := (mo_detached_since m)(w := None)\<rparr>
                else case mo_detached_since m w of
                  None \<Rightarrow> m\<lparr>mo_detached_since := (mo_detached_since m)(w \<mapsto> now)\<rparr>
                | Some _ \<Rightarrow> m);
          ran_while_detached = (case mo_detached_since m1 w of None \<Rightarrow> False
            | Some since \<Rightarrow> oc_last_activity obs \<ge> since + DETACH_SETTLE_SECS);
          m2 = (case hooks w of
              Some (_, seq) \<Rightarrow> if oc_attached obs then m1\<lparr>mo_hook_acked := (mo_hook_acked m1)(w \<mapsto> seq)\<rparr> else m1
            | None \<Rightarrow> m1);
          hook = map_option (\<lambda>(bucket, seq). \<lparr>hv_bucket = bucket,
              hv_acked = (case mo_hook_acked m2 w of None \<Rightarrow> False | Some acked \<Rightarrow> seq \<le> acked)\<rparr>) (hooks w);
          nxt = next_state prev obs ran_while_detached now hook
      in if nxt \<noteq> prev then record_state write_ok w nxt (m2, writes) else (m2, writes))"

text \<open>
  One tick: read the table (\<open>None\<close> when that fails), run the state machine of every observed
  session, and let the states of vanished sessions collapse.
\<close>

definition monitor_tick ::
  "(uuid \<Rightarrow> bool) \<Rightarrow> int \<Rightarrow> datetime \<Rightarrow> activity_table option \<Rightarrow> tmux_observation_snapshot \<Rightarrow> monitor
     \<Rightarrow> monitor \<times> (uuid \<times> cli_activity_state) list" where
  "monitor_tick write_ok now now_utc table snapshot m =
     (let (hooks, m0) = (case table of
            None \<Rightarrow> (Map.empty, m)
          | Some rows \<Rightarrow> (hooks_of (find_all_activity rows) now_utc,
              m\<lparr>mo_states := map (\<lambda>a. (wa_workspace_id a, wa_state a)) (find_all_activity rows)\<rparr>));
          (m1, writes) = foldl (\<lambda>mw wo. watch_one write_ok now hooks wo mw) (m0, []) (ts_observations snapshot);
          gone = map fst (filter (\<lambda>(w, state). should_transition_missing_to_idle (ts_complete snapshot)
              (map_of (ts_observations snapshot) w \<noteq> None) state) (mo_states m1))
      in foldl (\<lambda>mw w. record_state write_ok w ActIdle mw) (m1, writes) gone)"

section \<open>The sizing sweep\<close>

definition FRESH_INPUT_SECS :: nat where
  "FRESH_INPUT_SECS = 60"

definition VISIBLE_PRESENCE_STALE_SECS :: nat where
  "VISIBLE_PRESENCE_STALE_SECS = 5 * 60"

definition MANUAL_CLIENT_IDLE_SECS :: nat where
  "MANUAL_CLIENT_IDLE_SECS = 20 * 60"

record cli_client_presence =
  cp_visible :: bool
  cp_last_visible_at :: int
  cp_last_changed_at :: int

record sizing_presence =
  sz_visible :: bool
  sz_last_visible_ago_secs :: nat
  sz_changed_ago_secs :: nat

text \<open>\<open>saturating_duration_since\<close> is \<open>nat\<close> of the difference.\<close>

definition sizing_presence_of :: "cli_client_presence \<Rightarrow> int \<Rightarrow> sizing_presence" where
  "sizing_presence_of p now =
     \<lparr>sz_visible = cp_visible p, sz_last_visible_ago_secs = nat (now - cp_last_visible_at p),
      sz_changed_ago_secs = nat (now - cp_last_changed_at p)\<rparr>"

definition should_ignore_client_size :: "nat \<Rightarrow> sizing_presence option \<Rightarrow> bool" where
  "should_ignore_client_size input_idle_secs presence =
     (case presence of
        Some p \<Rightarrow>
          if \<not> sz_visible p then \<not> (input_idle_secs < sz_changed_ago_secs p \<and> input_idle_secs < FRESH_INPUT_SECS)
          else sz_last_visible_ago_secs p \<ge> VISIBLE_PRESENCE_STALE_SECS
      | None \<Rightarrow> input_idle_secs > MANUAL_CLIENT_IDLE_SECS)"

definition desired_ignore_client_size :: "nat \<Rightarrow> sizing_presence option \<Rightarrow> bool \<Rightarrow> bool option" where
  "desired_ignore_client_size input_idle_secs presence seen_in_previous_sweep =
     (if presence = None \<and> \<not> seen_in_previous_sweep then None
      else Some (should_ignore_client_size input_idle_secs presence))"

record tmux_client_row =
  tc_client_pid :: nat
  tc_client_name :: string
  tc_client_activity :: int
  tc_ignore_size :: bool

definition parse_cli_client_line :: "(string \<Rightarrow> uuid option) \<Rightarrow> string \<Rightarrow> tmux_client_row option" where
  "parse_cli_client_line parse_uuid line =
     (case split_char (CHR 0x09) line of
        [pid, client_name, activity, flags, session_name] \<Rightarrow>
          (case (parse_u32 (trim pid), parse_i64 (trim activity)) of
             (Some client_pid, Some client_activity) \<Rightarrow>
               if client_name = [] \<or> client_activity < 0 \<or> workspace_id_from_cli_session_name parse_uuid session_name = None then None
               else Some \<lparr>tc_client_pid = client_pid, tc_client_name = client_name, tc_client_activity = client_activity,
                      tc_ignore_size = list_ex (\<lambda>flag. trim flag = ''ignore-size'') (split_char (CHR '','') flags)\<rparr>
           | _ \<Rightarrow> None)
      | _ \<Rightarrow> None)"

definition list_cli_tmux_clients_on :: "(string \<Rightarrow> uuid option) \<Rightarrow> string option \<Rightarrow> tmux_client_row list option" where
  "list_cli_tmux_clients_on parse_uuid output =
     map_option (\<lambda>text. List.map_filter (parse_cli_client_line parse_uuid) (str_lines text)) output"

definition split_once :: "char \<Rightarrow> string \<Rightarrow> (string \<times> string) option" where
  "split_once c s = (if c \<in> set s then Some (takeWhile (\<lambda>x. x \<noteq> c) s, drop 1 (dropWhile (\<lambda>x. x \<noteq> c) s)) else None)"

definition fresh_client_line :: "string \<Rightarrow> (nat \<times> string) option" where
  "fresh_client_line line =
     (case split_once (CHR 0x09) line of
        None \<Rightarrow> None
      | Some (pid, name) \<Rightarrow> (case parse_u32 (trim pid) of None \<Rightarrow> None | Some p \<Rightarrow> if name = [] then None else Some (p, name)))"

text \<open>Collecting into a map keeps the last entry of a key.\<close>

definition fresh_cli_tmux_client_map_on :: "string option \<Rightarrow> (nat \<rightharpoonup> string) option" where
  "fresh_cli_tmux_client_map_on output =
     map_option (\<lambda>text. map_of (rev (List.map_filter fresh_client_line (str_lines text)))) output"

text \<open>The failures of refreshing a client, by socket and process; the count is a \<open>u8\<close> that saturates.\<close>

record client_size_sweep_state =
  sw_refresh_failures :: "(string \<times> nat) \<rightharpoonup> string \<times> nat"
  sw_seen_clients :: "(string \<times> nat) set"

datatype sweep_event = Refresh string nat string bool bool | WarnTwice string nat

record sweep_env =
  se_sockets :: "string list"
  se_clients :: "string \<Rightarrow> tmux_client_row list option"
  se_presence :: "nat \<rightharpoonup> cli_client_presence"
  se_now :: int
  se_now_unix :: int
  se_fresh :: "string \<Rightarrow> (nat \<rightharpoonup> string) option"
  se_refresh :: "string \<Rightarrow> string \<Rightarrow> bool \<Rightarrow> bool"

definition located_clients :: "sweep_env \<Rightarrow> (string \<times> tmux_client_row) list" where
  "located_clients env =
     concat (map (\<lambda>socket. case se_clients env socket of None \<Rightarrow> [] | Some rows \<Rightarrow> map (Pair socket) rows) (se_sockets env))"

definition client_desired :: "sweep_env \<Rightarrow> (string \<times> nat) set \<Rightarrow> string \<times> tmux_client_row \<Rightarrow> bool option" where
  "client_desired env previous_clients located =
     (case located of (socket, client) \<Rightarrow>
        desired_ignore_client_size (nat (se_now_unix env - tc_client_activity client))
          (map_option (\<lambda>p. sizing_presence_of p (se_now env)) (se_presence env (tc_client_pid client)))
          ((socket, tc_client_pid client) \<in> previous_clients))"

text \<open>The first loop: what has to change, and the failures that are settled.\<close>

definition plan_client ::
  "sweep_env \<Rightarrow> (string \<times> nat) set \<Rightarrow> ((string \<times> nat) \<rightharpoonup> string \<times> nat) \<times> (string \<times> tmux_client_row \<times> bool) list
     \<Rightarrow> string \<times> tmux_client_row \<Rightarrow> ((string \<times> nat) \<rightharpoonup> string \<times> nat) \<times> (string \<times> tmux_client_row \<times> bool) list" where
  "plan_client env previous_clients st located =
     (case st of (failures, plan) \<Rightarrow> case located of (socket, client) \<Rightarrow>
        (case client_desired env previous_clients located of
           None \<Rightarrow> (failures, plan)
         | Some desired \<Rightarrow>
             if desired = tc_ignore_size client then (failures((socket, tc_client_pid client) := None), plan)
             else (failures, plan @ [(socket, client, desired)])))"

text \<open>The second loop, for one planned change of a socket whose fresh list of clients is known.\<close>

definition apply_client ::
  "sweep_env \<Rightarrow> (nat \<rightharpoonup> string) \<Rightarrow> ((string \<times> nat) \<rightharpoonup> string \<times> nat) \<times> sweep_event list \<Rightarrow> string \<times> tmux_client_row \<times> bool
     \<Rightarrow> ((string \<times> nat) \<rightharpoonup> string \<times> nat) \<times> sweep_event list" where
  "apply_client env fresh st change =
     (case st of (failures, events) \<Rightarrow> case change of (socket, client, desired) \<Rightarrow>
      let key = (socket, tc_client_pid client); name = tc_client_name client in
      if fresh (tc_client_pid client) \<noteq> Some name then (failures(key := None), events)
      else
        let ok = se_refresh env socket name desired;
            events1 = events @ [Refresh socket (tc_client_pid client) name desired ok]
        in if ok then (failures(key := None), events1)
           else
             let (old_name, old_count) = (case failures key of None \<Rightarrow> (name, 0) | Some f \<Rightarrow> f);
                 count = min 255 ((if old_name \<noteq> name then 0 else old_count) + 1)
             in (failures(key \<mapsto> (name, count)),
                 if count = 2 then events1 @ [WarnTwice socket (tc_client_pid client)] else events1))"

definition apply_socket ::
  "sweep_env \<Rightarrow> (string \<times> tmux_client_row \<times> bool) list \<Rightarrow> ((string \<times> nat) \<rightharpoonup> string \<times> nat) \<times> sweep_event list \<Rightarrow> string
     \<Rightarrow> ((string \<times> nat) \<rightharpoonup> string \<times> nat) \<times> sweep_event list" where
  "apply_socket env plan st socket =
     (let changes = filter (\<lambda>c. fst c = socket) plan in
      if changes = [] then st
      else case se_fresh env socket of
        None \<Rightarrow> st
      | Some fresh \<Rightarrow> foldl (apply_client env fresh) st changes)"

definition sweep_client_size_flags :: "bool \<Rightarrow> sweep_env \<Rightarrow> client_size_sweep_state \<Rightarrow> client_size_sweep_state \<times> sweep_event list" where
  "sweep_client_size_flags supported env state =
     (if \<not> supported then (state, [])
      else
      let clients = located_clients env;
          seen = set (map (\<lambda>(socket, client). (socket, tc_client_pid client)) clients);
          retained = (\<lambda>key. case sw_refresh_failures state key of
              None \<Rightarrow> None
            | Some f \<Rightarrow> if \<exists>(socket, client)\<in>set clients. (socket, tc_client_pid client) = key \<and> tc_client_name client = fst f
                then Some f else None);
          (failures, plan) = foldl (plan_client env (sw_seen_clients state)) (retained, []) clients;
          (failures1, events) = foldl (apply_socket env plan) (failures, []) (se_sockets env)
      in (\<lparr>sw_refresh_failures = failures1, sw_seen_clients = seen\<rparr>, events))"

end
