(* ===== verification/ActivitySafety.thy ===== *)
theory ActivitySafety
  imports ActivityMonitor
begin

text \<open>
  The properties of reports, monitor, probes and sweep: the newest report wins under every
  interleaving, a report the user has seen never raises a hand again, the walk over the process
  table finds exactly the descendants, a note is one short line, and the sweep touches only
  clients it has just confirmed.
\<close>

section \<open>The process tree\<close>








section \<open>Notes\<close>

text \<open>Single spaces between words, none at either side.\<close>

fun single_spaced :: "string \<Rightarrow> bool" where
  "single_spaced [] = True"
| "single_spaced [c] = (is_whitespace c \<longrightarrow> c = CHR '' '')"
| "single_spaced (c # d # s) = ((is_whitespace c \<longrightarrow> c = CHR '' '' \<and> \<not> is_whitespace d) \<and> single_spaced (d # s))"

definition one_line :: "string \<Rightarrow> bool" where
  "one_line s = (single_spaced s \<and> (s \<noteq> [] \<longrightarrow> \<not> is_whitespace (hd s) \<and> \<not> is_whitespace (last s)))"

definition word :: "string \<Rightarrow> bool" where
  "word w = (w \<noteq> [] \<and> (\<forall>c\<in>set w. \<not> is_whitespace c))"

lemma whitespace_space [simp]: "is_whitespace (CHR '' '')"
  by (simp add: is_whitespace_def code_point_def)

lemma split_whitespace_step:
  assumes "\<not> is_whitespace c" and "\<not> is_whitespace d" and "split_whitespace (d # s) = w # ws"
  shows "split_whitespace (c # d # s) = (c # w) # ws"
  using assms by simp

lemma split_whitespace_ne: "\<not> is_whitespace c \<Longrightarrow> \<exists>w ws. split_whitespace (c # s) = w # ws \<and> hd w = c"
  by (cases s) (auto split: list.split)

lemma words_split: "list_all word (split_whitespace s)"
proof (induction s)
  case (Cons c s)
  show ?case
  proof (cases "is_whitespace c \<or> s = []")
    case False
    then obtain d s' where s: "s = d # s'" by (cases s) auto
    show ?thesis
    proof (cases "is_whitespace d")
      case True
      then show ?thesis using False Cons s by (simp add: word_def)
    next
      case d: False
      then obtain w ws where w: "split_whitespace (d # s') = w # ws" using split_whitespace_ne by blast
      with split_whitespace_step [of c d s' w ws] False d Cons show ?thesis unfolding s by (simp add: word_def)
    qed
  qed (use Cons in \<open>auto simp: word_def\<close>)
qed simp

lemma single_spaced_Cons:
  "single_spaced (c # s) \<longleftrightarrow> (is_whitespace c \<longrightarrow> c = CHR '' '' \<and> (s = [] \<or> \<not> is_whitespace (hd s))) \<and> single_spaced s"
  by (cases s) auto

lemma single_spaced_word: "\<forall>c\<in>set w. \<not> is_whitespace c \<Longrightarrow> single_spaced (w @ s) \<longleftrightarrow> single_spaced s"
  by (induction w) (simp_all add: single_spaced_Cons)

lemma single_spaced_prefix: "single_spaced (s @ t) \<Longrightarrow> single_spaced s"
  by (induction s) (auto simp: single_spaced_Cons)

lemma join_words: "list_all word ws \<Longrightarrow> one_line (join_str '' '' ws)"
proof (induction ws rule: induct_list012)
  case (2 w)
  then have "\<forall>c\<in>set w. \<not> is_whitespace c" "w \<noteq> []" by (auto simp: word_def)
  then show ?case using single_spaced_word [of w "[]"] by (simp add: one_line_def)
next
  case (3 w v ws)
  let ?rest = "join_str '' '' (v # ws)"
  have w: "\<forall>c\<in>set w. \<not> is_whitespace c" "w \<noteq> []" and v: "v \<noteq> []" using "3.prems" by (auto simp: word_def)
  then have ne: "?rest \<noteq> []" by (cases ws) simp_all
  have "one_line ?rest" using 3 by simp
  with ne w show ?case by (simp add: one_line_def single_spaced_word single_spaced_Cons)
qed (simp add: one_line_def)

lemma one_line_fixed: "one_line s \<Longrightarrow> join_str '' '' (split_whitespace s) = s"
proof (induction "length s" arbitrary: s rule: less_induct)
  case less
  show ?case
  proof (cases s)
    case (Cons c r)
    have c: "\<not> is_whitespace c" using less.prems Cons by (simp add: one_line_def)
    show ?thesis
    proof (cases r)
      case Nil
      then show ?thesis using c Cons by simp
    next
      case r: (Cons d u)
      show ?thesis
      proof (cases "is_whitespace d")
        case True
        then have d: "d = CHR '' ''" and u: "u \<noteq> []" "one_line u"
          using less.prems Cons r by (auto simp: one_line_def single_spaced_Cons)
        then obtain w ws where "split_whitespace u = w # ws" using split_whitespace_ne [of "hd u" "tl u"] by (auto simp: one_line_def)
        with less.hyps [OF _ u(2)] show ?thesis using c d Cons r by simp
      next
        case False
        have "one_line r" using less.prems Cons r False by (simp add: one_line_def single_spaced_Cons)
        with less.hyps [of r] have IH: "join_str '' '' (split_whitespace r) = r" using Cons by simp
        obtain w ws where w: "split_whitespace (d # u) = w # ws" using split_whitespace_ne [OF False] by blast
        have "join_str '' '' ((c # w) # ws) = c # join_str '' '' (w # ws)" by (cases ws) simp_all
        with IH w split_whitespace_step [OF c False w] show ?thesis unfolding Cons r by simp
      qed
    qed
  qed simp
qed

lemma trim_end_split: "\<exists>t. s = trim_end_matches p s @ t"
  unfolding trim_end_matches_def by (metis rev_append rev_rev_ident takeWhile_dropWhile_id)

lemma trim_end_last: "trim_end_matches p s \<noteq> [] \<Longrightarrow> \<not> p (last (trim_end_matches p s))"
  unfolding trim_end_matches_def by (metis hd_dropWhile last_rev rev_is_Nil_conv)

lemma trim_end_id: "s \<noteq> [] \<Longrightarrow> \<not> p (last s) \<Longrightarrow> trim_end_matches p s = s"
  by (cases s rule: rev_cases) (simp_all add: trim_end_matches_def)

text \<open>
  A note that is kept is one line of words with single spaces between them, not empty and not
  longer than the limit, and normalising it again changes nothing.
\<close>

theorem note_normal:
  assumes "normalize_manual_note s = Some n"
  shows "n \<noteq> [] \<and> length n \<le> MANUAL_NOTE_MAX_CHARS \<and> one_line n \<and> normalize_manual_note n = Some n"
proof -
  let ?line = "join_str '' '' (split_whitespace s)" and ?trim = "trim_end_matches is_whitespace"
  have n: "n = ?trim (take MANUAL_NOTE_MAX_CHARS ?line)" "n \<noteq> []"
    using assms by (auto simp: normalize_manual_note_def Let_def split: if_splits)
  obtain t where t: "take MANUAL_NOTE_MAX_CHARS ?line = n @ t" using trim_end_split n(1) by metis
  then have line: "?line = n @ t @ drop MANUAL_NOTE_MAX_CHARS ?line" by (metis append.assoc append_take_drop_id)
  have len: "length n \<le> MANUAL_NOTE_MAX_CHARS" using t by (metis length_append length_take le_add1 le_trans min.cobounded2)
  have "one_line ?line" by (rule join_words [OF words_split])
  then have "single_spaced n" "\<not> is_whitespace (hd n)"
    using line n(2) single_spaced_prefix by (auto simp: one_line_def) (metis Nil_is_append_conv hd_append2)+
  then have one: "one_line n" using trim_end_last n by (simp add: one_line_def)
  have "normalize_manual_note n = Some n"
    using n(2) len one trim_end_id [of n is_whitespace] by (simp add: normalize_manual_note_def one_line_fixed Let_def one_line_def)
  with n(2) len one show ?thesis by simp
qed

theorem note_normal_witness:
  "normalize_manual_note ''  waiting   on review '' = Some ''waiting on review'' \<and> one_line ''waiting on review''"
proof -
  have "normalize_manual_note ''  waiting   on review '' = Some ''waiting on review''" by code_simp
  then show ?thesis using note_normal by blast
qed

section \<open>The machine of reports and ticks\<close>

text \<open>
  Reports read and write in two steps, so any number of them is in flight (\<open>ac_pending\<close>); the
  monitor reads the table at a tick and writes later.  \<open>ac_written\<close> are the reports whose write was
  executed, \<open>ac_seen\<close> the sequence numbers of the reports that were fresh while a terminal was
  attached, \<open>ac_used\<close> every workspace that ever existed.
\<close>

record act =
  ac_rows :: activity_table
  ac_workspaces :: "uuid set"
  ac_used :: "uuid set"
  ac_pending :: "(uuid \<times> cli_hook_state \<times> bool) list"
  ac_written :: "(uuid \<times> cli_hook_state) list"
  ac_mon :: monitor
  ac_seen :: "(uuid \<times> int) set"

definition act_init :: act where
  "act_init = \<lparr>ac_rows = [], ac_workspaces = {}, ac_used = {}, ac_pending = [], ac_written = [], ac_mon = monitor_init, ac_seen = {}\<rparr>"

definition tick_hooks :: "activity_table option \<Rightarrow> datetime \<Rightarrow> uuid \<Rightarrow> (cli_activity_state \<times> int) option" where
  "tick_hooks table now_utc = (case table of None \<Rightarrow> Map.empty | Some rows \<Rightarrow> hooks_of (find_all_activity rows) now_utc)"

definition seen_at :: "tmux_observation_snapshot \<Rightarrow> (uuid \<rightharpoonup> cli_activity_state \<times> int) \<Rightarrow> (uuid \<times> int) set" where
  "seen_at snapshot hooks =
     set (List.map_filter (\<lambda>(w, obs). if oc_attached obs then map_option (\<lambda>(b, n). (w, n)) (hooks w) else None) (ts_observations snapshot))"

lemma seen_at_iff:
  "(w, n) \<in> seen_at snapshot hooks \<longleftrightarrow> (\<exists>obs b. (w, obs) \<in> set (ts_observations snapshot) \<and> oc_attached obs \<and> hooks w = Some (b, n))"
  by (force simp: seen_at_def List.map_filter_def split: if_splits)

inductive act_step :: "act \<Rightarrow> act \<Rightarrow> bool" where
  act_read: "report_next (ac_rows s) w payload seq = Some h
    \<Longrightarrow> act_step s (s\<lparr>ac_pending := ac_pending s @ [(w, h, clears_manual payload)]\<rparr>)"
| act_write: "(w, h, c) \<in> set (ac_pending s) \<Longrightarrow> upsert_hook (ac_workspaces s) (ac_rows s) w h c now = Inr rows
    \<Longrightarrow> act_step s (s\<lparr>ac_rows := rows, ac_pending := remove1 (w, h, c) (ac_pending s), ac_written := ac_written s @ [(w, h)]\<rparr>)"
| act_write_fails: "p \<in> set (ac_pending s) \<Longrightarrow> act_step s (s\<lparr>ac_pending := remove1 p (ac_pending s)\<rparr>)"
| act_poll: "upsert_activity (ac_workspaces s) (ac_rows s) w state now = Inr rows \<Longrightarrow> act_step s (s\<lparr>ac_rows := rows\<rparr>)"
| act_manual: "set_cli_manual (ac_workspaces s) (ac_rows s) w kind note now = Inr rows \<Longrightarrow> act_step s (s\<lparr>ac_rows := rows\<rparr>)"
| act_clear_ended: "act_step s (s\<lparr>ac_rows := clear_ended_phase (ac_rows s) w\<rparr>)"
| act_tick: "table \<in> {None, Some (ac_rows s)} \<Longrightarrow> snapshot = observe_tmux_on parse_uuid entries sockets
    \<Longrightarrow> monitor_tick write_ok now now_utc table snapshot (ac_mon s) = (m, writes)
    \<Longrightarrow> act_step s (s\<lparr>ac_mon := m, ac_seen := ac_seen s \<union> seen_at snapshot (tick_hooks table now_utc)\<rparr>)"
| act_create: "w \<notin> ac_used s \<Longrightarrow> act_step s (s\<lparr>ac_workspaces := insert w (ac_workspaces s), ac_used := insert w (ac_used s)\<rparr>)"
| act_delete: "act_step s (s\<lparr>ac_workspaces := ac_workspaces s - {w}, ac_rows := delete_where (\<lambda>r. ar_workspace_id r = w) (ac_rows s)\<rparr>)"

text \<open>The report a row comes from; a new agent in the pane erases the phase of an ended one.\<close>

definition from_report :: "cli_activity_row \<Rightarrow> cli_hook_state \<Rightarrow> bool" where
  "from_report r h =
     (ar_agent_session_id r = Some (hk_agent_session_id h) \<and> ar_transcript_path r = hk_transcript_path h \<and> ar_seq r = hk_seq h
      \<and> (ar_phase r = Some (phase_str (hk_phase h)) \<and> ar_tasks r = hk_tasks h \<and> ar_crons r = hk_crons h
         \<or> ar_phase r = None \<and> hk_phase h = PhEnded))"

definition row_inv :: "(uuid \<times> cli_hook_state) set \<Rightarrow> cli_activity_row \<Rightarrow> bool" where
  "row_inv written r =
     ((\<forall>h. (ar_workspace_id r, h) \<in> written \<longrightarrow> hk_seq h \<le> ar_seq r)
      \<and> (case ar_hook_at r of None \<Rightarrow> ar_agent_session_id r = None \<and> ar_phase r = None
          | Some _ \<Rightarrow> \<exists>h. (ar_workspace_id r, h) \<in> written \<and> from_report r h))"

definition act_tables_inv :: "act \<Rightarrow> bool" where
  "act_tables_inv s =
     (distinct (map ar_workspace_id (ac_rows s)) \<and> ar_workspace_id ` set (ac_rows s) \<subseteq> ac_workspaces s
      \<and> ac_workspaces s \<subseteq> ac_used s
      \<and> (\<forall>(w, h)\<in>set (ac_written s). w \<in> ac_used s \<and> (w \<in> ac_workspaces s \<longrightarrow> has_row (ac_rows s) w))
      \<and> (\<forall>r\<in>set (ac_rows s). row_inv (set (ac_written s)) r))"

definition act_seen_inv :: "act \<Rightarrow> bool" where
  "act_seen_inv s =
     ((\<forall>w n. mo_hook_acked (ac_mon s) w = Some n \<longrightarrow>
         w \<in> ac_used s \<and> (w \<in> ac_workspaces s \<longrightarrow> has_row (ac_rows s) w)
         \<and> (\<forall>r\<in>set (ac_rows s). ar_workspace_id r = w \<longrightarrow> n \<le> ar_seq r))
      \<and> (\<forall>(w, n)\<in>ac_seen s. \<exists>m. mo_hook_acked (ac_mon s) w = Some m \<and> n \<le> m))"

definition act_inv :: "act \<Rightarrow> bool" where
  "act_inv s = (act_tables_inv s \<and> act_seen_inv s)"

subsection \<open>Writes of the table\<close>

text \<open>What every write of the table keeps: keys, foreign keys, and sequence numbers that never fall.\<close>

definition rows_le :: "activity_table \<Rightarrow> activity_table \<Rightarrow> bool" where
  "rows_le rows rows' = (\<forall>r'\<in>set rows'. \<forall>r\<in>set rows. ar_workspace_id r = ar_workspace_id r' \<longrightarrow> ar_seq r \<le> ar_seq r')"

lemma insert_or_update_keys:
  assumes "insert_or_update ws rows new p f = Inr rows'" and "\<And>r. ar_workspace_id (f r) = ar_workspace_id r"
    and "distinct (map ar_workspace_id rows)" and "ar_workspace_id ` set rows \<subseteq> ws"
  shows "distinct (map ar_workspace_id rows') \<and> ar_workspace_id ` set rows' \<subseteq> ws"
proof (cases "has_row rows (ar_workspace_id new)")
  case True
  then have "rows' = update_where (\<lambda>r. ar_workspace_id r = ar_workspace_id new \<and> p r) f rows" using assms(1) by (simp add: insert_or_update_def)
  then have "map ar_workspace_id rows' = map ar_workspace_id rows" using assms(2) by (simp add: map_key_update_where)
  with assms(3,4) show ?thesis by (metis list.set_map)
next
  case False
  then have "rows' = rows @ [new]" "ar_workspace_id new \<in> ws" using assms(1) by (auto simp: insert_or_update_def split: if_splits)
  with False assms(3,4) show ?thesis by (auto simp: has_row_def)
qed

lemma insert_or_update_rows:
  assumes run: "insert_or_update ws rows new p f = Inr rows'" and key: "\<And>r. ar_workspace_id (f r) = ar_workspace_id r"
    and r': "r' \<in> set rows'"
  obtains (old) "r' \<in> set rows" "ar_workspace_id r' \<noteq> ar_workspace_id new"
  | (kept) "r' \<in> set rows" "ar_workspace_id r' = ar_workspace_id new" "\<not> p r'"
  | (updated) r where "r \<in> set rows" "ar_workspace_id r = ar_workspace_id new" "p r" "r' = f r"
  | (inserted) "r' = new" "\<not> has_row rows (ar_workspace_id new)" "ar_workspace_id new \<in> ws"
proof (cases "has_row rows (ar_workspace_id new)")
  case True
  with run r' have "r' \<in> set (update_where (\<lambda>r. ar_workspace_id r = ar_workspace_id new \<and> p r) f rows)"
    by (simp add: insert_or_update_def)
  then obtain r where "r \<in> set rows" "r' = (if ar_workspace_id r = ar_workspace_id new \<and> p r then f r else r)"
    by (auto simp: update_where_def)
  with that show ?thesis by (metis (full_types))
next
  case False
  with run have rows': "rows' = rows @ [new]" and ws: "ar_workspace_id new \<in> ws" by (auto simp: insert_or_update_def split: if_splits)
  show ?thesis
  proof (cases "r' = new")
    case True
    then show ?thesis using False ws by (rule inserted)
  next
    case other: False
    with r' rows' have "r' \<in> set rows" by simp
    moreover from this False have "ar_workspace_id r' \<noteq> ar_workspace_id new" by (auto simp: has_row_def)
    ultimately show ?thesis by (rule old)
  qed
qed

lemma insert_or_update_le:
  assumes run: "insert_or_update ws rows new p f = Inr rows'" and key: "\<And>r. ar_workspace_id (f r) = ar_workspace_id r"
    and d: "distinct (map ar_workspace_id rows)" and seq: "\<And>r. p r \<Longrightarrow> ar_seq r \<le> ar_seq (f r)"
  shows "rows_le rows rows'"
  unfolding rows_le_def
proof (intro ballI impI)
  fix r' r assume r': "r' \<in> set rows'" and r: "r \<in> set rows" "ar_workspace_id r = ar_workspace_id r'"
  have eq: "r = q" if "q \<in> set rows" "ar_workspace_id q = ar_workspace_id r" for q
    by (rule distinct_key_eq [OF d r(1) that(1)]) (simp add: that(2))
  from run key r' show "ar_seq r \<le> ar_seq r'"
  proof (cases rule: insert_or_update_rows)
    case (updated q)
    then show ?thesis using eq [of q] r key seq by auto
  next
    case inserted
    then show ?thesis using r by (auto simp: has_row_def)
  qed (use eq [of r'] r in auto)
qed

lemma hook_set_sel [simp]:
  "ar_workspace_id (hook_set h at r) = ar_workspace_id r" "ar_seq (hook_set h at r) = hk_seq h" "ar_hook_at (hook_set h at r) = Some at"
  by (simp_all add: hook_set_def)

lemma from_report_hook_set [simp]: "from_report (hook_set h at r) h"
  by (simp add: from_report_def hook_set_def)

lemma row_inv_upsert_hook:
  assumes run: "upsert_hook ws rows w h c at = Inr rows'" and inv: "\<forall>r\<in>set rows. row_inv written r"
    and fresh: "\<not> has_row rows w \<Longrightarrow> w \<in> ws \<Longrightarrow> \<forall>h'. (w, h') \<in> written \<longrightarrow> hk_seq h' \<le> hk_seq h" and r': "r' \<in> set rows'"
  shows "row_inv (insert (w, h) written) r'"
proof -
  have from_h: "row_inv (insert (w, h) written) q"
    if "ar_workspace_id q = w" "from_report q h" "ar_hook_at q \<noteq> None" "\<forall>h'. (w, h') \<in> written \<longrightarrow> hk_seq h' \<le> hk_seq h" for q
    using that by (auto simp: row_inv_def from_report_def)
  have old: "row_inv (insert (w, h) written) q" if "q \<in> set rows" "ar_workspace_id q = w \<longrightarrow> hk_seq h \<le> ar_seq q" for q
    using inv that by (fastforce simp: row_inv_def split: option.splits)
  have w: "ar_workspace_id (hook_set h at (default_row w at)) = w" by (simp add: default_row_def)
  have key: "ar_workspace_id (let r1 = hook_set h at r in if c then r1\<lparr>ar_manual_kind := None, ar_manual_note := None\<rparr> else r1)
      = ar_workspace_id r" for r by (simp add: Let_def)
  from run [unfolded upsert_hook_def] key r' show ?thesis
  proof (cases rule: insert_or_update_rows)
    case (updated r)
    then have "row_inv written r" using inv by blast
    then have "\<forall>h'. (w, h') \<in> written \<longrightarrow> hk_seq h' \<le> hk_seq h" using updated w by (force simp: row_inv_def)
    moreover have "ar_workspace_id r' = w" "from_report r' h" "ar_hook_at r' \<noteq> None"
      using updated w by (auto simp: Let_def from_report_def hook_set_def)
    ultimately show ?thesis by (intro from_h)
  next
    case inserted
    then show ?thesis using fresh w by (intro from_h) (simp_all add: inserted)
  qed (use old w in \<open>auto simp: Let_def\<close>)
qed

lemma row_inv_same:
  assumes "row_inv written r" and "ar_workspace_id r' = ar_workspace_id r" and "ar_seq r' = ar_seq r" and "ar_hook_at r' = ar_hook_at r"
    and "ar_agent_session_id r' = ar_agent_session_id r" and "ar_transcript_path r' = ar_transcript_path r" and "ar_phase r' = ar_phase r"
    and "ar_tasks r' = ar_tasks r" and "ar_crons r' = ar_crons r"
  shows "row_inv written r'"
  using assms by (simp add: row_inv_def from_report_def split: option.splits)

lemma row_inv_default:
  "\<forall>h. (w, h) \<notin> written \<Longrightarrow> ar_workspace_id r = w \<Longrightarrow> ar_hook_at r = None \<Longrightarrow> ar_agent_session_id r = None \<Longrightarrow> ar_phase r = None
    \<Longrightarrow> row_inv written r"
  by (simp add: row_inv_def)

text \<open>The statements that write nothing of a report.\<close>

definition keeps_report :: "(cli_activity_row \<Rightarrow> cli_activity_row) \<Rightarrow> bool" where
  "keeps_report f =
     (\<forall>r. ar_workspace_id (f r) = ar_workspace_id r \<and> ar_seq (f r) = ar_seq r \<and> ar_hook_at (f r) = ar_hook_at r
        \<and> ar_agent_session_id (f r) = ar_agent_session_id r \<and> ar_transcript_path (f r) = ar_transcript_path r \<and> ar_phase (f r) = ar_phase r
        \<and> ar_tasks (f r) = ar_tasks r \<and> ar_crons (f r) = ar_crons r)"

lemma has_row_keys: "has_row rows w \<longleftrightarrow> w \<in> set (map ar_workspace_id rows)"
  by (auto simp: has_row_def)

lemma has_row_insert_or_update:
  assumes "insert_or_update ws rows new p f = Inr rows'" and "\<And>r. ar_workspace_id (f r) = ar_workspace_id r"
  shows "has_row rows' w \<longleftrightarrow> has_row rows w \<or> w = ar_workspace_id new"
proof (cases "has_row rows (ar_workspace_id new)")
  case True
  then have "rows' = update_where (\<lambda>r. ar_workspace_id r = ar_workspace_id new \<and> p r) f rows" using assms(1) by (simp add: insert_or_update_def)
  then have "map ar_workspace_id rows' = map ar_workspace_id rows" using assms(2) by (simp add: map_key_update_where)
  then show ?thesis using True by (auto simp: has_row_keys)
next
  case False
  then show ?thesis using assms(1) by (auto simp: insert_or_update_def has_row_def split: if_splits)
qed

lemma act_write_inv:
  assumes inv: "act_tables_inv s" and run: "insert_or_update (ac_workspaces s) (ac_rows s) new p f = Inr rows"
    and key: "\<And>r. ar_workspace_id (f r) = ar_workspace_id r"
    and rows: "\<And>r. r \<in> set rows \<Longrightarrow> row_inv (set (ac_written s) \<union> set new_written) r"
    and new: "fst ` set new_written \<subseteq> {ar_workspace_id new}"
  shows "act_tables_inv (s\<lparr>ac_rows := rows, ac_pending := pend, ac_written := ac_written s @ new_written\<rparr>)"
proof -
  have tables: "distinct (map ar_workspace_id (ac_rows s))" "ar_workspace_id ` set (ac_rows s) \<subseteq> ac_workspaces s" "ac_workspaces s \<subseteq> ac_used s"
    using inv by (auto simp: act_tables_inv_def)
  have keys: "distinct (map ar_workspace_id rows)" "ar_workspace_id ` set rows \<subseteq> ac_workspaces s"
    using insert_or_update_keys [OF run key tables(1,2)] by auto
  have row: "has_row rows w \<longleftrightarrow> has_row (ac_rows s) w \<or> w = ar_workspace_id new" for w by (rule has_row_insert_or_update [OF run key])
  have known: "ar_workspace_id new \<in> ac_workspaces s"
    using row [of "ar_workspace_id new"] keys(2) by (auto simp: has_row_def)
  have written: "w \<in> ac_used s \<and> (w \<in> ac_workspaces s \<longrightarrow> has_row rows w)" if "(w, h) \<in> set (ac_written s @ new_written)" for w h
  proof (cases "(w, h) \<in> set new_written")
    case True
    then have "w = ar_workspace_id new" using new by (metis fst_conv image_eqI singletonD subsetD)
    with known tables(3) row show ?thesis by blast
  next
    case False
    with that inv row show ?thesis by (auto simp: act_tables_inv_def)
  qed
  then have "\<forall>(w, h)\<in>set (ac_written s @ new_written). w \<in> ac_used s \<and> (w \<in> ac_workspaces s \<longrightarrow> has_row rows w)" by blast
  with keys rows tables(3) show ?thesis by (simp add: act_tables_inv_def)
qed

lemma plain_write_inv:
  assumes inv: "act_tables_inv s" and run: "insert_or_update (ac_workspaces s) (ac_rows s) new p f = Inr rows"
    and f: "keeps_report f" and new: "ar_hook_at new = None" "ar_agent_session_id new = None" "ar_phase new = None"
  shows "act_tables_inv (s\<lparr>ac_rows := rows\<rparr>)"
proof -
  have key: "ar_workspace_id (f r) = ar_workspace_id r" for r using f by (simp add: keeps_report_def)
  have rows: "row_inv (set (ac_written s)) r'" if r': "r' \<in> set rows" for r'
  proof -
    have old: "\<And>r. r \<in> set (ac_rows s) \<Longrightarrow> row_inv (set (ac_written s)) r" using inv by (simp add: act_tables_inv_def)
    from run key r' show ?thesis
    proof (cases rule: insert_or_update_rows)
      case (updated r)
      have "row_inv (set (ac_written s)) r" by (rule old [OF updated(1)])
      then show ?thesis unfolding updated(4) by (rule row_inv_same) (use f in \<open>simp_all add: keeps_report_def\<close>)
    next
      case inserted
      then have "\<forall>h. (ar_workspace_id new, h) \<notin> set (ac_written s)" using inv by (fastforce simp: act_tables_inv_def)
      then show ?thesis unfolding inserted(1) by (rule row_inv_default) (simp_all add: new)
    qed (use old in auto)
  qed
  have "act_tables_inv (s\<lparr>ac_rows := rows, ac_pending := ac_pending s, ac_written := ac_written s @ []\<rparr>)"
    by (rule act_write_inv [OF inv run key]) (use rows in auto)
  then show ?thesis by (simp add: act_tables_inv_def)
qed

lemma ended_phase [simp]: "''ended'' = phase_str p \<longleftrightarrow> p = PhEnded"
  by (cases p) simp_all

lemma act_tables_step: "act_tables_inv s \<Longrightarrow> act_step s t \<Longrightarrow> act_tables_inv t"
proof (erule act_step.cases, goal_cases)
  case (2 w h c s now rows)
  have row: "row_inv (set (ac_written s) \<union> set [(w, h)]) r" if "r \<in> set rows" for r
    using row_inv_upsert_hook [OF 2(5) _ _ that, of "set (ac_written s)"] 2(1,2) by (fastforce simp: act_tables_inv_def)
  show ?case unfolding 2(3)
    by (rule act_write_inv [OF 2(1) [unfolded 2(2)] 2(5) [unfolded upsert_hook_def]]) (use row in \<open>auto simp: Let_def default_row_def\<close>)
next
  case (4 s w state now rows)
  then show ?case by (auto simp: upsert_activity_def keeps_report_def default_row_def intro: plain_write_inv)
next
  case (5 s w kind nt now rows)
  then show ?case
    by (auto simp: set_cli_manual_def set_manual_def Let_def keeps_report_def default_row_def intro: plain_write_inv)
next
  case (6 s w)
  let ?rows = "clear_ended_phase (ac_rows s) w"
  have keys: "map ar_workspace_id ?rows = map ar_workspace_id (ac_rows s)" by (simp add: clear_ended_phase_def map_key_update_where)
  have cleared: "row_inv (set (ac_written s)) (r\<lparr>ar_phase := None, ar_tasks := None, ar_crons := None\<rparr>)"
    if "row_inv (set (ac_written s)) r" "ar_phase r = Some ''ended''" for r
    using that by (cases "ar_hook_at r") (auto simp: row_inv_def from_report_def ended_phase)
  have "\<forall>r\<in>set ?rows. row_inv (set (ac_written s)) r"
    using 6 cleared by (simp add: act_tables_inv_def clear_ended_phase_def ball_update_where)
  then show ?case using 6 keys by (simp add: act_tables_inv_def has_row_keys del: set_map) (simp flip: set_map)
next
  case (9 s w)
  then show ?case by (auto simp: act_tables_inv_def delete_where_def distinct_map_filter has_row_def)
qed (auto simp: act_tables_inv_def has_row_def)

subsection \<open>Ticks\<close>

text \<open>What the monitor knows of one workspace, and how the loop over the sessions treats it.\<close>

definition mon_view :: "monitor \<Rightarrow> uuid \<Rightarrow> cli_activity_state option \<times> int option \<times> int option" where
  "mon_view m w = (map_of (mo_states m) w, mo_detached_since m w, mo_hook_acked m w)"

lemma mon_view_record: "v \<noteq> w \<Longrightarrow> mon_view (fst (record_state ok w st mw)) v = mon_view (fst mw) v"
  by (cases mw) (simp add: record_state_def mon_view_def update_conv)

lemma record_state_sel [simp]:
  "mo_hook_acked (fst (record_state ok w st mw)) = mo_hook_acked (fst mw)" "snd (record_state ok w st mw) = snd mw @ [(w, st)]"
  by (cases mw, simp add: record_state_def)+

lemma watch_one_other:
  "v \<noteq> w \<Longrightarrow> mon_view (fst (watch_one ok now hooks (w, obs) mw)) v = mon_view (fst mw) v"
  by (cases mw) (auto simp: watch_one_def Let_def mon_view_record, auto simp: mon_view_def split: option.splits)

lemma watch_one_acked:
  "mo_hook_acked (fst (watch_one ok now hooks (w, obs) mw)) v
    = (if v = w \<and> oc_attached obs \<and> hooks w \<noteq> None then map_option snd (hooks w) else mo_hook_acked (fst mw) v)"
  by (cases mw) (auto simp: watch_one_def Let_def split: option.splits prod.splits)

lemma watch_one_writes:
  "\<exists>new. snd (watch_one ok now hooks (w, obs) (m, ws)) = ws @ new \<and> set new \<subseteq> {w} \<times> UNIV
    \<and> new = snd (watch_one ok now hooks (w, obs) (m, []))"
  by (auto simp: watch_one_def Let_def)

text \<open>When a session's own observation writes \<open>attention\<close>.\<close>

lemma watch_one_attention:
  assumes "(w, ActAttention) \<in> set (snd (watch_one ok now hooks (w, obs) (m, [])))"
  shows "oc_claude_like obs \<and> \<not> oc_attached obs \<and> map_of (mo_states m) w \<noteq> Some ActAttention
    \<and> (case hooks w of
         Some (bucket, seq) \<Rightarrow> bucket = ActAttention \<and> (case mo_hook_acked m w of None \<Rightarrow> True | Some acked \<Rightarrow> acked < seq)
       | None \<Rightarrow> map_of (mo_states m) w = Some ActRunning \<and> oc_last_activity obs + ACTIVE_WINDOW_SECS < now
           \<and> (\<exists>since. mo_detached_since m w = Some since \<and> since + DETACH_SETTLE_SECS \<le> oc_last_activity obs))"
  using assms
  by (auto simp: watch_one_def Let_def next_state_def record_state_def ACTIVE_WINDOW_SECS_def DETACH_SETTLE_SECS_def
      split: if_splits option.splits prod.splits cli_activity_state.splits)

abbreviation watch_all where
  "watch_all ok now hooks \<equiv> foldl (\<lambda>mw wo. watch_one ok now hooks wo mw)"

lemma watch_all_writes:
  assumes "(w, st) \<in> set (snd (watch_all ok now hooks (m, ws) obsl))" and "distinct (map fst obsl)"
  shows "(w, st) \<in> set ws \<or> (\<exists>obs m1. (w, obs) \<in> set obsl \<and> mon_view m1 w = mon_view m w
      \<and> (w, st) \<in> set (snd (watch_one ok now hooks (w, obs) (m1, []))))"
  using assms
proof (induction obsl arbitrary: m ws)
  case (Cons wo obsl)
  obtain v obs where wo: "wo = (v, obs)" by (cases wo)
  obtain m1 ws1 where one: "watch_one ok now hooks (v, obs) (m, ws) = (m1, ws1)" by (cases "watch_one ok now hooks (v, obs) (m, ws)")
  obtain new where new: "ws1 = ws @ new" "set new \<subseteq> {v} \<times> UNIV" "new = snd (watch_one ok now hooks (v, obs) (m, []))"
    using watch_one_writes [of ok now hooks v obs m ws] one by auto
  have "(w, st) \<in> set ws1 \<or> (\<exists>obs m2. (w, obs) \<in> set obsl \<and> mon_view m2 w = mon_view m1 w
      \<and> (w, st) \<in> set (snd (watch_one ok now hooks (w, obs) (m2, []))))"
    by (rule Cons.IH) (use Cons.prems wo one in auto)
  then show ?case
  proof
    assume "(w, st) \<in> set ws1"
    then show ?thesis using new wo by auto
  next
    assume "\<exists>obs m2. (w, obs) \<in> set obsl \<and> mon_view m2 w = mon_view m1 w
        \<and> (w, st) \<in> set (snd (watch_one ok now hooks (w, obs) (m2, [])))"
    then obtain obs' m2 where r: "(w, obs') \<in> set obsl" "mon_view m2 w = mon_view m1 w"
        "(w, st) \<in> set (snd (watch_one ok now hooks (w, obs') (m2, [])))" by blast
    then have "w \<noteq> v" using Cons.prems(2) wo by (auto simp: rev_image_eqI)
    then have "mon_view m1 w = mon_view m w" using watch_one_other [of w v ok now hooks obs "(m, ws)"] one by simp
    with r wo show ?thesis by auto
  qed
qed simp

lemma watch_all_acked:
  "mo_hook_acked (fst (watch_all ok now hooks mw obsl)) w
    = (if (\<exists>obs. (w, obs) \<in> set obsl \<and> oc_attached obs) \<and> hooks w \<noteq> None then map_option snd (hooks w) else mo_hook_acked (fst mw) w)"
  by (induction obsl arbitrary: mw) (auto simp: watch_one_acked)

lemma record_all:
  "mo_hook_acked (fst (foldl (\<lambda>mw w. record_state ok w ActIdle mw) mw ws)) = mo_hook_acked (fst mw)
   \<and> set (snd (foldl (\<lambda>mw w. record_state ok w ActIdle mw) mw ws)) \<subseteq> set (snd mw) \<union> UNIV \<times> {ActIdle}"
proof (induction ws arbitrary: mw)
  case (Cons w ws)
  from Cons [of "record_state ok w ActIdle mw"] show ?case by (auto dest: subsetD)
qed simp

definition tick_start :: "activity_table option \<Rightarrow> monitor \<Rightarrow> monitor" where
  "tick_start table m = (case table of None \<Rightarrow> m | Some rows \<Rightarrow> m\<lparr>mo_states := map (\<lambda>a. (wa_workspace_id a, wa_state a)) (find_all_activity rows)\<rparr>)"

lemma monitor_tick_eq:
  "\<exists>gone. monitor_tick ok now now_utc table snapshot m
    = foldl (\<lambda>mw w. record_state ok w ActIdle mw)
        (watch_all ok now (tick_hooks table now_utc) (tick_start table m, []) (ts_observations snapshot)) gone"
  by (cases table) (auto simp: monitor_tick_def tick_hooks_def tick_start_def Let_def case_prod_unfold)

lemma tick_start_acked [simp]: "mo_hook_acked (tick_start table m) = mo_hook_acked m" "mo_detached_since (tick_start table m) = mo_detached_since m"
  by (cases table; simp add: tick_start_def)+

lemma monitor_tick_acked:
  "mo_hook_acked (fst (monitor_tick ok now now_utc table snapshot m)) w
    = (if \<exists>n. (w, n) \<in> seen_at snapshot (tick_hooks table now_utc) then map_option snd (tick_hooks table now_utc w) else mo_hook_acked m w)"
proof -
  obtain gone where "monitor_tick ok now now_utc table snapshot m
    = foldl (\<lambda>mw w. record_state ok w ActIdle mw)
        (watch_all ok now (tick_hooks table now_utc) (tick_start table m, []) (ts_observations snapshot)) gone"
    using monitor_tick_eq by blast
  then show ?thesis using record_all by (auto simp: watch_all_acked seen_at_iff)
qed

lemma monitor_tick_attention:
  assumes "(w, ActAttention) \<in> set (snd (monitor_tick ok now now_utc table snapshot m))" and "distinct (map fst (ts_observations snapshot))"
  shows "\<exists>obs m1. (w, obs) \<in> set (ts_observations snapshot) \<and> mon_view m1 w = mon_view (tick_start table m) w
      \<and> (w, ActAttention) \<in> set (snd (watch_one ok now (tick_hooks table now_utc) (w, obs) (m1, [])))"
proof -
  obtain gone where eq: "monitor_tick ok now now_utc table snapshot m
    = foldl (\<lambda>mw w. record_state ok w ActIdle mw)
        (watch_all ok now (tick_hooks table now_utc) (tick_start table m, []) (ts_observations snapshot)) gone"
    using monitor_tick_eq by blast
  have "(w, ActAttention) \<in> set (snd (watch_all ok now (tick_hooks table now_utc) (tick_start table m, []) (ts_observations snapshot)))"
    using assms(1) record_all [of ok "watch_all ok now (tick_hooks table now_utc) (tick_start table m, []) (ts_observations snapshot)" gone]
    unfolding eq by auto
  from watch_all_writes [OF this assms(2)] show ?thesis by simp
qed

lemma distinct_observations: "distinct (map fst (ts_observations (observe_tmux_on parse_uuid entries sockets)))"
proof -
  have "distinct (map fst (foldl add_observation obs new))" if "distinct (map fst obs)" for obs new
    using that by (induction new arbitrary: obs) (auto simp: add_observation_def distinct_update split: prod.split)
  then show ?thesis by (simp add: observe_tmux_on_def Let_def)
qed

text \<open>A fresh report of a tick is a row of the table.\<close>

lemma hooks_of_row:
  assumes "hooks_of (find_all_activity rows) now w = Some (b, n)"
  shows "\<exists>r\<in>set rows. ar_workspace_id r = w \<and> ar_seq r = n"
proof -
  have "(w, b, n) \<in> set (List.map_filter (\<lambda>a. case fresh_phase a now of None \<Rightarrow> None
      | Some phase \<Rightarrow> (case wa_hook a of None \<Rightarrow> None | Some hook \<Rightarrow> Some (wa_workspace_id a, hook_bucket phase (hk_tasks hook), hk_seq hook)))
      (find_all_activity rows))"
    using assms unfolding hooks_of_def by (rule map_of_SomeD)
  then show ?thesis
    by (fastforce simp: List.map_filter_def find_all_activity_def read_row_def split: option.splits)
qed

lemma seen_inv_rows:
  assumes seen: "act_seen_inv s" and t: "act_tables_inv t" and le: "rows_le (ac_rows s) (ac_rows t)"
    and same: "ac_mon t = ac_mon s" "ac_seen t = ac_seen s" "ac_used s \<subseteq> ac_used t" "ac_workspaces t \<inter> ac_used s \<subseteq> ac_workspaces s"
    and rows: "\<And>w. w \<in> ac_workspaces t \<Longrightarrow> has_row (ac_rows s) w \<Longrightarrow> has_row (ac_rows t) w"
  shows "act_seen_inv t"
proof -
  have "w \<in> ac_used t \<and> (w \<in> ac_workspaces t \<longrightarrow> has_row (ac_rows t) w)
      \<and> (\<forall>r\<in>set (ac_rows t). ar_workspace_id r = w \<longrightarrow> n \<le> ar_seq r)" if acked: "mo_hook_acked (ac_mon t) w = Some n" for w n
  proof -
    from acked seen same(1) have w: "w \<in> ac_used s" "w \<in> ac_workspaces s \<longrightarrow> has_row (ac_rows s) w"
      "\<And>r. r \<in> set (ac_rows s) \<Longrightarrow> ar_workspace_id r = w \<Longrightarrow> n \<le> ar_seq r" by (auto simp: act_seen_inv_def)
    have "n \<le> ar_seq r" if r: "r \<in> set (ac_rows t)" "ar_workspace_id r = w" for r
    proof -
      have "w \<in> ac_workspaces t" using t r by (auto simp: act_tables_inv_def)
      with w same(4) have "has_row (ac_rows s) w" by blast
      then obtain q where q: "q \<in> set (ac_rows s)" "ar_workspace_id q = w" by (auto simp: has_row_def)
      then have "ar_seq q \<le> ar_seq r" using le r by (simp add: rows_le_def)
      with w(3) [OF q] show ?thesis by simp
    qed
    with w same(3,4) rows show ?thesis by blast
  qed
  then show ?thesis using seen same(1,2) by (auto simp: act_seen_inv_def)
qed

lemma rows_le_refl: "distinct (map ar_workspace_id rows) \<Longrightarrow> rows_le rows rows"
  unfolding rows_le_def by (metis distinct_key_eq order_refl)

lemma rows_le_subset: "distinct (map ar_workspace_id rows) \<Longrightarrow> set rows' \<subseteq> set rows \<Longrightarrow> rows_le rows rows'"
  unfolding rows_le_def by (metis distinct_key_eq order_refl subsetD)

lemma seen_inv_write:
  assumes inv: "act_inv s" and t: "act_tables_inv t" and run: "insert_or_update (ac_workspaces s) (ac_rows s) new p f = Inr rows"
    and key: "\<And>r. ar_workspace_id (f r) = ar_workspace_id r" and seq: "\<And>r. p r \<Longrightarrow> ar_seq r \<le> ar_seq (f r)"
    and same: "ac_rows t = rows" "ac_mon t = ac_mon s" "ac_seen t = ac_seen s" "ac_used t = ac_used s" "ac_workspaces t = ac_workspaces s"
  shows "act_seen_inv t"
proof (rule seen_inv_rows [OF _ t])
  have d: "distinct (map ar_workspace_id (ac_rows s))" using inv by (simp add: act_inv_def act_tables_inv_def)
  show "act_seen_inv s" using inv by (simp add: act_inv_def)
  show "rows_le (ac_rows s) (ac_rows t)" unfolding same(1) by (rule insert_or_update_le [OF run key d seq])
  show "has_row (ac_rows t) w" if "has_row (ac_rows s) w" for w
    using has_row_insert_or_update [OF run key, of w] that same(1) by simp
qed (use same in auto)

lemma tick_seen_inv:
  assumes inv: "act_inv s" and table: "table \<in> {None, Some (ac_rows s)}"
    and run: "monitor_tick ok now now_utc table snapshot (ac_mon s) = (m, writes)"
  shows "act_seen_inv (s\<lparr>ac_mon := m, ac_seen := ac_seen s \<union> seen_at snapshot (tick_hooks table now_utc)\<rparr>)"
proof -
  let ?seen = "seen_at snapshot (tick_hooks table now_utc)"
  have d: "distinct (map ar_workspace_id (ac_rows s))" and used: "ar_workspace_id ` set (ac_rows s) \<subseteq> ac_used s"
    using inv by (auto simp: act_inv_def act_tables_inv_def)
  have row: "\<exists>r\<in>set (ac_rows s). ar_workspace_id r = w \<and> ar_seq r = n" if "(w, n) \<in> ?seen" for w n
    using that table hooks_of_row by (force simp: seen_at_iff tick_hooks_def)
  have acked: "mo_hook_acked m w = (if \<exists>n. (w, n) \<in> ?seen then map_option snd (tick_hooks table now_utc w) else mo_hook_acked (ac_mon s) w)" for w
    using monitor_tick_acked [of ok now now_utc table snapshot "ac_mon s" w] run by simp
  have new: "mo_hook_acked m w = Some n" if "(w, n) \<in> ?seen" for w n
    using that acked by (auto simp: seen_at_iff)
  have old: "w \<in> ac_used s \<and> (w \<in> ac_workspaces s \<longrightarrow> has_row (ac_rows s) w) \<and> (\<forall>r\<in>set (ac_rows s). ar_workspace_id r = w \<longrightarrow> n \<le> ar_seq r)"
    if "mo_hook_acked (ac_mon s) w = Some n" for w n using inv that by (simp add: act_inv_def act_seen_inv_def)
  have "w \<in> ac_used s \<and> (w \<in> ac_workspaces s \<longrightarrow> has_row (ac_rows s) w) \<and> (\<forall>r\<in>set (ac_rows s). ar_workspace_id r = w \<longrightarrow> n \<le> ar_seq r)"
    if a: "mo_hook_acked m w = Some n" for w n
  proof (cases "\<exists>k. (w, k) \<in> ?seen")
    case True
    then obtain k where k: "(w, k) \<in> ?seen" by blast
    with a new have "k = n" by fastforce
    with row [OF k] obtain r where r: "r \<in> set (ac_rows s)" "ar_workspace_id r = w" "ar_seq r = n" by blast
    have "n \<le> ar_seq r'" if "r' \<in> set (ac_rows s)" "ar_workspace_id r' = w" for r'
    proof -
      have "r' = r" by (rule distinct_key_eq [OF d that(1) r(1)]) (simp add: that(2) r(2))
      with r(3) show ?thesis by simp
    qed
    moreover have "w \<in> ac_used s" "has_row (ac_rows s) w" using used r(1,2) by (auto simp: has_row_def)
    ultimately show ?thesis by blast
  next
    case False
    with a acked old show ?thesis by simp
  qed
  moreover have "\<exists>k. mo_hook_acked m w = Some k \<and> n \<le> k" if wn: "(w, n) \<in> ac_seen s \<union> ?seen" for w n
  proof (cases "(w, n) \<in> ?seen")
    case False
    with wn inv obtain k where k: "mo_hook_acked (ac_mon s) w = Some k" "n \<le> k" by (auto simp: act_inv_def act_seen_inv_def)
    show ?thesis
    proof (cases "\<exists>j. (w, j) \<in> ?seen")
      case True
      then obtain j where j: "(w, j) \<in> ?seen" by blast
      then obtain r where "r \<in> set (ac_rows s)" "ar_workspace_id r = w" "ar_seq r = j" using row by blast
      with old [OF k(1)] have "k \<le> j" by blast
      with k(2) new [OF j] show ?thesis by simp
    qed (use acked k in simp)
  qed (use new in auto)
  ultimately show ?thesis by (auto simp: act_seen_inv_def)
qed

lemma act_inv_step: "act_inv s \<Longrightarrow> act_step s t \<Longrightarrow> act_inv t"
proof -
  assume inv: "act_inv s" and step: "act_step s t"
  have t: "act_tables_inv t" using act_tables_step [OF _ step] inv by (simp add: act_inv_def)
  have d: "distinct (map ar_workspace_id (ac_rows s))" using inv by (simp add: act_inv_def act_tables_inv_def)
  from step have "act_seen_inv t"
  proof cases
    case (act_write w h c now rows)
    show ?thesis
      by (rule seen_inv_write [OF inv t act_write(3) [unfolded upsert_hook_def]]) (auto simp: act_write(1) Let_def)
  next
    case (act_poll w state now rows)
    show ?thesis by (rule seen_inv_write [OF inv t act_poll(2) [unfolded upsert_activity_def]]) (auto simp: act_poll(1))
  next
    case (act_manual w kind nt now rows)
    show ?thesis
      by (rule seen_inv_write [OF inv t act_manual(2) [unfolded set_cli_manual_def set_manual_def Let_def]]) (auto simp: act_manual(1))
  next
    case (act_clear_ended w)
    have "rows_le (ac_rows s) (clear_ended_phase (ac_rows s) w)"
      using rows_le_refl [OF d] by (simp add: rows_le_def clear_ended_phase_def ball_update_where)
    moreover have "has_row (clear_ended_phase (ac_rows s) w) = has_row (ac_rows s)"
      by (simp add: fun_eq_iff has_row_keys clear_ended_phase_def map_key_update_where del: set_map)
    ultimately show ?thesis
      using inv t by (intro seen_inv_rows [of s t]) (auto simp: act_clear_ended act_inv_def)
  next
    case (act_tick table snapshot parse_uuid entries sockets ok now now_utc m writes)
    show ?thesis unfolding act_tick(1) by (rule tick_seen_inv [OF inv act_tick(2,4)])
  next
    case (act_create w)
    have "act_seen_inv s" using inv by (simp add: act_inv_def)
    then show ?thesis using t
      by (rule seen_inv_rows) (use rows_le_refl [OF d] act_create(2) in \<open>auto simp: act_create(1)\<close>)
  next
    case (act_delete w)
    have "rows_le (ac_rows s) (ac_rows t)" by (rule rows_le_subset [OF d]) (auto simp: act_delete delete_where_def)
    then show ?thesis using inv t by (intro seen_inv_rows [of s t]) (auto simp: act_delete act_inv_def delete_where_def has_row_def)
  qed (use inv in \<open>auto simp: act_inv_def act_seen_inv_def\<close>)
  with t show "act_inv t" by (simp add: act_inv_def)
qed

interpretation act_machine: invariant_system act_step act_inv
  by unfold_locales (rule act_inv_step)

lemma act_init_inv: "act_inv act_init"
  by (simp add: act_init_def act_inv_def act_tables_inv_def act_seen_inv_def monitor_init_def)

section \<open>Reports and attention\<close>

text \<open>
  C17.  The newest report wins, whatever overtakes what: after any interleaving of reports in
  flight, manual states and monitor, the row of a workspace carries a report with the greatest
  sequence number of all that were written for it.
\<close>

theorem newest_report_wins:
  assumes "act_step\<^sup>*\<^sup>* act_init s" and "r \<in> set (ac_rows s)"
  shows "list_all (\<lambda>(w, h). w = ar_workspace_id r \<longrightarrow> hk_seq h \<le> ar_seq r) (ac_written s)
    \<and> (ar_hook_at r \<noteq> None \<longrightarrow> (\<exists>h. (ar_workspace_id r, h) \<in> set (ac_written s) \<and> from_report r h))"
proof -
  have "act_inv s" by (rule act_machine.reach_inv [OF assms(1) act_init_inv])
  then have "row_inv (set (ac_written s)) r" using assms(2) by (simp add: act_inv_def act_tables_inv_def)
  then show ?thesis by (auto simp: row_inv_def list_all_iff split: option.splits)
qed

text \<open>
  C18.  The monitor raises a hand only for a run nobody watched: no terminal is attached, and either
  the agent's own fresh report asks for attention and is newer than every report that was there
  while a terminal was attached, or a run without a report went quiet after it produced output
  well after the last terminal left.
\<close>

theorem attention_unseen:
  assumes "act_step\<^sup>*\<^sup>* act_init s"
    and "(w, ActAttention) \<in> set (snd (monitor_tick ok now now_utc (Some (ac_rows s)) (observe_tmux_on parse_uuid entries sockets) (ac_mon s)))"
  shows "\<exists>obs. (w, obs) \<in> set (ts_observations (observe_tmux_on parse_uuid entries sockets)) \<and> oc_claude_like obs \<and> \<not> oc_attached obs
    \<and> (case hooks_of (find_all_activity (ac_rows s)) now_utc w of
         Some (bucket, seq) \<Rightarrow> bucket = ActAttention \<and> (\<forall>n. (w, n) \<in> ac_seen s \<longrightarrow> n < seq)
       | None \<Rightarrow> oc_last_activity obs + ACTIVE_WINDOW_SECS < now
           \<and> (\<exists>since. mo_detached_since (ac_mon s) w = Some since \<and> since + DETACH_SETTLE_SECS \<le> oc_last_activity obs))"
proof -
  let ?snapshot = "observe_tmux_on parse_uuid entries sockets" and ?hooks = "hooks_of (find_all_activity (ac_rows s)) now_utc"
  have inv: "act_seen_inv s" using act_machine.reach_inv [OF assms(1) act_init_inv] by (simp add: act_inv_def)
  obtain obs m1 where obs: "(w, obs) \<in> set (ts_observations ?snapshot)" "mon_view m1 w = mon_view (tick_start (Some (ac_rows s)) (ac_mon s)) w"
      "(w, ActAttention) \<in> set (snd (watch_one ok now ?hooks (w, obs) (m1, [])))"
    using monitor_tick_attention [OF assms(2) distinct_observations] by (auto simp: tick_hooks_def)
  have view: "mo_hook_acked m1 w = mo_hook_acked (ac_mon s) w" "mo_detached_since m1 w = mo_detached_since (ac_mon s) w"
    using obs(2) by (simp_all add: mon_view_def)
  have "n < seq" if "case mo_hook_acked (ac_mon s) w of None \<Rightarrow> True | Some acked \<Rightarrow> acked < seq" "(w, n) \<in> ac_seen s" for n seq
    using inv that by (fastforce simp: act_seen_inv_def)
  with watch_one_attention [OF obs(3)] obs(1) show ?thesis
    unfolding view by (intro exI [of _ obs]) (auto split: option.splits)
qed

section \<open>The sizing sweep\<close>

lemma plan_clients:
  assumes "(socket, client, desired) \<in> set (snd (foldl (plan_client env prev) (failures, plan) clients))"
  shows "(socket, client, desired) \<in> set plan
    \<or> (socket, client) \<in> set clients \<and> client_desired env prev (socket, client) = Some desired \<and> desired \<noteq> tc_ignore_size client"
  using assms
proof (induction clients arbitrary: failures plan)
  case (Cons located clients)
  obtain failures' plan' where step: "plan_client env prev (failures, plan) located = (failures', plan')"
    by (cases "plan_client env prev (failures, plan) located")
  with Cons.prems have "(socket, client, desired) \<in> set (snd (foldl (plan_client env prev) (failures', plan') clients))" by simp
  from Cons.IH [OF this] show ?case
    using step by (auto simp: plan_client_def split: prod.splits option.splits if_splits)
qed simp

lemma apply_clients:
  assumes "Refresh socket pid name desired ok \<in> set (snd (foldl (apply_client env fresh) (failures, events) changes))"
  shows "Refresh socket pid name desired ok \<in> set events
    \<or> (\<exists>client. (socket, client, desired) \<in> set changes \<and> tc_client_pid client = pid \<and> tc_client_name client = name \<and> fresh pid = Some name)"
  using assms
proof (induction changes arbitrary: failures events)
  case (Cons change changes)
  obtain failures' events' where step: "apply_client env fresh (failures, events) change = (failures', events')"
    by (cases "apply_client env fresh (failures, events) change")
  with Cons.prems have "Refresh socket pid name desired ok \<in> set (snd (foldl (apply_client env fresh) (failures', events') changes))" by simp
  from Cons.IH [OF this] show ?case
    using step by (auto simp: apply_client_def Let_def split: prod.splits option.splits if_splits)
qed simp

lemma apply_sockets:
  assumes "Refresh socket pid name desired ok \<in> set (snd (foldl (apply_socket env plan) (failures, events) sockets))"
  shows "Refresh socket pid name desired ok \<in> set events
    \<or> (\<exists>client fresh. (socket, client, desired) \<in> set plan \<and> tc_client_pid client = pid \<and> tc_client_name client = name
        \<and> se_fresh env socket = Some fresh \<and> fresh pid = Some name)"
  using assms
proof (induction sockets arbitrary: failures events)
  case (Cons s sockets)
  obtain failures' events' where step: "apply_socket env plan (failures, events) s = (failures', events')"
    by (cases "apply_socket env plan (failures, events) s")
  with Cons.prems have "Refresh socket pid name desired ok \<in> set (snd (foldl (apply_socket env plan) (failures', events') sockets))" by simp
  from Cons.IH [OF this] consider "Refresh socket pid name desired ok \<in> set events'"
    | "\<exists>client fresh. (socket, client, desired) \<in> set plan \<and> tc_client_pid client = pid \<and> tc_client_name client = name
        \<and> se_fresh env socket = Some fresh \<and> fresh pid = Some name" by blast
  then show ?case
  proof cases
    case 1
    show ?thesis
    proof (cases "\<exists>fresh. se_fresh env s = Some fresh \<and> filter (\<lambda>c. fst c = s) plan \<noteq> []")
      case True
      then obtain fresh where fresh: "se_fresh env s = Some fresh" "filter (\<lambda>c. fst c = s) plan \<noteq> []" by blast
      then have "foldl (apply_client env fresh) (failures, events) (filter (\<lambda>c. fst c = s) plan) = (failures', events')"
        using step by (simp add: apply_socket_def Let_def)
      with 1 have "Refresh socket pid name desired ok \<in> set (snd (foldl (apply_client env fresh) (failures, events) (filter (\<lambda>c. fst c = s) plan)))"
        by simp
      from apply_clients [OF this] fresh(1) show ?thesis by auto
    next
      case False
      then have "events' = events" using step by (auto simp: apply_socket_def Let_def split: option.splits if_splits)
      with 1 show ?thesis by simp
    qed
  qed simp
qed simp

text \<open>
  The sweep changes the sizing of a client only when it differs from what is wanted, the
  client is still the one that was listed, and, to exclude it, the client is hidden without
  fresh input, its browser has been silent for the limit, or it is a terminal without browser
  that was there a sweep ago and has been idle.
\<close>

theorem sweep_guard:
  assumes "Refresh socket pid name ignore ok \<in> set (snd (sweep_client_size_flags supported env st))"
  shows "\<exists>client fresh. (socket, client) \<in> set (located_clients env) \<and> tc_client_pid client = pid \<and> tc_client_name client = name
    \<and> ignore \<noteq> tc_ignore_size client \<and> se_fresh env socket = Some fresh \<and> fresh pid = Some name
    \<and> (ignore \<longrightarrow> (case se_presence env pid of
         None \<Rightarrow> (socket, pid) \<in> sw_seen_clients st \<and> se_now_unix env - tc_client_activity client > int MANUAL_CLIENT_IDLE_SECS
       | Some p \<Rightarrow> cp_visible p \<longrightarrow> se_now env - cp_last_visible_at p \<ge> int VISIBLE_PRESENCE_STALE_SECS))"
proof -
  obtain failures plan retained where plan: "foldl (plan_client env (sw_seen_clients st)) (retained, []) (located_clients env) = (failures, plan)"
    and events: "Refresh socket pid name ignore ok \<in> set (snd (foldl (apply_socket env plan) (failures, []) (se_sockets env)))"
    using assms by (auto simp: sweep_client_size_flags_def Let_def case_prod_unfold split: if_splits)
      (metis (no_types, lifting) prod.collapse)
  obtain client fresh where c: "(socket, client, ignore) \<in> set plan" "tc_client_pid client = pid" "tc_client_name client = name"
      "se_fresh env socket = Some fresh" "fresh pid = Some name"
    using apply_sockets [OF events] by auto
  have "(socket, client) \<in> set (located_clients env) \<and> client_desired env (sw_seen_clients st) (socket, client) = Some ignore
      \<and> ignore \<noteq> tc_ignore_size client"
    using plan_clients [of socket client ignore env "sw_seen_clients st" retained "[]" "located_clients env"] plan c(1) by simp
  with c show ?thesis
    by (intro exI [of _ client] exI [of _ fresh])
      (auto simp: client_desired_def desired_ignore_client_size_def should_ignore_client_size_def sizing_presence_of_def
        VISIBLE_PRESENCE_STALE_SECS_def MANUAL_CLIENT_IDLE_SECS_def split: if_splits option.splits)
qed

section \<open>Samples\<close>

definition sample_panes :: "string \<Rightarrow> tmux_observation_snapshot" where
  "sample_panes activity = observe_tmux_on (\<lambda>_. Some 1)
     (Some [\<lparr>pe_name = Some ''10'', pe_stat = Some ''10 (claude) S 3'', pe_cmdline = None\<rparr>])
     [PaneRows (''bc_00000000000000000000000000000001|10|'' @ activity @ ''|0'')]"

lemma sample_numbers:
  "parse_u32 ''10'' = Some 10" "parse_u32 ''3'' = Some 3" "parse_i64 ''110'' = Some 110" "parse_i64 ''101'' = Some 101" "parse_i64 ''0'' = Some 0"
  "trim ''10'' = ''10''" "trim ''110'' = ''110''" "trim ''101'' = ''101''" "trim ''0'' = ''0''"
  by (simp_all add: parse_u32_def parse_i64_def all_digits_def is_ascii_digit_def code_point_def decimal_def digit_value_def
      trim_def trim_end_matches_def trim_start_matches_def is_whitespace_def)

lemma sample_procs:
  "snapshot_processes (Some [\<lparr>pe_name = Some ''10'', pe_stat = Some ''10 (claude) S 3'', pe_cmdline = None\<rparr>]) = [(10, 3, True)]"
  "subtree_has_claude 10 [(10, 3, True)]"
  by (auto simp: snapshot_processes_def snapshot_processes_for_def List.map_filter_def snapshot_entry_def sample_numbers parse_stat_def
      rfind_char_def find_str_def is_whitespace_def code_point_def program_match_def CLI_AGENT_PROGRAMS_def
      subtree_has_claude_def subtree_has_agent_def subtree_walk.simps is_agent_pid_def WALK_LIMIT_def)

lemma sample_lines:
  "str_lines ''bc_00000000000000000000000000000001|10|110|0'' = [''bc_00000000000000000000000000000001|10|110|0'']"
  "str_lines ''bc_00000000000000000000000000000001|10|101|0'' = [''bc_00000000000000000000000000000001|10|101|0'']"
  by code_simp+

lemma sample_panes_eq:
  "sample_panes ''110'' = \<lparr>ts_observations = [(1, \<lparr>oc_claude_like = True, oc_last_activity = 110, oc_attached = False\<rparr>)], ts_complete = True\<rparr>"
  "sample_panes ''101'' = \<lparr>ts_observations = [(1, \<lparr>oc_claude_like = True, oc_last_activity = 101, oc_attached = False\<rparr>)], ts_complete = True\<rparr>"
  by (simp_all add: sample_panes_def observe_tmux_on_def List.map_filter_def sample_procs sample_lines parse_pane_line_def
      workspace_id_from_cli_session_name_def strip_prefix_def str_len_def utf8_width_def code_point_def sample_numbers add_observation_def)

definition sample_created :: act where
  "sample_created = act_init\<lparr>ac_workspaces := {1}, ac_used := {1}\<rparr>"

definition sample_polled :: act where
  "sample_polled = sample_created\<lparr>ac_rows := [(default_row 1 100)\<lparr>ar_state := ''running''\<rparr>]\<rparr>"

definition sample_watched :: act where
  "sample_watched = sample_polled\<lparr>ac_mon := fst (monitor_tick (\<lambda>_. True) 101 101 (Some (ac_rows sample_polled)) (sample_panes ''101'') (ac_mon sample_polled)),
     ac_seen := ac_seen sample_polled \<union> seen_at (sample_panes ''101'') (tick_hooks (Some (ac_rows sample_polled)) 101)\<rparr>"

definition sample_payload :: json where
  "sample_payload = JObj [(''hook_event_name'', JStr ''Stop''), (''session_id'', JStr ''a'')]"

definition sample_report :: cli_hook_state where
  "sample_report = \<lparr>hk_agent_session_id = ''a'', hk_transcript_path = None, hk_phase = PhStopped, hk_tasks = None, hk_crons = None, hk_seq = 7\<rparr>"

definition sample_reported :: act where
  "sample_reported = sample_created\<lparr>ac_rows := [hook_set sample_report 100 (default_row 1 100)], ac_pending := [], ac_written := [(1, sample_report)]\<rparr>"

lemma sample_created_reach: "act_step\<^sup>*\<^sup>* act_init sample_created"
proof -
  have "act_step act_init (act_init\<lparr>ac_workspaces := insert 1 (ac_workspaces act_init), ac_used := insert 1 (ac_used act_init)\<rparr>)"
    by (rule act_create) (simp add: act_init_def)
  then show ?thesis by (simp add: sample_created_def act_init_def)
qed

lemma sample_watched_reach: "act_step\<^sup>*\<^sup>* act_init sample_watched"
proof -
  have "upsert_activity (ac_workspaces sample_created) (ac_rows sample_created) 1 ActRunning 100
      = Inr [(default_row 1 100)\<lparr>ar_state := ''running''\<rparr>]"
    by (simp add: upsert_activity_def insert_or_update_def sample_created_def act_init_def has_row_def default_row_def)
  from act_poll [OF this] have "act_step sample_created sample_polled" by (simp add: sample_polled_def)
  moreover have "act_step sample_polled sample_watched"
    unfolding sample_watched_def by (rule act_tick [OF _ sample_panes_def prod.collapse [symmetric]]) simp
  ultimately show ?thesis using sample_created_reach by (meson rtranclp.rtrancl_into_rtrancl)
qed

lemma sample_reported_reach: "act_step\<^sup>*\<^sup>* act_init sample_reported"
proof -
  let ?read = "sample_created\<lparr>ac_pending := ac_pending sample_created @ [(1, sample_report, clears_manual sample_payload)]\<rparr>"
  have "report_next (ac_rows sample_created) 1 sample_payload 7 = Some sample_report" by code_simp
  then have "act_step sample_created ?read" by (rule act_read)
  moreover have "upsert_hook (ac_workspaces ?read) (ac_rows ?read) 1 sample_report (clears_manual sample_payload) 100
      = Inr [hook_set sample_report 100 (default_row 1 100)]"
    by (simp add: upsert_hook_def insert_or_update_def sample_created_def act_init_def has_row_def default_row_def)
  then have "act_step ?read (?read\<lparr>ac_rows := [hook_set sample_report 100 (default_row 1 100)],
      ac_pending := remove1 (1, sample_report, clears_manual sample_payload) (ac_pending ?read),
      ac_written := ac_written ?read @ [(1, sample_report)]\<rparr>)" by (intro act_write) simp_all
  then have "act_step ?read sample_reported" by (simp add: sample_reported_def sample_created_def act_init_def)
  ultimately show ?thesis using sample_created_reach by (meson rtranclp.rtrancl_into_rtrancl)
qed

theorem newest_report_wins_witness:
  "list_all (\<lambda>(w, h). w = 1 \<longrightarrow> hk_seq h \<le> 7) (ac_written sample_reported)
    \<and> (\<exists>h. (1, h) \<in> set (ac_written sample_reported) \<and> from_report (hook_set sample_report 100 (default_row 1 100)) h)"
  using newest_report_wins [OF sample_reported_reach, of "hook_set sample_report 100 (default_row 1 100)"]
  by (simp add: sample_reported_def default_row_def sample_report_def)

theorem attention_unseen_witness:
  "\<exists>obs. (1, obs) \<in> set (ts_observations (sample_panes ''110'')) \<and> oc_claude_like obs \<and> \<not> oc_attached obs"
proof -
  have "(1, ActAttention) \<in> set (snd (monitor_tick (\<lambda>_. True) 120 120 (Some (ac_rows sample_watched)) (sample_panes ''110'') (ac_mon sample_watched)))"
    by (simp add: sample_watched_def sample_polled_def sample_created_def act_init_def monitor_init_def sample_panes_eq default_row_def
        monitor_tick_def find_all_activity_def read_row_def row_phase_def hooks_of_def fresh_phase_def List.map_filter_def activity_parse_def
        watch_one_def next_state_def record_state_def should_transition_missing_to_idle_def ACTIVE_WINDOW_SECS_def DETACH_SETTLE_SECS_def Let_def)
  from attention_unseen [OF sample_watched_reach this [unfolded sample_panes_def]] show ?thesis
    unfolding sample_panes_def by blast
qed

definition sample_sweep :: sweep_env where
  "sample_sweep = \<lparr>se_sockets = [''bc''], se_clients = (\<lambda>_. Some [\<lparr>tc_client_pid = 20, tc_client_name = ''/dev/pts/1'', tc_client_activity = 0, tc_ignore_size = False\<rparr>]),
     se_presence = Map.empty, se_now = 0, se_now_unix = 5000, se_fresh = (\<lambda>_. Some [20 \<mapsto> ''/dev/pts/1'']), se_refresh = (\<lambda>_ _ _. True)\<rparr>"

theorem sweep_guard_witness:
  "\<exists>client. (''bc'', client) \<in> set (located_clients sample_sweep) \<and> tc_client_pid client = 20 \<and> \<not> tc_ignore_size client
    \<and> se_now_unix sample_sweep - tc_client_activity client > int MANUAL_CLIENT_IDLE_SECS"
proof -
  have "Refresh ''bc'' 20 ''/dev/pts/1'' True True \<in> set (snd (sweep_client_size_flags True sample_sweep
      \<lparr>sw_refresh_failures = Map.empty, sw_seen_clients = {(''bc'', 20)}\<rparr>))"
    by code_simp
  from sweep_guard [OF this] show ?thesis by (auto simp: sample_sweep_def)
qed

end
