(* ===== verification/Spec2Isabelle.thy ===== *)
theory Spec2Isabelle
  imports Fragment SpawnReservation QueuedMessage InputDelivery LoopSupervisor PlainText MsgStore Approvals CollabDelivery ImportSafety ImportQueue ProjectionSafety FeedServe ActivitySafety
begin

text \<open>
  BetterCoding: verification of the core of its backend.

  BetterCoding runs coding agents in workspaces.  An agent is driven either by the backend
  (an executor, one process per turn) or by the user in a terminal pane, and both may want to
  write to the same workspace.  The Rust backend under \<^verbatim>\<open>src/crates\<close> therefore keeps durable
  tables in SQLite (messages that wait for a session, reservations of a workspace, bindings of
  panes to sessions, a ledger of requests for human input, wake-ups after a usage limit) and
  services that act on them, and it turns the output of agents into streams of log messages.
  This development models those tables and services and proves what the rest of the backend
  relies on.

  \<^bold>\<open>Parts and theories.\<close>

  \<^item> \<^verbatim>\<open>Prelude\<close>: results and errors, SQL tables as lists of rows (\<open>update_where\<close>, \<open>select_one\<close>,
    \<open>order_by\<close>), invariants of step relations as locales (\<open>invariant_system\<close>,
    \<open>monotone_system\<close>), lemmas on lists and strings.

  \<^item> \<^verbatim>\<open>Sessions\<close> (\<^verbatim>\<open>db/src/models/session.rs\<close>, \<^verbatim>\<open>execution_process.rs\<close>): the columns of sessions and
    executions the services read, the parked prompt of a session, its working directory.

  \<^item> \<^verbatim>\<open>SpawnReservation\<close> (\<^verbatim>\<open>workspace_spawn_reservation.rs\<close>): who may start an agent in a
    workspace.  Mutual exclusion until the reservation is released or expires, and progress.

  \<^item> \<^verbatim>\<open>QueuedMessage\<close> (\<^verbatim>\<open>session_queued_message.rs\<close>, \<^verbatim>\<open>services/queued_message.rs\<close>): the one message that
    waits for a session: stored, claimed, pasted, acknowledged, requeued, reconciled.  Every
    statement is an instance of the locale \<open>queue_statement\<close>.  Single slot, durability,
    exclusive claims, and the reconciliation as a function of a row.

  \<^item> \<^verbatim>\<open>PaneBinding\<close> (\<^verbatim>\<open>cli_pane_binding.rs\<close>, \<^verbatim>\<open>coding_agent_turn.rs\<close>, \<^verbatim>\<open>claude_session_link.rs\<close>): which pane
    runs which session, and the native session of an agent.

  \<^item> \<^verbatim>\<open>CollabModel\<close>, \<^verbatim>\<open>CliCollab\<close>, \<^verbatim>\<open>CollabSafety\<close>, \<^verbatim>\<open>CollabDelivery\<close> (\<^verbatim>\<open>services/cli_collab.rs\<close>): the service that
    decides between executor and terminal.  Its state is the record \<open>collab\<close>: the tables above
    and the list of its effects; an operation is a function of the environment \<open>collab_env\<close>
    (probe, transport, dispatcher, clock, file system, which database calls fail) and that
    state, which keeps its changes when it fails.  \<open>CollabSafety\<close> proves once, in the locale
    \<open>collab_invariant\<close>, that every operation keeps an invariant that its statements keep, and
    that the effects follow a monitor; \<open>CollabDelivery\<close> derives the evidence behind a lease,
    the guards of every start and paste, and by Hoare triples over queue and effects that an
    accepted prompt is never lost.

  \<^item> \<^verbatim>\<open>NativeFeed\<close>, \<^verbatim>\<open>FeedInvariant\<close>, \<^verbatim>\<open>FeedMachine\<close>, \<^verbatim>\<open>FeedSafety\<close> (\<^verbatim>\<open>cli_native_file.rs\<close>,
    \<^verbatim>\<open>cli_native_record.rs\<close>, \<^verbatim>\<open>claude_session_link.rs\<close>, \<^verbatim>\<open>cli_ingest_outbox.rs\<close>, the adoption of
    sessions in \<^verbatim>\<open>cli_pane_binding.rs\<close>): the transcripts agents write in a terminal, imported
    line by line into the record \<open>feed\<close> of tables and read as the feed of a session.  The
    operations and the other writers are the relation \<open>feed_step\<close>.  A feed shows every record of
    its transcripts once, batches are imported exactly and only once, a rewritten transcript
    replaces the old one without reuse of sequence numbers, a queued message is acknowledged
    once, and pruning is invisible.

  \<^item> \<^verbatim>\<open>TailReader\<close>, \<^verbatim>\<open>ForkView\<close>, \<^verbatim>\<open>ForkSafety\<close>, \<^verbatim>\<open>Projection\<close>, \<^verbatim>\<open>ProjectionSafety\<close>
    (\<^verbatim>\<open>services/claude_transcript_ingest/{tail,forks,projection}.rs\<close>): what surrounds the feed.  Complete
    lines are read in batches that equal one split of the bytes.  The projection that chat shows
    folds the rows of a session into entries, with the branches of the first fork of each
    transcript; it is extended batch by batch to exactly what a full build gives, and consumers
    that apply its differences never diverge from it.  The fork view is a depth-first search
    that is shown to end without a panic on any graph of records.

  \<^item> \<^verbatim>\<open>NativeImport\<close>, \<^verbatim>\<open>ImportSafety\<close>, \<^verbatim>\<open>ImportQueue\<close> (\<^verbatim>\<open>services/claude_transcript_ingest.rs\<close>): one pass over a
    transcript file composes the tail reader, the registration, the link and the import, into a
    new generation when the file was rewritten.  A pass succeeds and leaves in the tables exactly
    the records of the complete lines of the file.  Requests for a path that is being imported
    are coalesced; each is followed by a pass that starts after it.

  \<^item> \<^verbatim>\<open>FeedCache\<close>, \<^verbatim>\<open>FeedServe\<close> (\<^verbatim>\<open>services/claude_transcript_ingest.rs\<close>): the answer to a connected chat, from a
    bounded cache of projections that evicts the least recently used session without a connected
    feed.  Imports, pruning, rewritten files, moved links with their later invalidation,
    evictions, subscriptions and reads interleave in \<open>serve_step\<close>; a consumer that applies the
    answers holds exactly the projection of the rows of its session.

  \<^item> \<^verbatim>\<open>InputTypes\<close>, \<^verbatim>\<open>InputLedger\<close>, \<^verbatim>\<open>InputChain\<close>, \<^verbatim>\<open>InputInvariant\<close>, \<^verbatim>\<open>InputSafety\<close>, \<^verbatim>\<open>InputDelivery\<close>
    (\<^verbatim>\<open>db/src/models/workspace_input.rs\<close>, \<^verbatim>\<open>services/input_availability.rs\<close>): requests for human input
    as an append-only, hash-chained ledger with its projections, reads and notifications.  The
    chain verifies after any sequence of operations, tampering is detected or a collision of
    the digest is found, writes are optimistic and idempotent, feeds page without loss.

  \<^item> \<^verbatim>\<open>CliActivity\<close>, \<^verbatim>\<open>ActivityMonitor\<close>, \<^verbatim>\<open>ActivitySafety\<close> (\<^verbatim>\<open>workspace_cli_activity.rs\<close>,
    \<^verbatim>\<open>routes/workspaces/cli_activity.rs\<close>, \<^verbatim>\<open>local-deployment/src/cli_activity.rs\<close>): what an agent in a terminal
    reports about itself, the watcher of panes and processes, and the bucket of the sidebar.
    Reports in flight, manual states, ticks and deletions interleave in \<open>act_step\<close>; the newest
    report wins, a hand is raised only for a run nobody watched, the walk over the process
    table is the reachability of processes, and the sizing sweep is guarded.

  \<^item> \<^verbatim>\<open>LoopAutomation\<close>, \<^verbatim>\<open>LimitDetect\<close>, \<^verbatim>\<open>LoopSupervisor\<close> (\<^verbatim>\<open>db/src/models/loop_automation.rs\<close>,
    \<^verbatim>\<open>local-deployment/src/loop_supervisor.rs\<close>): usage limits read off a pane, wake-ups and
    their delivery or parking.  Prompts of the user survive, attempts are capped, wake-ups are
    not duplicated and lie in the future.

  \<^item> \<^verbatim>\<open>MsgStore\<close> (\<^verbatim>\<open>utils/src/msg_store.rs\<close>, \<^verbatim>\<open>log_msg.rs\<close>, \<^verbatim>\<open>executors/src/logs/utils/entry_index.rs\<close>): the
    bounded history of a process, its live stream and the numbering of entries.

  \<^item> \<^verbatim>\<open>PlainText\<close> (\<^verbatim>\<open>executors/src/logs/plain_text_processor.rs\<close>): text chunks into log entries.

  \<^item> \<^verbatim>\<open>Approvals\<close> (\<^verbatim>\<open>services/approvals.rs\<close>, \<^verbatim>\<open>utils/src/approvals.rs\<close>): requests of an executor to the
    user, as concurrent tasks whose single accesses to the shared maps interleave.

  \<^item> \<^verbatim>\<open>Fragment\<close> (\<^verbatim>\<open>relay-webrtc/src/fragment.rs\<close>): messages over a data channel with a size limit.

  \<^bold>\<open>Conventions.\<close>  Identifiers are natural numbers, instants and durations integers (seconds).
  A table is the list of its rows in insertion order; a statement that would violate a key
  or unique index of the schema returns \<open>DbError\<close>.  Functions of other crates are arguments
  (parsing of configurations and of RFC 3339 instants, SHA-256, JSON lengths, tmux, the
  transport), and a theorem that relies on them says so in its hypotheses.  Loops are
  structural or come with a measure; the boundary loop of \<open>PlainText\<close>, which the pluggable
  predicate may keep from ending, and the searches of \<open>ForkView\<close>, which are proved to end, are
  partial functions into \<open>option\<close>.  Sizes that the code
  bounds by \<open>usize\<close> saturate or wrap at \<open>2 ^ 64\<close>.

  \<^bold>\<open>Concurrency.\<close>  The services on SQLite are taken one statement or one operation at a time:
  statements are atomic, transactions are serialised, and the operations of the collaboration
  service hold the lock of their session; the other writers are steps of the same relation
  (\<open>collab_step\<close>) between operations.  The approvals service has no lock, and its tasks
  interleave at every access.

  \<^bold>\<open>Not modelled.\<close>  Terminal panes and process inspection (\<^verbatim>\<open>local-deployment/src/pty.rs\<close>), containers
  and worktrees, git, HTTP and WebSocket routes, the remote API and the relay transport are
  input and output around external systems.  The normalisation of agent output
  (\<^verbatim>\<open>executors/src/executors\<close>) translates formats defined outside the repository.  Watching
  directories, locating rollouts and parsing lines is the input of the modelled import; deleting a session or a
  workspace, whose rows go by cascade, is not a step of the feed.  Tracing, metrics and the
  background tasks that call the modelled operations periodically are left out.
\<close>

end
